(* ===== verification/Prelude.thy ===== *)
theory Prelude
  imports Main "HOL-Library.Word" "HOL-Library.Multiset"
begin

text \<open>
  Shared vocabulary of the development: the machine integers and byte strings of the C++ code,
  the faults a handler can run into (each a branch of the model, never an unspecified value), the
  result type that carries them, and the list and option lemmas the components share.
\<close>

section \<open>Machine types\<close>

unbundle bit_operations_syntax

type_synonym u8 = "8 word"
type_synonym u32 = "32 word"
type_synonym u64 = "64 word"
type_synonym i32 = "32 word"
type_synonym i64 = "64 word"
type_synonym bytes = "u8 list"

text \<open>The bytes of an ASCII literal.\<close>

definition ascii :: "string \<Rightarrow> bytes" where
  "ascii s = map of_char s"

text \<open>A \<open>char*\<close> that the code reads as a C string ends at the first NUL byte.\<close>

definition c_str :: "bytes \<Rightarrow> bytes" where
  "c_str s = takeWhile (\<lambda>b. b \<noteq> 0) s"

lemma c_str_id [simp]: "0 \<notin> set s \<Longrightarrow> c_str s = s"
  by (auto simp: c_str_def takeWhile_eq_all_conv)

lemma c_str_Nil [simp]: "c_str [] = []"
  by (simp add: c_str_def)

lemma c_str_no_nul: "0 \<notin> set (c_str s)"
  by (auto simp: c_str_def dest: set_takeWhileD)

section \<open>Faults and results\<close>

text \<open>
  What can end a call other than by returning: reading an object through a null pointer, using
  something that was freed, a pointer that was never set, an index out of range, an exception
  leaving a \<open>noexcept\<close> function (\<open>std::terminate\<close>), a remainder by zero, an empty \<open>Optional\<close>, a
  failed \<open>CHECK\<close>, an \<open>int\<close> that leaves its range.
\<close>

datatype fault =
    NullDeref
  | UseAfterFree
  | WildPointer
  | OutOfRange
  | Terminate
  | DivByZero
  | BadOptional
  | CheckFailed
  | SignedOverflow

type_synonym 'a res = "fault + 'a"

definition res_bind :: "'a res \<Rightarrow> ('a \<Rightarrow> 'b res) \<Rightarrow> 'b res" where
  "res_bind r f = (case r of Inl e \<Rightarrow> Inl e | Inr x \<Rightarrow> f x)"

lemma res_bind_simps [simp]:
  "res_bind (Inl e) f = Inl e"
  "res_bind (Inr x) f = f x"
  by (simp_all add: res_bind_def)

lemma res_bind_cong [fundef_cong]:
  "r = r' \<Longrightarrow> (\<And>x. r' = Inr x \<Longrightarrow> f x = g x) \<Longrightarrow> res_bind r f = res_bind r' g"
  by (cases r') (auto simp: res_bind_def)

lemma res_bind_Inr:
  "res_bind r f = Inr y \<longleftrightarrow> (\<exists>x. r = Inr x \<and> f x = Inr y)"
  by (cases r) auto

lemma res_bind_InrE:
  assumes "res_bind r f = Inr y"
  obtains x where "r = Inr x" and "f x = Inr y"
  using assms by (auto simp: res_bind_Inr)

text \<open>What unfolds straight-line code: the results it threads, its \<open>let\<close>s and its pairs.\<close>

named_theorems straight

lemmas straight_rules [straight] = res_bind_Inr Let_def split_beta

section \<open>Lists and words\<close>

lemma length_concat_map: "length (concat (map f xs)) = (\<Sum>x\<leftarrow>xs. length (f x))"
  by (induction xs) auto

lemma foldl_insert: "foldl (\<lambda>s x. insert (f x) s) A xs = A \<union> f ` set xs"
  by (induction xs arbitrary: A) auto

lemma ucast_scast_i32 [simp]: "ucast (scast (e :: i32) :: u64) = e"
  by (rule bit_word_eqI) (simp add: bit_simps)

lemma ucast_ucast_u32 [simp]: "ucast (ucast (e :: u32) :: u64) = e"
  by (rule bit_word_eqI) (simp add: bit_simps)

lemma unat_ucast_u32 [simp]: "unat (ucast (t :: u32) :: u64) = unat t"
  by (simp add: unsigned_ucast_eq take_bit_nat_eq_self_iff order_less_trans [OF unsigned_less])

lemma unat_of_nat_small:
  "n < 2 ^ LENGTH('a) \<Longrightarrow> unat (of_nat n :: 'a :: len word) = n"
  by (simp add: unat_of_nat)

lemma ucast_of_nat_small:
  assumes "n < 2 ^ LENGTH('a)"
  shows "ucast (of_nat n :: 'a :: len word) = (of_nat n :: 'b :: len word)"
proof -
  have "ucast (of_nat n :: 'a word) = (of_nat (unat (of_nat n :: 'a word)) :: 'b word)"
    by (simp only: of_nat_unat)
  with assms show ?thesis by (simp only: unat_of_nat_small)
qed

lemma scast_of_nat_small:
  assumes "n < 2 ^ (LENGTH('a) - 1)"
  shows "scast (of_nat n :: 'a :: len word) = (of_nat n :: 'b :: len word)"
proof -
  have "int n < 2 ^ (LENGTH('a) - 1)"
    using assms by (metis of_nat_less_iff of_nat_numeral of_nat_power)
  then have "sint (of_nat n :: 'a word) = int n"
    by (simp add: signed_of_nat signed_take_bit_int_eq_self order_trans [of _ 0])
  then have "of_int (sint (of_nat n :: 'a word)) = (of_nat n :: 'b word)"
    by simp
  then show ?thesis by (simp only: of_int_sint)
qed

lemma ucast_scast_i64 [simp]: "ucast (scast (e :: i32) :: i64) = e"
  by (rule ucast_scast_i32)

lemma sint_scast_i32 [simp]: "sint (scast (e :: i32) :: i64) = sint e"
proof -
  have "- (2 ^ 31) \<le> sint e" "sint e < 2 ^ 31"
    using sint_greater_eq [of e] sint_less [of e] by simp_all
  then show ?thesis
    by (simp add: signed_scast_eq signed_take_bit_int_eq_self)
qed

section \<open>Decimal text\<close>

function dec_nat :: "nat \<Rightarrow> bytes" where
  "dec_nat n = (if n < 10 then [48 + of_nat n] else dec_nat (n div 10) @ [48 + of_nat (n mod 10)])"
  by pat_completeness auto
termination
  by (relation "measure id") auto

declare dec_nat.simps [simp del]

definition dec_int :: "int \<Rightarrow> bytes" where
  "dec_int i = (if i < 0 then 45 # dec_nat (nat (- i)) else dec_nat (nat i))"

definition is_digit :: "u8 \<Rightarrow> bool" where
  "is_digit b = (48 \<le> b \<and> b \<le> 57)"

definition undec_nat :: "bytes \<Rightarrow> nat option" where
  "undec_nat bs =
     (if bs = [] \<or> \<not> list_all is_digit bs then None
      else Some (foldl (\<lambda>n b. n * 10 + unat (b - 48)) 0 bs))"

definition undec_int :: "bytes \<Rightarrow> int option" where
  "undec_int bs =
     (case bs of
        [] \<Rightarrow> None
      | b # ds \<Rightarrow> if b = 45 then map_option (\<lambda>n. - int n) (undec_nat ds)
                 else map_option int (undec_nat bs))"

lemma is_digit_code: "n < 10 \<Longrightarrow> is_digit (48 + of_nat n)"
  by (simp add: is_digit_def word_le_nat_alt unat_word_ariths unat_of_nat_small)

lemma dec_nat_nonempty: "dec_nat n \<noteq> []"
  by (subst dec_nat.simps) simp

lemma dec_nat_digits: "list_all is_digit (dec_nat n)"
proof (induction n rule: dec_nat.induct)
  case (1 n)
  then show ?case by (subst dec_nat.simps) (simp add: is_digit_code)
qed

lemma foldl_dec_nat: "foldl (\<lambda>n b. n * 10 + unat (b - 48)) 0 (dec_nat n) = n"
proof (induction n rule: dec_nat.induct)
  case (1 n)
  then show ?case by (subst dec_nat.simps) (simp add: unat_of_nat_small)
qed

lemma undec_dec_nat: "undec_nat (dec_nat n) = Some n"
  using dec_nat_digits [of n] by (simp add: undec_nat_def dec_nat_nonempty foldl_dec_nat)

lemma dec_nat_plain: "b \<in> set (dec_nat n) \<Longrightarrow> is_digit b"
  using dec_nat_digits [of n] by (auto simp: list_all_iff)

lemma undec_dec_int: "undec_int (dec_int i) = Some i"
proof (cases "i < 0")
  case False
  obtain b ds where ds: "dec_nat (nat i) = b # ds"
    using dec_nat_nonempty [of "nat i"] by (cases "dec_nat (nat i)") auto
  then have "is_digit b" using dec_nat_plain [of b "nat i"] by simp
  then have "b \<noteq> 45" by (auto simp: is_digit_def)
  with False ds undec_dec_nat [of "nat i"] show ?thesis
    by (simp add: dec_int_def undec_int_def)
qed (simp add: dec_int_def undec_int_def undec_dec_nat)

lemma dec_int_no_nul: "0 \<notin> set (dec_int i)"
  by (auto simp: dec_int_def is_digit_def dest: dec_nat_plain)

text \<open>The same digits as characters, as \<open>folly::to<std::string>\<close> prints an unsigned number.\<close>

definition dec_string :: "nat \<Rightarrow> string" where
  "dec_string n = map (\<lambda>b. char_of (unat b)) (dec_nat n)"

end
