(* ===== verification/Wire.thy ===== *)
theory Wire
  imports Prelude
begin

text \<open>
  What the generated message code (feature-server/util/pbdata/serv-msg.pb.cc) is written against.
  The protobuf runtime is not part of the repository, so each of its functions that the generated
  code calls is a field of the record \<open>wire_rt\<close>, an argument of every definition that calls it;
  the locale \<open>wire_runtime\<close> names what the documented wire format promises about them. The loop
  that all \<open>_InternalParse\<close> functions share is \<open>parse_loop\<close>.

  A read pointer is modelled by the bytes left before the current limit; \<open>None\<close> is the null
  pointer the runtime returns on malformed input. \<open>ctx->Done(&ptr)\<close> and the negation of
  \<open>ctx->DataAvailable(ptr)\<close> are the test that no byte is left. A function that returns a value and
  moves the pointer returns both; on failure the value is whatever the runtime left behind, and
  the code stores it, as the source does, before it looks at the pointer.
\<close>

section \<open>The runtime's functions\<close>

text \<open>
  How a parse ends: at a null pointer, at the limit (\<open>ctx->Done\<close>), or at a tag 0 or end-group tag,
  which the code records with \<open>ctx->SetLastTag(tag)\<close>.
\<close>

datatype parse_end = NullPtr | AtLimit | AtTag u32 bytes

record ('u, 's) wire_rt =
  ReadTag :: "bytes \<Rightarrow> u32 \<times> bytes option"
  ReadVarint64 :: "bytes \<Rightarrow> u64 \<times> bytes option"
  ReadVarint32 :: "bytes \<Rightarrow> u32 \<times> bytes option"
  InlineGreedyStringParser :: "bytes \<Rightarrow> bytes \<times> bytes option"
  PackedUInt64Parser :: "u64 list \<Rightarrow> bytes \<Rightarrow> u64 list \<times> bytes option"
  PackedUInt32Parser :: "u32 list \<Rightarrow> bytes \<Rightarrow> u32 list \<times> bytes option"
  ParseMessage :: "('s \<Rightarrow> bytes \<Rightarrow> ('s \<times> parse_end) option) \<Rightarrow> 's \<Rightarrow> bytes
                   \<Rightarrow> ('s \<times> bytes option) option"
  UnknownFieldParse :: "u32 \<Rightarrow> 'u list \<Rightarrow> bytes \<Rightarrow> 'u list \<times> bytes option"
  ExpectTag :: "nat \<Rightarrow> bytes \<Rightarrow> bool"
  VerifyUTF8 :: "bytes \<Rightarrow> bool"
  WriteUInt64ToArray :: "nat \<Rightarrow> u64 \<Rightarrow> bytes"
  WriteInt32ToArray :: "nat \<Rightarrow> i32 \<Rightarrow> bytes"
  WriteBoolToArray :: "nat \<Rightarrow> bool \<Rightarrow> bytes"
  WriteBytes :: "nat \<Rightarrow> bytes \<Rightarrow> bytes"
  WriteString :: "nat \<Rightarrow> bytes \<Rightarrow> bytes"
  WriteUInt64Packed :: "nat \<Rightarrow> u64 list \<Rightarrow> i32 \<Rightarrow> bytes"
  WriteUInt32Packed :: "nat \<Rightarrow> u32 list \<Rightarrow> i32 \<Rightarrow> bytes"
  InternalWriteMessage :: "nat \<Rightarrow> i32 \<Rightarrow> bytes \<Rightarrow> bytes"
  InternalSerializeUnknownFields :: "'u list \<Rightarrow> bytes"
  UInt64Size :: "u64 \<Rightarrow> nat"
  Int32Size :: "i32 \<Rightarrow> nat"
  UInt64Sizes :: "u64 list \<Rightarrow> nat"
  UInt32Sizes :: "u32 list \<Rightarrow> nat"
  BytesSize :: "bytes \<Rightarrow> nat"
  StringSize :: "bytes \<Rightarrow> nat"
  MessageSize :: "nat \<Rightarrow> nat"
  UnknownFieldsSize :: "'u list \<Rightarrow> nat"

text \<open>
  The base class of the generated messages: \<open>_internal_metadata_\<close> holds the unknown fields of the
  last parse, \<open>_cached_size_\<close> what \<open>ByteSizeLong\<close> computed last. Sizes are \<open>size_t\<close> totals
  (\<open>nat\<close>: no message comes near the 64-bit limit); a cached size is the \<open>int\<close> that
  \<open>ToCachedSize\<close> casts it to, so it wraps at 32 bits.
\<close>

record 'u Message =
  internal_metadata :: "'u list"
  cached_size :: i32

definition have_unknown_fields :: "('u, 'x) Message_scheme \<Rightarrow> bool" where
  "have_unknown_fields m = (internal_metadata m \<noteq> [])"

definition ToCachedSize :: "nat \<Rightarrow> i32" where
  "ToCachedSize n = of_nat n"

section \<open>The parse loop of the generated code\<close>

text \<open>
  One iteration reads a tag and switches on the field number. A \<open>case\<close> of the switch either
  handles the tag, leaving a new message and pointer (\<open>Handled\<close>, after which \<open>CHK_(ptr)\<close>
  jumps to \<open>failure\<close> on a null pointer), or goes to \<open>handle_unusual\<close>. A field parser has an
  option type because the sub-message loops it runs need not end for an arbitrary runtime.
\<close>

datatype 'm field_result = Handled 'm "bytes option" | Unusual

type_synonym 'm field_parser = "u32 \<Rightarrow> bytes \<Rightarrow> 'm \<Rightarrow> 'm field_result option"

partial_function (option) parse_loop ::
  "('u, 's) wire_rt \<Rightarrow> ('u, 'x) Message_scheme field_parser \<Rightarrow> ('u, 'x) Message_scheme \<Rightarrow> bytes
   \<Rightarrow> (('u, 'x) Message_scheme \<times> parse_end) option" where
  "parse_loop rt fld m ptr =
     (if ptr = [] then Some (m, AtLimit)
      else case ReadTag rt ptr of
        (tag, None) \<Rightarrow> Some (m, NullPtr)
      | (tag, Some p) \<Rightarrow>
          (case fld tag p m of
             None \<Rightarrow> None
           | Some (Handled m' None) \<Rightarrow> Some (m', NullPtr)
           | Some (Handled m' (Some p')) \<Rightarrow> parse_loop rt fld m' p'
           | Some Unusual \<Rightarrow>
               (if tag AND 7 = 4 \<or> tag = 0 then Some (m, AtTag tag p)
                else case UnknownFieldParse rt tag (internal_metadata m) p of
                  (ufs, None) \<Rightarrow> Some (m\<lparr>internal_metadata := ufs\<rparr>, NullPtr)
                | (ufs, Some p') \<Rightarrow> parse_loop rt fld (m\<lparr>internal_metadata := ufs\<rparr>) p')))"

lemma parse_loop_Nil [simp]: "parse_loop rt fld m [] = Some (m, AtLimit)"
  by (simp add: parse_loop.simps)

text \<open>One handled field: the loop goes on after it.\<close>

lemma parse_loop_handled:
  assumes "ReadTag rt ptr = (tag, Some p)" and "ptr \<noteq> []"
    and "fld tag p m = Some (Handled m' (Some p'))"
  shows "parse_loop rt fld m ptr = parse_loop rt fld m' p'"
  using assms by (subst parse_loop.simps) simp

text \<open>A tag 0 that no case handles ends the parse there.\<close>

lemma parse_loop_stop:
  assumes "ReadTag rt ptr = (tag, Some p)" and "ptr \<noteq> []"
    and "fld tag p m = Some Unusual" and "tag AND 7 = 4 \<or> tag = 0"
  shows "parse_loop rt fld m ptr = Some (m, AtTag tag p)"
  using assms by (subst parse_loop.simps) auto

lemma parse_loop_null:
  assumes "ReadTag rt ptr = (tag, None)" and "ptr \<noteq> []"
  shows "parse_loop rt fld m ptr = Some (m, NullPtr)"
  using assms by (subst parse_loop.simps) simp

section \<open>The wire format\<close>

text \<open>
  The longest length-delimited value the runtime accepts: \<open>INT_MAX\<close> less its 16 slop bytes.
\<close>

definition wire_max :: nat where
  "wire_max = 2 ^ 31 - 16"

definition packed64 :: "(u64 \<Rightarrow> bytes) \<Rightarrow> u64 list \<Rightarrow> bytes" where
  "packed64 varint vs = concat (map varint vs)"

definition packed32 :: "(u64 \<Rightarrow> bytes) \<Rightarrow> u32 list \<Rightarrow> bytes" where
  "packed32 varint vs = concat (map (\<lambda>v. varint (ucast v)) vs)"

text \<open>
  The documented encoding: a field is a varint tag (field number times 8 plus wire type) and a
  payload; \<open>varint\<close> is the runtime's base-128 writer. Reading back what was written returns the
  value and leaves the rest; a successful read of a tag or of a varint consumes
  input and no read gives bytes back.
\<close>

locale wire_runtime =
  fixes rt :: "('u, 's) wire_rt"
    and varint :: "u64 \<Rightarrow> bytes"
  assumes varint_small: "v < 128 \<Longrightarrow> varint v = [ucast v]"
    and read_tag: "ReadTag rt (varint (ucast t) @ rest) = (t, Some rest)"
    and read_varint64: "ReadVarint64 rt (varint v @ rest) = (v, Some rest)"
    and read_varint32: "ReadVarint32 rt (varint v @ rest) = (ucast v, Some rest)"
    and read_string: "length s < wire_max \<Longrightarrow>
      InlineGreedyStringParser rt (varint (of_nat (length s)) @ s @ rest) = (s, Some rest)"
    and read_packed64: "length (packed64 varint vs) < wire_max \<Longrightarrow>
      PackedUInt64Parser rt acc
        (varint (of_nat (length (packed64 varint vs))) @ packed64 varint vs @ rest)
      = (acc @ vs, Some rest)"
    and read_packed32: "length (packed32 varint ws) < wire_max \<Longrightarrow>
      PackedUInt32Parser rt acc32
        (varint (of_nat (length (packed32 varint ws))) @ packed32 varint ws @ rest)
      = (acc32 @ ws, Some rest)"
    and read_message: "length body < wire_max \<Longrightarrow>
      ParseMessage rt parse m (varint (of_nat (length body)) @ body @ rest) =
        (case parse m body of
           None \<Rightarrow> None
         | Some (m', AtLimit) \<Rightarrow> Some (m', Some rest)
         | Some (m', _) \<Rightarrow> Some (m', None))"
    and expect_tag: "f < 128 \<Longrightarrow> ExpectTag rt f (b # bs) \<longleftrightarrow> b = of_nat f"
    and write_uint64: "WriteUInt64ToArray rt f v = varint (of_nat (f * 8)) @ varint v"
    and write_int32: "WriteInt32ToArray rt f e = varint (of_nat (f * 8)) @ varint (scast e)"
    and write_bool: "WriteBoolToArray rt f flag = varint (of_nat (f * 8)) @ varint (of_bool flag)"
    and write_bytes: "WriteBytes rt f s =
      varint (of_nat (f * 8 + 2)) @ varint (of_nat (length s)) @ s"
    and write_string: "WriteString rt f s =
      varint (of_nat (f * 8 + 2)) @ varint (of_nat (length s)) @ s"
    and write_packed64: "WriteUInt64Packed rt f vs n =
      varint (of_nat (f * 8 + 2)) @ varint (ucast n) @ packed64 varint vs"
    and write_packed32: "WriteUInt32Packed rt f ws n =
      varint (of_nat (f * 8 + 2)) @ varint (ucast n) @ packed32 varint ws"
    and write_message: "InternalWriteMessage rt f n body =
      varint (of_nat (f * 8 + 2)) @ varint (ucast n) @ body"
    and uint64_size: "UInt64Size rt v = length (varint v)"
    and int32_size: "Int32Size rt e = length (varint (scast e))"
    and uint64_sizes: "UInt64Sizes rt vs = length (packed64 varint vs)"
    and uint32_sizes: "UInt32Sizes rt ws = length (packed32 varint ws)"
    and bytes_size: "BytesSize rt s = length (varint (of_nat (length s))) + length s"
    and string_size: "StringSize rt s = length (varint (of_nat (length s))) + length s"
    and message_size: "MessageSize rt k = length (varint (of_nat k)) + k"
    and tag_consumes: "ReadTag rt p = (t, Some p') \<Longrightarrow> length p' < length p"
    and varint64_consumes: "ReadVarint64 rt p = (v, Some p') \<Longrightarrow> length p' < length p"
    and varint32_consumes: "ReadVarint32 rt p = (w, Some p') \<Longrightarrow> length p' < length p"
    and string_no_gain: "InlineGreedyStringParser rt p = (s, Some p') \<Longrightarrow> length p' \<le> length p"
    and packed64_no_gain: "PackedUInt64Parser rt acc p = (vs, Some p') \<Longrightarrow> length p' \<le> length p"
    and packed32_no_gain: "PackedUInt32Parser rt acc32 p = (ws, Some p') \<Longrightarrow> length p' \<le> length p"
    and unknown_no_gain: "UnknownFieldParse rt t us p = (us', Some p') \<Longrightarrow> length p' \<le> length p"
    and message_returns: "(\<And>b. length b \<le> length p \<Longrightarrow> parse m b \<noteq> None) \<Longrightarrow>
      ParseMessage rt parse m p \<noteq> None"
    and message_no_gain: "ParseMessage rt parse m p = Some (m', Some p') \<Longrightarrow> length p' \<le> length p"
    and empty_is_utf8: "VerifyUTF8 rt []"
    and varint_length: "length (varint v) \<le> 10"
begin

lemma varint64_no_gain: "ReadVarint64 rt p = (v, Some p') \<Longrightarrow> length p' \<le> length p"
  by (drule varint64_consumes) simp

lemma varint32_no_gain: "ReadVarint32 rt p = (w, Some p') \<Longrightarrow> length p' \<le> length p"
  by (drule varint32_consumes) simp

lemma varint_nonempty [simp]: "varint v \<noteq> []"
  using varint64_consumes [OF read_varint64 [of v "[]"]] by auto

lemma packed_empty [simp]:
  "packed64 varint vs = [] \<longleftrightarrow> vs = []" "packed32 varint ws = [] \<longleftrightarrow> ws = []"
  by (auto simp: packed64_def packed32_def)

lemma varint_byte: "n < 128 \<Longrightarrow> varint (of_nat n) = [of_nat n]"
proof -
  assume n: "n < 128"
  then have "(of_nat n :: u64) < 128"
    by (simp add: word_less_nat_alt unat_of_nat_small)
  then have "varint (of_nat n) = [ucast (of_nat n :: u64)]"
    by (rule varint_small)
  moreover have "ucast (of_nat n :: u64) = (of_nat n :: u8)"
    using n by (simp add: ucast_of_nat_small)
  ultimately show ?thesis by simp
qed

lemma read_small_tag:
  assumes "n < 128"
  shows "ReadTag rt (of_nat n # rest) = (of_nat n, Some rest)"
proof -
  have "ucast (of_nat n :: u32) = (of_nat n :: u64)"
    using assms by (simp add: ucast_of_nat_small)
  then have "varint (ucast (of_nat n :: u32)) = [of_nat n]"
    using assms by (simp add: varint_byte)
  with read_tag [of "of_nat n" rest] show ?thesis by simp
qed

text \<open>The tags the generated code writes and tests for: one byte each.\<close>

lemma tag_bytes:
  "varint 8 = [8]" "varint 10 = [10]" "varint 16 = [16]" "varint 18 = [18]" "varint 26 = [26]"
  using varint_byte [of 8] varint_byte [of 10] varint_byte [of 16] varint_byte [of 18]
    varint_byte [of 26]
  by simp_all

lemma read_tags:
  "ReadTag rt (0 # rest) = (0, Some rest)" "ReadTag rt (8 # rest) = (8, Some rest)"
  "ReadTag rt (10 # rest) = (10, Some rest)" "ReadTag rt (16 # rest) = (16, Some rest)"
  "ReadTag rt (18 # rest) = (18, Some rest)" "ReadTag rt (26 # rest) = (26, Some rest)"
  using read_small_tag [of 0 rest] read_small_tag [of 8 rest] read_small_tag [of 10 rest]
    read_small_tag [of 16 rest] read_small_tag [of 18 rest] read_small_tag [of 26 rest]
  by simp_all

lemma expect_tags:
  "ExpectTag rt 10 (b # bs) \<longleftrightarrow> b = 10" "ExpectTag rt 26 (b # bs) \<longleftrightarrow> b = 26"
  using expect_tag [of 10 b bs] expect_tag [of 26 b bs] by simp_all

text \<open>What each writer produces, with the one-byte tags written out.\<close>

lemma write_fields:
  "WriteUInt64ToArray rt (Suc 0) v = 8 # varint v"
  "WriteInt32ToArray rt (Suc 0) e = 8 # varint (scast e)"
  "WriteBoolToArray rt (Suc 0) b = 8 # varint (of_bool b)"
  "WriteBytes rt 2 s = 18 # varint (of_nat (length s)) @ s"
  "WriteBytes rt 3 s = 26 # varint (of_nat (length s)) @ s"
  "WriteString rt 2 s = 18 # varint (of_nat (length s)) @ s"
  "WriteUInt64Packed rt (Suc 0) vs n = 10 # varint (ucast n) @ packed64 varint vs"
  "WriteUInt32Packed rt 2 ws n = 18 # varint (ucast n) @ packed32 varint ws"
  "InternalWriteMessage rt (Suc 0) n body = 10 # varint (ucast n) @ body"
  by (simp_all add: write_uint64 write_int32 write_bool write_bytes write_string write_packed64
      write_packed32 write_message tag_bytes)

lemmas sizes = uint64_size int32_size uint64_sizes uint32_sizes bytes_size string_size message_size

lemma scast_size:
  assumes "n < 2 ^ 31"
  shows "(scast (of_nat n :: i32) :: u64) = of_nat n" "(ucast (of_nat n :: i32) :: u64) = of_nat n"
  using assms by (simp_all add: scast_of_nat_small ucast_of_nat_small)

text \<open>
  Termination of the shared loop: the tag read consumes input and no field parser gives bytes back.
\<close>

lemma parse_loop_returns:
  assumes "\<And>t p m. fld t p m \<noteq> None"
    and "\<And>t p m m' p'. fld t p m = Some (Handled m' (Some p')) \<Longrightarrow> length p' \<le> length p"
  shows "parse_loop rt fld m ptr \<noteq> None"
proof (induction ptr arbitrary: m rule: length_induct)
  case (1 ptr)
  then have IH: "\<And>q m. length q < length ptr \<Longrightarrow> parse_loop rt fld m q \<noteq> None"
    by blast
  obtain t q where rd: "ReadTag rt ptr = (t, q)" by fastforce
  show ?case
  proof (cases q)
    case None
    with rd show ?thesis by (subst parse_loop.simps) simp
  next
    case (Some p)
    with rd have lt: "length p < length ptr" using tag_consumes by blast
    obtain us r where uk: "UnknownFieldParse rt t (internal_metadata m) p = (us, r)" by fastforce
    have "\<And>p'. r = Some p' \<Longrightarrow> length p' < length ptr"
      using uk unknown_no_gain lt le_less_trans by blast
    moreover have "\<And>m' p'. fld t p m = Some (Handled m' (Some p')) \<Longrightarrow> length p' < length ptr"
      using assms(2) lt le_less_trans by blast
    ultimately show ?thesis
      using rd Some uk IH assms(1) [of t p m]
      by (subst parse_loop.simps)
        (auto split: option.splits field_result.splits prod.splits)
  qed
qed

end

end
