(* ===== verification/OneInfo.thy ===== *)
theory OneInfo
  imports Wire
begin

text \<open>
  The message \<open>ServMsg.oneInfo\<close> (feature-server/util/pbdata/serv-msg.pb.cc and .pb.h): one key
  with its data, the element of a push request. State, accessors, parsing, serialisation, size,
  merge, copy and swap; then the facts that hold for every conforming wire runtime.
\<close>

section \<open>State and operations\<close>

record 'u oneInfo = "'u Message" +
  oneInfo_key :: u64
  oneInfo_data :: bytes

definition oneInfo_SharedCtor :: "'u oneInfo" where
  "oneInfo_SharedCtor =
     \<lparr>internal_metadata = [], cached_size = 0, oneInfo_key = 0, oneInfo_data = []\<rparr>"

definition oneInfo_copy :: "'u oneInfo \<Rightarrow> 'u oneInfo" where
  "oneInfo_copy from =
     (let m = oneInfo_SharedCtor\<lparr>internal_metadata := internal_metadata from\<rparr>;
          m = (if oneInfo_data from \<noteq> [] then m\<lparr>oneInfo_data := oneInfo_data from\<rparr> else m)
      in m\<lparr>oneInfo_key := oneInfo_key from\<rparr>)"

definition oneInfo_set_key :: "u64 \<Rightarrow> 'u oneInfo \<Rightarrow> 'u oneInfo" where
  "oneInfo_set_key v m = m\<lparr>oneInfo_key := v\<rparr>"

definition oneInfo_clear_key :: "'u oneInfo \<Rightarrow> 'u oneInfo" where
  "oneInfo_clear_key m = m\<lparr>oneInfo_key := 0\<rparr>"

definition oneInfo_set_data :: "bytes \<Rightarrow> 'u oneInfo \<Rightarrow> 'u oneInfo" where
  "oneInfo_set_data v m = m\<lparr>oneInfo_data := v\<rparr>"

text \<open>The overload for \<open>const char*\<close> builds the string up to the first NUL.\<close>

definition oneInfo_set_data_cstr :: "bytes \<Rightarrow> 'u oneInfo \<Rightarrow> 'u oneInfo" where
  "oneInfo_set_data_cstr v m = m\<lparr>oneInfo_data := c_str v\<rparr>"

definition oneInfo_clear_data :: "'u oneInfo \<Rightarrow> 'u oneInfo" where
  "oneInfo_clear_data m = m\<lparr>oneInfo_data := []\<rparr>"

definition oneInfo_Clear :: "'u oneInfo \<Rightarrow> 'u oneInfo" where
  "oneInfo_Clear m = m\<lparr>oneInfo_data := [], oneInfo_key := 0, internal_metadata := []\<rparr>"

definition oneInfo_parse_field :: "('u, 's) wire_rt \<Rightarrow> 'u oneInfo field_parser" where
  "oneInfo_parse_field rt tag ptr m =
     (if drop_bit 3 tag = 1 then
        (if (ucast tag :: u8) = 8 then
           (case ReadVarint64 rt ptr of
              (v, p) \<Rightarrow> Some (Handled (m\<lparr>oneInfo_key := v\<rparr>) p))
         else Some Unusual)
      else if drop_bit 3 tag = 2 then
        (if (ucast tag :: u8) = 18 then
           (case InlineGreedyStringParser rt ptr of
              (s, p) \<Rightarrow> Some (Handled (m\<lparr>oneInfo_data := s\<rparr>) p))
         else Some Unusual)
      else Some Unusual)"

definition oneInfo_InternalParse ::
  "('u, 's) wire_rt \<Rightarrow> 'u oneInfo \<Rightarrow> bytes \<Rightarrow> ('u oneInfo \<times> parse_end) option" where
  "oneInfo_InternalParse rt m ptr = parse_loop rt (oneInfo_parse_field rt) m ptr"

definition oneInfo_InternalSerialize :: "('u, 's) wire_rt \<Rightarrow> 'u oneInfo \<Rightarrow> bytes" where
  "oneInfo_InternalSerialize rt m =
     (if oneInfo_key m \<noteq> 0 then WriteUInt64ToArray rt 1 (oneInfo_key m) else []) @
     (if length (oneInfo_data m) > 0 then WriteBytes rt 2 (oneInfo_data m) else []) @
     (if have_unknown_fields m
      then InternalSerializeUnknownFields rt (internal_metadata m) else [])"

text \<open>
  \<open>ByteSizeLong\<close> returns the total and leaves it, cast to \<open>int\<close>, in the cached size, with or
  without unknown fields (\<open>ComputeUnknownFieldsSize\<close> stores it too).
\<close>

definition oneInfo_ByteSizeLong :: "('u, 's) wire_rt \<Rightarrow> 'u oneInfo \<Rightarrow> nat \<times> 'u oneInfo" where
  "oneInfo_ByteSizeLong rt m =
     (let total_size = 0;
          total_size = (if length (oneInfo_data m) > 0
                        then total_size + 1 + BytesSize rt (oneInfo_data m) else total_size);
          total_size = (if oneInfo_key m \<noteq> 0
                        then total_size + 1 + UInt64Size rt (oneInfo_key m) else total_size);
          total_size = (if have_unknown_fields m
                        then total_size + UnknownFieldsSize rt (internal_metadata m)
                        else total_size)
      in (total_size, m\<lparr>cached_size := ToCachedSize total_size\<rparr>))"

definition oneInfo_MergeFrom :: "'u oneInfo \<Rightarrow> 'u oneInfo \<Rightarrow> 'u oneInfo" where
  "oneInfo_MergeFrom m from =
     (let m = m\<lparr>internal_metadata := internal_metadata m @ internal_metadata from\<rparr>;
          m = (if length (oneInfo_data from) > 0
               then m\<lparr>oneInfo_data := oneInfo_data from\<rparr> else m)
      in if oneInfo_key from \<noteq> 0 then m\<lparr>oneInfo_key := oneInfo_key from\<rparr> else m)"

text \<open>\<open>same\<close> is the test \<open>&from == this\<close>.\<close>

definition oneInfo_CopyFrom :: "bool \<Rightarrow> 'u oneInfo \<Rightarrow> 'u oneInfo \<Rightarrow> 'u oneInfo" where
  "oneInfo_CopyFrom same m from =
     (if same then m else oneInfo_MergeFrom (oneInfo_Clear m) from)"

definition oneInfo_InternalSwap :: "'u oneInfo \<Rightarrow> 'u oneInfo \<Rightarrow> 'u oneInfo \<times> 'u oneInfo" where
  "oneInfo_InternalSwap m other =
     (m\<lparr>internal_metadata := internal_metadata other, oneInfo_data := oneInfo_data other,
        oneInfo_key := oneInfo_key other\<rparr>,
      other\<lparr>internal_metadata := internal_metadata m, oneInfo_data := oneInfo_data m,
        oneInfo_key := oneInfo_key m\<rparr>)"

text \<open>
  A message whose serialisation a peer can read back: no unknown fields left over from an earlier
  parse, and short enough for the runtime's length limit.
\<close>

definition oneInfo_fits :: "('u, 's) wire_rt \<Rightarrow> 'u oneInfo \<Rightarrow> bool" where
  "oneInfo_fits rt m =
     (\<not> have_unknown_fields m \<and> length (oneInfo_InternalSerialize rt m) < wire_max)"

section \<open>Merging and copying\<close>

lemma oneInfo_MergeFrom_default:
  "oneInfo_MergeFrom oneInfo_SharedCtor m = m\<lparr>cached_size := 0\<rparr>"
  by (cases m) (simp add: oneInfo_MergeFrom_def oneInfo_SharedCtor_def Let_def)

lemma oneInfo_MergeFrom_assoc:
  "oneInfo_MergeFrom (oneInfo_MergeFrom a b) c = oneInfo_MergeFrom a (oneInfo_MergeFrom b c)"
  by (simp add: oneInfo_MergeFrom_def Let_def)

lemma oneInfo_MergeFrom_cached [simp]:
  "oneInfo_MergeFrom m (a\<lparr>cached_size := n\<rparr>) = oneInfo_MergeFrom m a"
  by (simp add: oneInfo_MergeFrom_def Let_def)

lemma oneInfo_Serialize_cached [simp]:
  "oneInfo_InternalSerialize rt (a\<lparr>cached_size := n\<rparr>) = oneInfo_InternalSerialize rt a"
  by (simp add: oneInfo_InternalSerialize_def have_unknown_fields_def)

lemma oneInfo_fits_cached [simp]:
  "oneInfo_fits rt (a\<lparr>cached_size := n\<rparr>) = oneInfo_fits rt a"
  by (simp add: oneInfo_fits_def have_unknown_fields_def)

lemma oneInfo_ByteSizeLong_snd:
  "snd (oneInfo_ByteSizeLong rt m) =
     m\<lparr>cached_size := ToCachedSize (fst (oneInfo_ByteSizeLong rt m))\<rparr>"
  by (simp add: oneInfo_ByteSizeLong_def Let_def)

section \<open>Over a conforming runtime\<close>

context wire_runtime
begin

lemma oneInfo_field_results:
  "oneInfo_parse_field rt 8 (varint v @ rest) m = Some (Handled (m\<lparr>oneInfo_key := v\<rparr>) (Some rest))"
  "length s < wire_max \<Longrightarrow>
   oneInfo_parse_field rt 18 (varint (of_nat (length s)) @ s @ rest) m
     = Some (Handled (m\<lparr>oneInfo_data := s\<rparr>) (Some rest))"
  by (simp_all add: oneInfo_parse_field_def read_varint64 read_string)

lemma oneInfo_fits_data: "oneInfo_fits rt a \<Longrightarrow> length (oneInfo_data a) < wire_max"
  by (cases "oneInfo_data a = []")
    (auto simp: oneInfo_fits_def oneInfo_InternalSerialize_def write_fields wire_max_def
      split: if_splits)

lemma oneInfo_parse_append:
  assumes fits: "oneInfo_fits rt a"
  shows "parse_loop rt (oneInfo_parse_field rt) m (oneInfo_InternalSerialize rt a @ rest)
       = parse_loop rt (oneInfo_parse_field rt) (oneInfo_MergeFrom m a) rest"
proof -
  let ?loop = "parse_loop rt (oneInfo_parse_field rt)"
  have key: "?loop n (8 # varint v @ r) = ?loop (n\<lparr>oneInfo_key := v\<rparr>) r" for n v r
    by (rule parse_loop_handled [OF read_tags(2)]) (simp_all add: oneInfo_field_results)
  have data: "?loop n (18 # varint (of_nat (length (oneInfo_data a))) @ oneInfo_data a @ r)
            = ?loop (n\<lparr>oneInfo_data := oneInfo_data a\<rparr>) r" for n r
    by (rule parse_loop_handled [OF read_tags(5)])
      (simp_all add: oneInfo_field_results oneInfo_fits_data [OF fits])
  show ?thesis
    using fits
    by (cases m) (simp add: oneInfo_InternalSerialize_def oneInfo_MergeFrom_def write_fields key data
        have_unknown_fields_def oneInfo_fits_def)
qed

lemma oneInfo_parse_serialized:
  assumes "oneInfo_fits rt a"
  shows "oneInfo_InternalParse rt m (oneInfo_InternalSerialize rt a)
       = Some (oneInfo_MergeFrom m a, AtLimit)"
  using oneInfo_parse_append [OF assms, of m "[]"] by (simp add: oneInfo_InternalParse_def)

lemma oneInfo_size:
  assumes "\<not> have_unknown_fields a"
  shows "fst (oneInfo_ByteSizeLong rt a) = length (oneInfo_InternalSerialize rt a)"
  using assms
  by (simp add: oneInfo_ByteSizeLong_def oneInfo_InternalSerialize_def write_fields sizes)

lemma oneInfo_parse_returns: "oneInfo_InternalParse rt m ptr \<noteq> None"
  unfolding oneInfo_InternalParse_def
  by (rule parse_loop_returns)
    (auto simp: oneInfo_parse_field_def dest: varint64_no_gain string_no_gain
      split: if_splits prod.splits)

end

end
