(* ===== verification/PushMsgs.thy ===== *)
theory PushMsgs
  imports OneInfo
begin

text \<open>
  The push messages of feature-server/util/pbdata/serv-msg.pb.cc and .pb.h: \<open>PushReq\<close>, a repeated
  field of \<open>oneInfo\<close> sub-messages read by a do-while loop that looks for the next tag itself, and
  \<open>PushRsp\<close>, an error code with a UTF-8 description.
\<close>

section \<open>PushReq\<close>

record 'u PushReq = "'u Message" +
  PushReq_infos :: "'u oneInfo list"

definition PushReq_SharedCtor :: "'u PushReq" where
  "PushReq_SharedCtor = \<lparr>internal_metadata = [], cached_size = 0, PushReq_infos = []\<rparr>"

text \<open>
  \<open>RepeatedPtrField\<close> is the list of its elements; copying one merges each element into a new one.
\<close>

definition PushReq_copy :: "'u PushReq \<Rightarrow> 'u PushReq" where
  "PushReq_copy from =
     PushReq_SharedCtor\<lparr>
       PushReq_infos := map (oneInfo_MergeFrom oneInfo_SharedCtor) (PushReq_infos from),
       internal_metadata := internal_metadata from\<rparr>"

definition PushReq_infos_size :: "'u PushReq \<Rightarrow> nat" where
  "PushReq_infos_size m = length (PushReq_infos m)"

definition PushReq_clear_infos :: "'u PushReq \<Rightarrow> 'u PushReq" where
  "PushReq_clear_infos m = m\<lparr>PushReq_infos := []\<rparr>"

text \<open>\<open>infos(i)\<close> out of range is undefined in the runtime; here it is \<open>OutOfRange\<close>.\<close>

definition PushReq_infos_at :: "nat \<Rightarrow> 'u PushReq \<Rightarrow> 'u oneInfo res" where
  "PushReq_infos_at i m =
     (if i < length (PushReq_infos m) then Inr (PushReq_infos m ! i) else Inl OutOfRange)"

text \<open>\<open>mutable_infos(i)\<close> with what the caller does through the pointer.\<close>

definition PushReq_mutable_infos ::
  "nat \<Rightarrow> ('u oneInfo \<Rightarrow> 'u oneInfo) \<Rightarrow> 'u PushReq \<Rightarrow> 'u PushReq res" where
  "PushReq_mutable_infos i f m =
     (if i < length (PushReq_infos m)
      then Inr (m\<lparr>PushReq_infos := (PushReq_infos m)[i := f (PushReq_infos m ! i)]\<rparr>)
      else Inl OutOfRange)"

definition PushReq_add_infos :: "('u oneInfo \<Rightarrow> 'u oneInfo) \<Rightarrow> 'u PushReq \<Rightarrow> 'u PushReq" where
  "PushReq_add_infos f m = m\<lparr>PushReq_infos := PushReq_infos m @ [f oneInfo_SharedCtor]\<rparr>"

definition PushReq_Clear :: "'u PushReq \<Rightarrow> 'u PushReq" where
  "PushReq_Clear m = m\<lparr>PushReq_infos := [], internal_metadata := []\<rparr>"

text \<open>
  The do-while loop of field 1: parse one sub-message into a new element; stop at the end of the
  data; go on, past its tag byte, while the next byte is again tag 10.
\<close>

partial_function (option) PushReq_infos_loop ::
  "('u, 'u oneInfo) wire_rt \<Rightarrow> 'u PushReq \<Rightarrow> bytes \<Rightarrow> ('u PushReq \<times> bytes option) option" where
  "PushReq_infos_loop rt m ptr =
     (case ParseMessage rt (oneInfo_InternalParse rt) oneInfo_SharedCtor ptr of
        None \<Rightarrow> None
      | Some (i, None) \<Rightarrow> Some (m\<lparr>PushReq_infos := PushReq_infos m @ [i]\<rparr>, None)
      | Some (i, Some p) \<Rightarrow>
          (if p = [] then Some (m\<lparr>PushReq_infos := PushReq_infos m @ [i]\<rparr>, Some p)
           else if ExpectTag rt 10 p
           then PushReq_infos_loop rt (m\<lparr>PushReq_infos := PushReq_infos m @ [i]\<rparr>) (drop 1 p)
           else Some (m\<lparr>PushReq_infos := PushReq_infos m @ [i]\<rparr>, Some p)))"

definition PushReq_parse_field :: "('u, 'u oneInfo) wire_rt \<Rightarrow> 'u PushReq field_parser" where
  "PushReq_parse_field rt tag ptr m =
     (if drop_bit 3 tag = 1 then
        (if (ucast tag :: u8) = 10 then
           (case PushReq_infos_loop rt m ptr of
              None \<Rightarrow> None
            | Some (m', p) \<Rightarrow> Some (Handled m' p))
         else Some Unusual)
      else Some Unusual)"

definition PushReq_InternalParse ::
  "('u, 'u oneInfo) wire_rt \<Rightarrow> 'u PushReq \<Rightarrow> bytes \<Rightarrow> ('u PushReq \<times> parse_end) option" where
  "PushReq_InternalParse rt m ptr = parse_loop rt (PushReq_parse_field rt) m ptr"

text \<open>A sub-message is written with the size that its last \<open>ByteSizeLong\<close> cached.\<close>

definition PushReq_InternalSerialize :: "('u, 's) wire_rt \<Rightarrow> 'u PushReq \<Rightarrow> bytes" where
  "PushReq_InternalSerialize rt m =
     concat (map (\<lambda>i. InternalWriteMessage rt 1 (cached_size i) (oneInfo_InternalSerialize rt i))
       (PushReq_infos m)) @
     (if have_unknown_fields m
      then InternalSerializeUnknownFields rt (internal_metadata m) else [])"

definition PushReq_ByteSizeLong :: "('u, 's) wire_rt \<Rightarrow> 'u PushReq \<Rightarrow> nat \<times> 'u PushReq" where
  "PushReq_ByteSizeLong rt m =
     (let sized = map (oneInfo_ByteSizeLong rt) (PushReq_infos m);
          total_size = 1 * length (PushReq_infos m);
          total_size = total_size + (\<Sum>(n, _)\<leftarrow>sized. MessageSize rt n);
          total_size = (if have_unknown_fields m
                        then total_size + UnknownFieldsSize rt (internal_metadata m)
                        else total_size)
      in (total_size,
          m\<lparr>PushReq_infos := map snd sized, cached_size := ToCachedSize total_size\<rparr>))"

definition PushReq_MergeFrom :: "'u PushReq \<Rightarrow> 'u PushReq \<Rightarrow> 'u PushReq" where
  "PushReq_MergeFrom m from =
     m\<lparr>internal_metadata := internal_metadata m @ internal_metadata from,
       PushReq_infos := PushReq_infos m
         @ map (oneInfo_MergeFrom oneInfo_SharedCtor) (PushReq_infos from)\<rparr>"

definition PushReq_CopyFrom :: "bool \<Rightarrow> 'u PushReq \<Rightarrow> 'u PushReq \<Rightarrow> 'u PushReq" where
  "PushReq_CopyFrom same m from =
     (if same then m else PushReq_MergeFrom (PushReq_Clear m) from)"

definition PushReq_InternalSwap :: "'u PushReq \<Rightarrow> 'u PushReq \<Rightarrow> 'u PushReq \<times> 'u PushReq" where
  "PushReq_InternalSwap m other =
     (m\<lparr>internal_metadata := internal_metadata other, PushReq_infos := PushReq_infos other\<rparr>,
      other\<lparr>internal_metadata := internal_metadata m, PushReq_infos := PushReq_infos m\<rparr>)"

text \<open>
  The specification of field 1, with no look-ahead: one sub-message for each tag.
\<close>

definition PushReq_plain_field :: "('u, 'u oneInfo) wire_rt \<Rightarrow> 'u PushReq field_parser" where
  "PushReq_plain_field rt tag ptr m =
     (if drop_bit 3 tag = 1 \<and> (ucast tag :: u8) = 10 then
        (case ParseMessage rt (oneInfo_InternalParse rt) oneInfo_SharedCtor ptr of
           None \<Rightarrow> None
         | Some (i, p) \<Rightarrow> Some (Handled (m\<lparr>PushReq_infos := PushReq_infos m @ [i]\<rparr>) p))
      else Some Unusual)"

text \<open>No unknown fields, and every element short enough.\<close>

definition PushReq_fits :: "('u, 's) wire_rt \<Rightarrow> 'u PushReq \<Rightarrow> bool" where
  "PushReq_fits rt m =
     (\<not> have_unknown_fields m \<and> list_all (oneInfo_fits rt) (PushReq_infos m))"

section \<open>PushRsp\<close>

record 'u PushRsp = "'u Message" +
  PushRsp_errcode :: i32
  PushRsp_errdesc :: bytes

definition PushRsp_SharedCtor :: "'u PushRsp" where
  "PushRsp_SharedCtor =
     \<lparr>internal_metadata = [], cached_size = 0, PushRsp_errcode = 0, PushRsp_errdesc = []\<rparr>"

definition PushRsp_set_errcode :: "i32 \<Rightarrow> 'u PushRsp \<Rightarrow> 'u PushRsp" where
  "PushRsp_set_errcode v m = m\<lparr>PushRsp_errcode := v\<rparr>"

definition PushRsp_clear_errcode :: "'u PushRsp \<Rightarrow> 'u PushRsp" where
  "PushRsp_clear_errcode m = m\<lparr>PushRsp_errcode := 0\<rparr>"

definition PushRsp_set_errdesc :: "bytes \<Rightarrow> 'u PushRsp \<Rightarrow> 'u PushRsp" where
  "PushRsp_set_errdesc v m = m\<lparr>PushRsp_errdesc := v\<rparr>"

definition PushRsp_clear_errdesc :: "'u PushRsp \<Rightarrow> 'u PushRsp" where
  "PushRsp_clear_errdesc m = m\<lparr>PushRsp_errdesc := []\<rparr>"

definition PushRsp_Clear :: "'u PushRsp \<Rightarrow> 'u PushRsp" where
  "PushRsp_Clear m = m\<lparr>PushRsp_errdesc := [], PushRsp_errcode := 0, internal_metadata := []\<rparr>"

definition PushRsp_parse_field :: "('u, 's) wire_rt \<Rightarrow> 'u PushRsp field_parser" where
  "PushRsp_parse_field rt tag ptr m =
     (if drop_bit 3 tag = 1 then
        (if (ucast tag :: u8) = 8 then
           (case ReadVarint64 rt ptr of
              (v, p) \<Rightarrow> Some (Handled (m\<lparr>PushRsp_errcode := ucast v\<rparr>) p))
         else Some Unusual)
      else if drop_bit 3 tag = 2 then
        (if (ucast tag :: u8) = 18 then
           (case InlineGreedyStringParser rt ptr of
              (s, p) \<Rightarrow> Some (Handled (m\<lparr>PushRsp_errdesc := s\<rparr>)
                                (if VerifyUTF8 rt s then p else None)))
         else Some Unusual)
      else Some Unusual)"

definition PushRsp_InternalParse ::
  "('u, 's) wire_rt \<Rightarrow> 'u PushRsp \<Rightarrow> bytes \<Rightarrow> ('u PushRsp \<times> parse_end) option" where
  "PushRsp_InternalParse rt m ptr = parse_loop rt (PushRsp_parse_field rt) m ptr"

definition PushRsp_InternalSerialize :: "('u, 's) wire_rt \<Rightarrow> 'u PushRsp \<Rightarrow> bytes" where
  "PushRsp_InternalSerialize rt m =
     (if PushRsp_errcode m \<noteq> 0 then WriteInt32ToArray rt 1 (PushRsp_errcode m) else []) @
     (if length (PushRsp_errdesc m) > 0 then WriteString rt 2 (PushRsp_errdesc m) else []) @
     (if have_unknown_fields m
      then InternalSerializeUnknownFields rt (internal_metadata m) else [])"

definition PushRsp_ByteSizeLong :: "('u, 's) wire_rt \<Rightarrow> 'u PushRsp \<Rightarrow> nat \<times> 'u PushRsp" where
  "PushRsp_ByteSizeLong rt m =
     (let total_size = 0;
          total_size = (if length (PushRsp_errdesc m) > 0
                        then total_size + 1 + StringSize rt (PushRsp_errdesc m) else total_size);
          total_size = (if PushRsp_errcode m \<noteq> 0
                        then total_size + 1 + Int32Size rt (PushRsp_errcode m) else total_size);
          total_size = (if have_unknown_fields m
                        then total_size + UnknownFieldsSize rt (internal_metadata m)
                        else total_size)
      in (total_size, m\<lparr>cached_size := ToCachedSize total_size\<rparr>))"

definition PushRsp_MergeFrom :: "'u PushRsp \<Rightarrow> 'u PushRsp \<Rightarrow> 'u PushRsp" where
  "PushRsp_MergeFrom m from =
     (let m = m\<lparr>internal_metadata := internal_metadata m @ internal_metadata from\<rparr>;
          m = (if length (PushRsp_errdesc from) > 0
               then m\<lparr>PushRsp_errdesc := PushRsp_errdesc from\<rparr> else m)
      in if PushRsp_errcode from \<noteq> 0 then m\<lparr>PushRsp_errcode := PushRsp_errcode from\<rparr> else m)"

definition PushRsp_CopyFrom :: "bool \<Rightarrow> 'u PushRsp \<Rightarrow> 'u PushRsp \<Rightarrow> 'u PushRsp" where
  "PushRsp_CopyFrom same m from =
     (if same then m else PushRsp_MergeFrom (PushRsp_Clear m) from)"

definition PushRsp_copy :: "'u PushRsp \<Rightarrow> 'u PushRsp" where
  "PushRsp_copy from =
     (let m = PushRsp_SharedCtor\<lparr>internal_metadata := internal_metadata from\<rparr>;
          m = (if PushRsp_errdesc from \<noteq> [] then m\<lparr>PushRsp_errdesc := PushRsp_errdesc from\<rparr> else m)
      in m\<lparr>PushRsp_errcode := PushRsp_errcode from\<rparr>)"

definition PushRsp_InternalSwap :: "'u PushRsp \<Rightarrow> 'u PushRsp \<Rightarrow> 'u PushRsp \<times> 'u PushRsp" where
  "PushRsp_InternalSwap m other =
     (m\<lparr>internal_metadata := internal_metadata other, PushRsp_errdesc := PushRsp_errdesc other,
        PushRsp_errcode := PushRsp_errcode other\<rparr>,
      other\<lparr>internal_metadata := internal_metadata m, PushRsp_errdesc := PushRsp_errdesc m,
        PushRsp_errcode := PushRsp_errcode m\<rparr>)"

text \<open>No unknown fields, a description that is valid UTF-8, and a length within the limit.\<close>

definition PushRsp_fits :: "('u, 's) wire_rt \<Rightarrow> 'u PushRsp \<Rightarrow> bool" where
  "PushRsp_fits rt m =
     (\<not> have_unknown_fields m \<and> VerifyUTF8 rt (PushRsp_errdesc m)
      \<and> length (PushRsp_errdesc m) < wire_max)"

section \<open>Merging and copying\<close>

lemma PushReq_MergeFrom_assoc:
  "PushReq_MergeFrom (PushReq_MergeFrom a b) c = PushReq_MergeFrom a (PushReq_MergeFrom b c)"
  by (simp add: PushReq_MergeFrom_def oneInfo_MergeFrom_default)

lemma PushRsp_MergeFrom_default:
  "PushRsp_MergeFrom PushRsp_SharedCtor m = m\<lparr>cached_size := 0\<rparr>"
  by (cases m) (simp add: PushRsp_MergeFrom_def PushRsp_SharedCtor_def Let_def)

lemma PushReq_MergeFrom_default:
  "PushReq_MergeFrom PushReq_SharedCtor m =
     m\<lparr>PushReq_infos := map (\<lambda>i. i\<lparr>cached_size := 0\<rparr>) (PushReq_infos m), cached_size := 0\<rparr>"
  by (cases m) (simp add: PushReq_MergeFrom_def PushReq_SharedCtor_def oneInfo_MergeFrom_default)

lemma PushReq_ByteSizeLong_infos:
  "PushReq_infos (snd (PushReq_ByteSizeLong rt m)) =
     map (\<lambda>i. snd (oneInfo_ByteSizeLong rt i)) (PushReq_infos m)"
  by (simp add: PushReq_ByteSizeLong_def Let_def)

lemma PushReq_ByteSizeLong_unknown [simp]:
  "have_unknown_fields (snd (PushReq_ByteSizeLong rt m)) = have_unknown_fields m"
  by (simp add: PushReq_ByteSizeLong_def have_unknown_fields_def Let_def)

section \<open>Over a conforming runtime\<close>

context wire_runtime
begin

lemma PushRsp_field_results:
  "PushRsp_parse_field rt 8 (varint v @ rest) m
     = Some (Handled (m\<lparr>PushRsp_errcode := ucast v\<rparr>) (Some rest))"
  "length s < wire_max \<Longrightarrow> VerifyUTF8 rt s \<Longrightarrow>
   PushRsp_parse_field rt 18 (varint (of_nat (length s)) @ s @ rest) m
     = Some (Handled (m\<lparr>PushRsp_errdesc := s\<rparr>) (Some rest))"
  by (simp_all add: PushRsp_parse_field_def read_varint64 read_string)

lemma PushRsp_parse_append:
  assumes fits: "PushRsp_fits rt a"
  shows "parse_loop rt (PushRsp_parse_field rt) m (PushRsp_InternalSerialize rt a @ rest)
       = parse_loop rt (PushRsp_parse_field rt) (PushRsp_MergeFrom m a) rest"
proof -
  let ?loop = "parse_loop rt (PushRsp_parse_field rt)" and ?d = "PushRsp_errdesc a"
  have code: "?loop n (8 # varint (scast e) @ r) = ?loop (n\<lparr>PushRsp_errcode := e\<rparr>) r" for n e r
    by (rule parse_loop_handled [OF read_tags(2)]) (simp_all add: PushRsp_field_results)
  have desc: "?loop n (18 # varint (of_nat (length ?d)) @ ?d @ r)
            = ?loop (n\<lparr>PushRsp_errdesc := ?d\<rparr>) r" for n r
    using fits by (intro parse_loop_handled [OF read_tags(5)])
      (simp_all add: PushRsp_field_results PushRsp_fits_def)
  show ?thesis
    using fits
    by (cases m) (simp add: PushRsp_InternalSerialize_def PushRsp_MergeFrom_def write_fields code
        desc have_unknown_fields_def PushRsp_fits_def)
qed

lemma PushRsp_parse_serialized:
  assumes "PushRsp_fits rt a"
  shows "PushRsp_InternalParse rt m (PushRsp_InternalSerialize rt a)
       = Some (PushRsp_MergeFrom m a, AtLimit)"
  using PushRsp_parse_append [OF assms, of m "[]"] by (simp add: PushRsp_InternalParse_def)

lemma PushRsp_size:
  "\<not> have_unknown_fields a \<Longrightarrow>
   fst (PushRsp_ByteSizeLong rt a) = length (PushRsp_InternalSerialize rt a)"
  by (simp add: PushRsp_ByteSizeLong_def PushRsp_InternalSerialize_def write_fields sizes)

lemma PushRsp_parse_returns: "PushRsp_InternalParse rt m ptr \<noteq> None"
  unfolding PushRsp_InternalParse_def
  by (rule parse_loop_returns)
    (auto simp: PushRsp_parse_field_def dest: varint64_no_gain string_no_gain
      split: if_splits prod.splits)

end

text \<open>
  \<open>PushReq\<close> calls \<open>ParseMessage\<close> on \<open>oneInfo\<close>, so its runtime is one whose sub-messages are those.
\<close>

locale push_runtime = wire_runtime rt varint
  for rt :: "('u, 'u oneInfo) wire_rt" and varint :: "u64 \<Rightarrow> bytes"
begin

text \<open>Tag 10 enters the do-while loop.\<close>

lemma PushReq_loop_tag:
  assumes "ReadTag rt ptr = (t, Some p)" and "ptr \<noteq> []"
    and "drop_bit 3 t = 1" and "(ucast t :: u8) = 10"
  shows "parse_loop rt (PushReq_parse_field rt) m ptr =
     (case PushReq_infos_loop rt m p of
        None \<Rightarrow> None
      | Some (m', None) \<Rightarrow> Some (m', NullPtr)
      | Some (m', Some q) \<Rightarrow> parse_loop rt (PushReq_parse_field rt) m' q)"
  using assms
  by (subst parse_loop.simps) (auto simp: PushReq_parse_field_def split: option.splits)

text \<open>
  The look-ahead is invisible: after one element the loop behaves as the outer loop does on what
  is left.
\<close>

lemma PushReq_loop_element:
  assumes "ReadTag rt ptr = (t, Some p)" and "ptr \<noteq> []"
    and "drop_bit 3 t = 1" and "(ucast t :: u8) = 10"
  shows "parse_loop rt (PushReq_parse_field rt) m ptr =
     (case ParseMessage rt (oneInfo_InternalParse rt) oneInfo_SharedCtor p of
        None \<Rightarrow> None
      | Some (i, None) \<Rightarrow> Some (m\<lparr>PushReq_infos := PushReq_infos m @ [i]\<rparr>, NullPtr)
      | Some (i, Some q) \<Rightarrow>
          parse_loop rt (PushReq_parse_field rt) (m\<lparr>PushReq_infos := PushReq_infos m @ [i]\<rparr>) q)"
proof -
  have next_tag: "parse_loop rt (PushReq_parse_field rt) n q =
     (case PushReq_infos_loop rt n (drop 1 q) of
        None \<Rightarrow> None
      | Some (m', None) \<Rightarrow> Some (m', NullPtr)
      | Some (m', Some r) \<Rightarrow> parse_loop rt (PushReq_parse_field rt) m' r)"
    if "q \<noteq> []" and "ExpectTag rt 10 q" for n q
  proof -
    from that obtain q' where "q = 10 # q'" by (cases q) (auto simp: expect_tags)
    then show ?thesis
      using PushReq_loop_tag [OF read_tags(3), of q' n] by simp
  qed
  show ?thesis
    unfolding PushReq_loop_tag [OF assms]
    by (subst PushReq_infos_loop.simps)
      (auto simp: next_tag split: option.splits prod.splits)
qed

lemma PushReq_infos_append:
  assumes "list_all (oneInfo_fits rt) xs"
  shows "parse_loop rt (PushReq_parse_field rt) m
      (concat (map (\<lambda>i. InternalWriteMessage rt 1 (cached_size i) (oneInfo_InternalSerialize rt i))
        (map (\<lambda>i. snd (oneInfo_ByteSizeLong rt i)) xs)) @ rest)
    = parse_loop rt (PushReq_parse_field rt)
        (m\<lparr>PushReq_infos := PushReq_infos m @ map (oneInfo_MergeFrom oneInfo_SharedCtor) xs\<rparr>) rest"
  using assms
proof (induction xs arbitrary: m)
  case Nil
  then show ?case by simp
next
  case (Cons x xs)
  let ?b = "oneInfo_InternalSerialize rt x"
  from Cons.prems have fits: "oneInfo_fits rt x" by simp
  then have short: "length ?b < wire_max" by (simp add: oneInfo_fits_def)
  have "fst (oneInfo_ByteSizeLong rt x) = length ?b"
    using fits by (simp add: oneInfo_size oneInfo_fits_def)
  then have written: "InternalWriteMessage rt 1 (ToCachedSize (fst (oneInfo_ByteSizeLong rt x))) ?b
      = 10 # varint (of_nat (length ?b)) @ ?b"
    using short by (simp add: write_fields ToCachedSize_def scast_size wire_max_def)
  have parsed: "ParseMessage rt (oneInfo_InternalParse rt) oneInfo_SharedCtor
      (varint (of_nat (length ?b)) @ ?b @ r)
      = Some (oneInfo_MergeFrom oneInfo_SharedCtor x, Some r)" for r
    by (simp add: read_message [OF short] oneInfo_parse_serialized [OF fits])
  show ?case
    using Cons.IH Cons.prems
    by (simp add: oneInfo_ByteSizeLong_snd written [simplified]
        PushReq_loop_element [OF read_tags(3)] parsed)
qed

lemma PushReq_parse_append:
  assumes "PushReq_fits rt a"
  shows "parse_loop rt (PushReq_parse_field rt) m
      (PushReq_InternalSerialize rt (snd (PushReq_ByteSizeLong rt a)) @ rest)
    = parse_loop rt (PushReq_parse_field rt) (PushReq_MergeFrom m a) rest"
proof -
  from assms have "\<not> have_unknown_fields a" and "internal_metadata a = []"
    and "list_all (oneInfo_fits rt) (PushReq_infos a)"
    by (auto simp: PushReq_fits_def have_unknown_fields_def)
  with PushReq_infos_append [of "PushReq_infos a" m rest] show ?thesis
    by (cases m) (simp add: PushReq_InternalSerialize_def PushReq_MergeFrom_def
        PushReq_ByteSizeLong_infos)
qed

lemma PushReq_parse_serialized:
  assumes "PushReq_fits rt a"
  shows "PushReq_InternalParse rt m (PushReq_InternalSerialize rt (snd (PushReq_ByteSizeLong rt a)))
       = Some (PushReq_MergeFrom m a, AtLimit)"
  using PushReq_parse_append [OF assms, of m "[]"] by (simp add: PushReq_InternalParse_def)

lemma PushReq_size:
  assumes "\<not> have_unknown_fields a"
    and "list_all (\<lambda>i. \<not> have_unknown_fields i) (PushReq_infos a)"
  shows "fst (PushReq_ByteSizeLong rt a) =
     (\<Sum>i\<leftarrow>PushReq_infos a. 1 + length (varint (of_nat (length (oneInfo_InternalSerialize rt i))))
        + length (oneInfo_InternalSerialize rt i))"
proof -
  have "1 * length xs + (\<Sum>(n, _)\<leftarrow>map (oneInfo_ByteSizeLong rt) xs. MessageSize rt n) =
     (\<Sum>i\<leftarrow>xs. 1 + length (varint (of_nat (length (oneInfo_InternalSerialize rt i))))
        + length (oneInfo_InternalSerialize rt i))"
    if "list_all (\<lambda>i. \<not> have_unknown_fields i) xs" for xs
    using that by (induction xs) (simp_all add: split_beta sizes oneInfo_size)
  then show ?thesis
    using assms by (simp add: PushReq_ByteSizeLong_def Let_def)
qed

lemma PushReq_size_serialized:
  assumes "PushReq_fits rt a"
  shows "fst (PushReq_ByteSizeLong rt a) =
     length (PushReq_InternalSerialize rt (snd (PushReq_ByteSizeLong rt a)))"
proof -
  have "length (concat (map (\<lambda>i. InternalWriteMessage rt 1 (cached_size i)
        (oneInfo_InternalSerialize rt i)) (map (\<lambda>i. snd (oneInfo_ByteSizeLong rt i)) xs))) =
      (\<Sum>i\<leftarrow>xs. 1 + length (varint (of_nat (length (oneInfo_InternalSerialize rt i))))
        + length (oneInfo_InternalSerialize rt i))"
    if "list_all (oneInfo_fits rt) xs" for xs
    using that
  proof (induction xs)
    case (Cons x xs)
    then have "fst (oneInfo_ByteSizeLong rt x) = length (oneInfo_InternalSerialize rt x)"
      and "length (oneInfo_InternalSerialize rt x) < 2 ^ 31"
      by (simp_all add: oneInfo_size oneInfo_fits_def wire_max_def)
    with Cons show ?case
      by (simp add: oneInfo_ByteSizeLong_snd write_fields ToCachedSize_def scast_size)
  qed simp
  moreover have "list_all (\<lambda>i. \<not> have_unknown_fields i) (PushReq_infos a)"
    using assms by (auto simp: PushReq_fits_def list_all_iff oneInfo_fits_def)
  ultimately show ?thesis
    using assms PushReq_size [of a]
    by (simp add: PushReq_fits_def PushReq_InternalSerialize_def PushReq_ByteSizeLong_infos)
qed

lemma PushReq_infos_loop_returns: "PushReq_infos_loop rt m ptr \<noteq> None"
proof (induction ptr arbitrary: m rule: length_induct)
  case (1 ptr)
  have "ParseMessage rt (oneInfo_InternalParse rt) oneInfo_SharedCtor ptr \<noteq> None"
    by (rule message_returns) (rule oneInfo_parse_returns)
  then obtain i q where
    pm: "ParseMessage rt (oneInfo_InternalParse rt) oneInfo_SharedCtor ptr = Some (i, q)"
    by auto
  have "length (drop 1 p) < length ptr" if "q = Some p" and "p \<noteq> []" for p
  proof -
    have "length p \<le> length ptr" using message_no_gain pm that(1) by blast
    then show ?thesis using that(2) by (cases p) simp_all
  qed
  with 1 pm show ?case
    by (subst PushReq_infos_loop.simps) (auto split: option.splits)
qed

lemma PushReq_infos_loop_no_gain:
  "PushReq_infos_loop rt m ptr = Some (m', Some p) \<Longrightarrow> length p \<le> length ptr"
proof (induction ptr arbitrary: m rule: length_induct)
  case (1 ptr)
  from "1.prems" obtain i q where
    pm: "ParseMessage rt (oneInfo_InternalParse rt) oneInfo_SharedCtor ptr = Some (i, Some q)"
    by (subst (asm) PushReq_infos_loop.simps) (auto split: option.splits prod.splits)
  then have q: "length q \<le> length ptr" by (rule message_no_gain)
  show ?case
  proof (cases "q \<noteq> [] \<and> ExpectTag rt 10 q")
    case True
    then have less: "length (drop 1 q) < length ptr" using q by (cases q) simp_all
    from True "1.prems" pm have
      "PushReq_infos_loop rt (m\<lparr>PushReq_infos := PushReq_infos m @ [i]\<rparr>) (drop 1 q)
        = Some (m', Some p)"
      by (subst (asm) PushReq_infos_loop.simps) simp
    with "1.IH" less have "length p \<le> length (drop 1 q)" by blast
    with less show ?thesis by simp
  next
    case False
    with "1.prems" pm q show ?thesis
      by (subst (asm) PushReq_infos_loop.simps) (auto split: if_splits)
  qed
qed

lemma PushReq_parse_returns: "PushReq_InternalParse rt m ptr \<noteq> None"
  unfolding PushReq_InternalParse_def
proof (rule parse_loop_returns)
  show "PushReq_parse_field rt t p n \<noteq> None" for t p n
    using PushReq_infos_loop_returns [of n p]
    by (auto simp: PushReq_parse_field_def split: option.splits)
  show "PushReq_parse_field rt t p n = Some (Handled n' (Some p')) \<Longrightarrow> length p' \<le> length p"
    for t p n n' p'
    by (auto simp: PushReq_parse_field_def dest: PushReq_infos_loop_no_gain
        split: if_splits option.splits)
qed

text \<open>The generated do-while loop is an optimisation of the plain reading of field 1.\<close>

lemma PushReq_lookahead_equiv:
  "parse_loop rt (PushReq_parse_field rt) m ptr = parse_loop rt (PushReq_plain_field rt) m ptr"
proof (induction ptr arbitrary: m rule: length_induct)
  case (1 ptr)
  show ?case
  proof (cases "ptr = []")
    case False
    obtain t q where rd: "ReadTag rt ptr = (t, q)" by fastforce
    show ?thesis
    proof (cases q)
      case None
      with rd False show ?thesis by (simp add: parse_loop_null)
    next
      case (Some p)
      with rd have lt: "length p < length ptr" using tag_consumes by blast
      show ?thesis
      proof (cases "drop_bit 3 t = 1 \<and> (ucast t :: u8) = 10")
        case True
        have "parse_loop rt (PushReq_parse_field rt) n r = parse_loop rt (PushReq_plain_field rt) n r"
          if "ParseMessage rt (oneInfo_InternalParse rt) oneInfo_SharedCtor p = Some (i, Some r)"
          for n i r
          using "1.IH" lt message_no_gain [OF that] by simp
        with True rd Some False show ?thesis
          by (subst (2) parse_loop.simps)
            (auto simp: PushReq_loop_element PushReq_plain_field_def split: option.splits)
      next
        case unusual: False
        have "parse_loop rt (PushReq_parse_field rt) n r = parse_loop rt (PushReq_plain_field rt) n r"
          if "UnknownFieldParse rt t us p = (us', Some r)" for n us us' r
          using "1.IH" lt unknown_no_gain [OF that] by simp
        with unusual rd Some False show ?thesis
          by (subst (1 2) parse_loop.simps)
            (auto simp: PushReq_parse_field_def PushReq_plain_field_def
              split: option.splits prod.splits)
      qed
    qed
  qed simp
qed

end

end
