(* ===== verification/PullMsgs.thy ===== *)
theory PullMsgs
  imports Wire
begin

text \<open>
  The pull messages of feature-server/util/pbdata/serv-msg.pb.cc and .pb.h: \<open>PullReq\<close>, two packed
  repeated integer fields whose byte sizes \<open>ByteSizeLong\<close> caches for \<open>_InternalSerialize\<close>, and
  \<open>PullRsp\<close>, an error code, a description and the repeated data.
\<close>

section \<open>PullReq\<close>

record 'u PullReq = "'u Message" +
  PullReq_keys :: "u64 list"
  PullReq_keys_cached_byte_size :: i32
  PullReq_field :: "u32 list"
  PullReq_field_cached_byte_size :: i32

definition PullReq_SharedCtor :: "'u PullReq" where
  "PullReq_SharedCtor =
     \<lparr>internal_metadata = [], cached_size = 0, PullReq_keys = [],
      PullReq_keys_cached_byte_size = 0, PullReq_field = [], PullReq_field_cached_byte_size = 0\<rparr>"

definition PullReq_copy :: "'u PullReq \<Rightarrow> 'u PullReq" where
  "PullReq_copy from =
     PullReq_SharedCtor\<lparr>PullReq_keys := PullReq_keys from, PullReq_field := PullReq_field from,
       internal_metadata := internal_metadata from\<rparr>"

definition PullReq_keys_size :: "'u PullReq \<Rightarrow> nat" where
  "PullReq_keys_size m = length (PullReq_keys m)"

definition PullReq_keys_at :: "nat \<Rightarrow> 'u PullReq \<Rightarrow> u64 res" where
  "PullReq_keys_at i m =
     (if i < length (PullReq_keys m) then Inr (PullReq_keys m ! i) else Inl OutOfRange)"

definition PullReq_set_keys :: "nat \<Rightarrow> u64 \<Rightarrow> 'u PullReq \<Rightarrow> 'u PullReq res" where
  "PullReq_set_keys i v m =
     (if i < length (PullReq_keys m)
      then Inr (m\<lparr>PullReq_keys := (PullReq_keys m)[i := v]\<rparr>) else Inl OutOfRange)"

definition PullReq_add_keys :: "u64 \<Rightarrow> 'u PullReq \<Rightarrow> 'u PullReq" where
  "PullReq_add_keys v m = m\<lparr>PullReq_keys := PullReq_keys m @ [v]\<rparr>"

definition PullReq_clear_keys :: "'u PullReq \<Rightarrow> 'u PullReq" where
  "PullReq_clear_keys m = m\<lparr>PullReq_keys := []\<rparr>"

definition PullReq_field_size :: "'u PullReq \<Rightarrow> nat" where
  "PullReq_field_size m = length (PullReq_field m)"

definition PullReq_field_at :: "nat \<Rightarrow> 'u PullReq \<Rightarrow> u32 res" where
  "PullReq_field_at i m =
     (if i < length (PullReq_field m) then Inr (PullReq_field m ! i) else Inl OutOfRange)"

definition PullReq_set_field :: "nat \<Rightarrow> u32 \<Rightarrow> 'u PullReq \<Rightarrow> 'u PullReq res" where
  "PullReq_set_field i v m =
     (if i < length (PullReq_field m)
      then Inr (m\<lparr>PullReq_field := (PullReq_field m)[i := v]\<rparr>) else Inl OutOfRange)"

definition PullReq_add_field :: "u32 \<Rightarrow> 'u PullReq \<Rightarrow> 'u PullReq" where
  "PullReq_add_field v m = m\<lparr>PullReq_field := PullReq_field m @ [v]\<rparr>"

definition PullReq_clear_field :: "'u PullReq \<Rightarrow> 'u PullReq" where
  "PullReq_clear_field m = m\<lparr>PullReq_field := []\<rparr>"

definition PullReq_Clear :: "'u PullReq \<Rightarrow> 'u PullReq" where
  "PullReq_Clear m = m\<lparr>PullReq_keys := [], PullReq_field := [], internal_metadata := []\<rparr>"

text \<open>Both fields are accepted packed (one length-delimited run) and unpacked (one tag each).\<close>

definition PullReq_parse_field :: "('u, 's) wire_rt \<Rightarrow> 'u PullReq field_parser" where
  "PullReq_parse_field rt tag ptr m =
     (if drop_bit 3 tag = 1 then
        (if (ucast tag :: u8) = 10 then
           (case PackedUInt64Parser rt (PullReq_keys m) ptr of
              (vs, p) \<Rightarrow> Some (Handled (m\<lparr>PullReq_keys := vs\<rparr>) p))
         else if (ucast tag :: u8) = 8 then
           (case ReadVarint64 rt ptr of
              (v, p) \<Rightarrow> Some (Handled (PullReq_add_keys v m) p))
         else Some Unusual)
      else if drop_bit 3 tag = 2 then
        (if (ucast tag :: u8) = 18 then
           (case PackedUInt32Parser rt (PullReq_field m) ptr of
              (vs, p) \<Rightarrow> Some (Handled (m\<lparr>PullReq_field := vs\<rparr>) p))
         else if (ucast tag :: u8) = 16 then
           (case ReadVarint32 rt ptr of
              (v, p) \<Rightarrow> Some (Handled (PullReq_add_field v m) p))
         else Some Unusual)
      else Some Unusual)"

definition PullReq_InternalParse ::
  "('u, 's) wire_rt \<Rightarrow> 'u PullReq \<Rightarrow> bytes \<Rightarrow> ('u PullReq \<times> parse_end) option" where
  "PullReq_InternalParse rt m ptr = parse_loop rt (PullReq_parse_field rt) m ptr"

text \<open>The test \<open>byte_size > 0\<close> is on the cached \<open>int\<close>, signed.\<close>

definition PullReq_InternalSerialize :: "('u, 's) wire_rt \<Rightarrow> 'u PullReq \<Rightarrow> bytes" where
  "PullReq_InternalSerialize rt m =
     (let byte_size = PullReq_keys_cached_byte_size m
      in if sint byte_size > 0 then WriteUInt64Packed rt 1 (PullReq_keys m) byte_size else []) @
     (let byte_size = PullReq_field_cached_byte_size m
      in if sint byte_size > 0 then WriteUInt32Packed rt 2 (PullReq_field m) byte_size else []) @
     (if have_unknown_fields m
      then InternalSerializeUnknownFields rt (internal_metadata m) else [])"

definition PullReq_ByteSizeLong :: "('u, 's) wire_rt \<Rightarrow> 'u PullReq \<Rightarrow> nat \<times> 'u PullReq" where
  "PullReq_ByteSizeLong rt m =
     (let total_size = 0;
          data_size = UInt64Sizes rt (PullReq_keys m);
          total_size = (if data_size > 0
                        then total_size + 1 + Int32Size rt (of_nat data_size) else total_size);
          m = m\<lparr>PullReq_keys_cached_byte_size := ToCachedSize data_size\<rparr>;
          total_size = total_size + data_size;
          data_size = UInt32Sizes rt (PullReq_field m);
          total_size = (if data_size > 0
                        then total_size + 1 + Int32Size rt (of_nat data_size) else total_size);
          m = m\<lparr>PullReq_field_cached_byte_size := ToCachedSize data_size\<rparr>;
          total_size = total_size + data_size;
          total_size = (if have_unknown_fields m
                        then total_size + UnknownFieldsSize rt (internal_metadata m)
                        else total_size)
      in (total_size, m\<lparr>cached_size := ToCachedSize total_size\<rparr>))"

definition PullReq_MergeFrom :: "'u PullReq \<Rightarrow> 'u PullReq \<Rightarrow> 'u PullReq" where
  "PullReq_MergeFrom m from =
     m\<lparr>internal_metadata := internal_metadata m @ internal_metadata from,
       PullReq_keys := PullReq_keys m @ PullReq_keys from,
       PullReq_field := PullReq_field m @ PullReq_field from\<rparr>"

definition PullReq_CopyFrom :: "bool \<Rightarrow> 'u PullReq \<Rightarrow> 'u PullReq \<Rightarrow> 'u PullReq" where
  "PullReq_CopyFrom same m from =
     (if same then m else PullReq_MergeFrom (PullReq_Clear m) from)"

definition PullReq_InternalSwap :: "'u PullReq \<Rightarrow> 'u PullReq \<Rightarrow> 'u PullReq \<times> 'u PullReq" where
  "PullReq_InternalSwap m other =
     (m\<lparr>internal_metadata := internal_metadata other, PullReq_keys := PullReq_keys other,
        PullReq_field := PullReq_field other\<rparr>,
      other\<lparr>internal_metadata := internal_metadata m, PullReq_keys := PullReq_keys m,
        PullReq_field := PullReq_field m\<rparr>)"

text \<open>No unknown fields, and both packed runs within the length limit.\<close>

definition PullReq_fits :: "('u, 's) wire_rt \<Rightarrow> 'u PullReq \<Rightarrow> bool" where
  "PullReq_fits rt m =
     (\<not> have_unknown_fields m \<and> UInt64Sizes rt (PullReq_keys m) < wire_max
      \<and> UInt32Sizes rt (PullReq_field m) < wire_max)"

section \<open>PullRsp\<close>

record 'u PullRsp = "'u Message" +
  PullRsp_data :: "bytes list"
  PullRsp_errdesc :: bytes
  PullRsp_errcode :: i32

definition PullRsp_SharedCtor :: "'u PullRsp" where
  "PullRsp_SharedCtor =
     \<lparr>internal_metadata = [], cached_size = 0, PullRsp_data = [], PullRsp_errdesc = [],
      PullRsp_errcode = 0\<rparr>"

definition PullRsp_copy :: "'u PullRsp \<Rightarrow> 'u PullRsp" where
  "PullRsp_copy from =
     (let m = PullRsp_SharedCtor\<lparr>PullRsp_data := PullRsp_data from,
                internal_metadata := internal_metadata from\<rparr>;
          m = (if PullRsp_errdesc from \<noteq> [] then m\<lparr>PullRsp_errdesc := PullRsp_errdesc from\<rparr> else m)
      in m\<lparr>PullRsp_errcode := PullRsp_errcode from\<rparr>)"

definition PullRsp_set_errcode :: "i32 \<Rightarrow> 'u PullRsp \<Rightarrow> 'u PullRsp" where
  "PullRsp_set_errcode v m = m\<lparr>PullRsp_errcode := v\<rparr>"

definition PullRsp_clear_errcode :: "'u PullRsp \<Rightarrow> 'u PullRsp" where
  "PullRsp_clear_errcode m = m\<lparr>PullRsp_errcode := 0\<rparr>"

definition PullRsp_set_errdesc :: "bytes \<Rightarrow> 'u PullRsp \<Rightarrow> 'u PullRsp" where
  "PullRsp_set_errdesc v m = m\<lparr>PullRsp_errdesc := v\<rparr>"

definition PullRsp_clear_errdesc :: "'u PullRsp \<Rightarrow> 'u PullRsp" where
  "PullRsp_clear_errdesc m = m\<lparr>PullRsp_errdesc := []\<rparr>"

definition PullRsp_data_size :: "'u PullRsp \<Rightarrow> nat" where
  "PullRsp_data_size m = length (PullRsp_data m)"

definition PullRsp_data_at :: "nat \<Rightarrow> 'u PullRsp \<Rightarrow> bytes res" where
  "PullRsp_data_at i m =
     (if i < length (PullRsp_data m) then Inr (PullRsp_data m ! i) else Inl OutOfRange)"

definition PullRsp_set_data :: "nat \<Rightarrow> bytes \<Rightarrow> 'u PullRsp \<Rightarrow> 'u PullRsp res" where
  "PullRsp_set_data i v m =
     (if i < length (PullRsp_data m)
      then Inr (m\<lparr>PullRsp_data := (PullRsp_data m)[i := v]\<rparr>) else Inl OutOfRange)"

definition PullRsp_add_data :: "bytes \<Rightarrow> 'u PullRsp \<Rightarrow> 'u PullRsp" where
  "PullRsp_add_data v m = m\<lparr>PullRsp_data := PullRsp_data m @ [v]\<rparr>"

definition PullRsp_clear_data :: "'u PullRsp \<Rightarrow> 'u PullRsp" where
  "PullRsp_clear_data m = m\<lparr>PullRsp_data := []\<rparr>"

definition PullRsp_Clear :: "'u PullRsp \<Rightarrow> 'u PullRsp" where
  "PullRsp_Clear m =
     m\<lparr>PullRsp_data := [], PullRsp_errdesc := [], PullRsp_errcode := 0, internal_metadata := []\<rparr>"

text \<open>The do-while loop of field 3: the new element is added before its bytes are read.\<close>

partial_function (option) PullRsp_data_loop ::
  "('u, 's) wire_rt \<Rightarrow> 'u PullRsp \<Rightarrow> bytes \<Rightarrow> ('u PullRsp \<times> bytes option) option" where
  "PullRsp_data_loop rt m ptr =
     (case InlineGreedyStringParser rt ptr of
        (s, None) \<Rightarrow> Some (PullRsp_add_data s m, None)
      | (s, Some p) \<Rightarrow>
          (if p = [] then Some (PullRsp_add_data s m, Some p)
           else if ExpectTag rt 26 p
           then PullRsp_data_loop rt (PullRsp_add_data s m) (drop 1 p)
           else Some (PullRsp_add_data s m, Some p)))"

definition PullRsp_parse_field :: "('u, 's) wire_rt \<Rightarrow> 'u PullRsp field_parser" where
  "PullRsp_parse_field rt tag ptr m =
     (if drop_bit 3 tag = 1 then
        (if (ucast tag :: u8) = 8 then
           (case ReadVarint64 rt ptr of
              (v, p) \<Rightarrow> Some (Handled (m\<lparr>PullRsp_errcode := ucast v\<rparr>) p))
         else Some Unusual)
      else if drop_bit 3 tag = 2 then
        (if (ucast tag :: u8) = 18 then
           (case InlineGreedyStringParser rt ptr of
              (s, p) \<Rightarrow> Some (Handled (m\<lparr>PullRsp_errdesc := s\<rparr>)
                                (if VerifyUTF8 rt s then p else None)))
         else Some Unusual)
      else if drop_bit 3 tag = 3 then
        (if (ucast tag :: u8) = 26 then
           (case PullRsp_data_loop rt m ptr of
              None \<Rightarrow> None
            | Some (m', p) \<Rightarrow> Some (Handled m' p))
         else Some Unusual)
      else Some Unusual)"

definition PullRsp_InternalParse ::
  "('u, 's) wire_rt \<Rightarrow> 'u PullRsp \<Rightarrow> bytes \<Rightarrow> ('u PullRsp \<times> parse_end) option" where
  "PullRsp_InternalParse rt m ptr = parse_loop rt (PullRsp_parse_field rt) m ptr"

definition PullRsp_InternalSerialize :: "('u, 's) wire_rt \<Rightarrow> 'u PullRsp \<Rightarrow> bytes" where
  "PullRsp_InternalSerialize rt m =
     (if PullRsp_errcode m \<noteq> 0 then WriteInt32ToArray rt 1 (PullRsp_errcode m) else []) @
     (if length (PullRsp_errdesc m) > 0 then WriteString rt 2 (PullRsp_errdesc m) else []) @
     concat (map (WriteBytes rt 3) (PullRsp_data m)) @
     (if have_unknown_fields m
      then InternalSerializeUnknownFields rt (internal_metadata m) else [])"

definition PullRsp_ByteSizeLong :: "('u, 's) wire_rt \<Rightarrow> 'u PullRsp \<Rightarrow> nat \<times> 'u PullRsp" where
  "PullRsp_ByteSizeLong rt m =
     (let total_size = 1 * length (PullRsp_data m);
          total_size = total_size + (\<Sum>s\<leftarrow>PullRsp_data m. BytesSize rt s);
          total_size = (if length (PullRsp_errdesc m) > 0
                        then total_size + 1 + StringSize rt (PullRsp_errdesc m) else total_size);
          total_size = (if PullRsp_errcode m \<noteq> 0
                        then total_size + 1 + Int32Size rt (PullRsp_errcode m) else total_size);
          total_size = (if have_unknown_fields m
                        then total_size + UnknownFieldsSize rt (internal_metadata m)
                        else total_size)
      in (total_size, m\<lparr>cached_size := ToCachedSize total_size\<rparr>))"

definition PullRsp_MergeFrom :: "'u PullRsp \<Rightarrow> 'u PullRsp \<Rightarrow> 'u PullRsp" where
  "PullRsp_MergeFrom m from =
     (let m = m\<lparr>internal_metadata := internal_metadata m @ internal_metadata from\<rparr>;
          m = m\<lparr>PullRsp_data := PullRsp_data m @ PullRsp_data from\<rparr>;
          m = (if length (PullRsp_errdesc from) > 0
               then m\<lparr>PullRsp_errdesc := PullRsp_errdesc from\<rparr> else m)
      in if PullRsp_errcode from \<noteq> 0 then m\<lparr>PullRsp_errcode := PullRsp_errcode from\<rparr> else m)"

definition PullRsp_CopyFrom :: "bool \<Rightarrow> 'u PullRsp \<Rightarrow> 'u PullRsp \<Rightarrow> 'u PullRsp" where
  "PullRsp_CopyFrom same m from =
     (if same then m else PullRsp_MergeFrom (PullRsp_Clear m) from)"

definition PullRsp_InternalSwap :: "'u PullRsp \<Rightarrow> 'u PullRsp \<Rightarrow> 'u PullRsp \<times> 'u PullRsp" where
  "PullRsp_InternalSwap m other =
     (m\<lparr>internal_metadata := internal_metadata other, PullRsp_data := PullRsp_data other,
        PullRsp_errdesc := PullRsp_errdesc other, PullRsp_errcode := PullRsp_errcode other\<rparr>,
      other\<lparr>internal_metadata := internal_metadata m, PullRsp_data := PullRsp_data m,
        PullRsp_errdesc := PullRsp_errdesc m, PullRsp_errcode := PullRsp_errcode m\<rparr>)"

text \<open>No unknown fields, a valid description, and every string within the length limit.\<close>

definition PullRsp_fits :: "('u, 's) wire_rt \<Rightarrow> 'u PullRsp \<Rightarrow> bool" where
  "PullRsp_fits rt m =
     (\<not> have_unknown_fields m \<and> VerifyUTF8 rt (PullRsp_errdesc m)
      \<and> length (PullRsp_errdesc m) < wire_max
      \<and> list_all (\<lambda>s. length s < wire_max) (PullRsp_data m))"

section \<open>Merging and copying\<close>

lemma PullReq_MergeFrom_default:
  "PullReq_MergeFrom PullReq_SharedCtor m =
     m\<lparr>cached_size := 0, PullReq_keys_cached_byte_size := 0, PullReq_field_cached_byte_size := 0\<rparr>"
  by (cases m) (simp add: PullReq_MergeFrom_def PullReq_SharedCtor_def)

lemma PullRsp_MergeFrom_default:
  "PullRsp_MergeFrom PullRsp_SharedCtor m = m\<lparr>cached_size := 0\<rparr>"
  by (cases m) (simp add: PullRsp_MergeFrom_def PullRsp_SharedCtor_def Let_def)

lemma PullReq_ByteSizeLong_snd:
  "snd (PullReq_ByteSizeLong rt m) =
     m\<lparr>PullReq_keys_cached_byte_size := ToCachedSize (UInt64Sizes rt (PullReq_keys m)),
       PullReq_field_cached_byte_size := ToCachedSize (UInt32Sizes rt (PullReq_field m)),
       cached_size := ToCachedSize (fst (PullReq_ByteSizeLong rt m))\<rparr>"
  by (cases m) (simp add: PullReq_ByteSizeLong_def Let_def)

section \<open>Over a conforming runtime\<close>

context wire_runtime
begin

lemma PullReq_field_results:
  "length (packed64 varint vs) < wire_max \<Longrightarrow>
   PullReq_parse_field rt 10
     (varint (of_nat (length (packed64 varint vs))) @ packed64 varint vs @ rest) m
     = Some (Handled (m\<lparr>PullReq_keys := PullReq_keys m @ vs\<rparr>) (Some rest))"
  "PullReq_parse_field rt 8 (varint v @ rest) m = Some (Handled (PullReq_add_keys v m) (Some rest))"
  "length (packed32 varint ws) < wire_max \<Longrightarrow>
   PullReq_parse_field rt 18
     (varint (of_nat (length (packed32 varint ws))) @ packed32 varint ws @ rest) m
     = Some (Handled (m\<lparr>PullReq_field := PullReq_field m @ ws\<rparr>) (Some rest))"
  "PullReq_parse_field rt 16 (varint v @ rest) m
     = Some (Handled (PullReq_add_field (ucast v) m) (Some rest))"
  by (simp_all add: PullReq_parse_field_def read_varint64 read_varint32 read_packed64 read_packed32)

lemma sint_size_pos: "n < wire_max \<Longrightarrow> 0 < sint (of_nat n :: i32) \<longleftrightarrow> 0 < n"
  by (simp add: signed_of_nat signed_take_bit_int_eq_self wire_max_def)

lemma PullReq_parse_append:
  assumes "PullReq_fits rt a"
  shows "parse_loop rt (PullReq_parse_field rt) m
      (PullReq_InternalSerialize rt (snd (PullReq_ByteSizeLong rt a)) @ rest)
    = parse_loop rt (PullReq_parse_field rt) (PullReq_MergeFrom m a) rest"
proof -
  let ?loop = "parse_loop rt (PullReq_parse_field rt)"
  let ?k = "packed64 varint (PullReq_keys a)" and ?f = "packed32 varint (PullReq_field a)"
  from assms have short: "length ?k < wire_max" "length ?f < wire_max"
    and unk: "internal_metadata a = []"
    by (auto simp: PullReq_fits_def sizes have_unknown_fields_def)
  then have cast: "ucast (of_nat (length ?k) :: i32) = (of_nat (length ?k) :: u64)"
    "ucast (of_nat (length ?f) :: i32) = (of_nat (length ?f) :: u64)"
    by (simp_all add: scast_size wire_max_def)
  have keys: "?loop n (10 # varint (of_nat (length ?k)) @ ?k @ r)
      = ?loop (n\<lparr>PullReq_keys := PullReq_keys n @ PullReq_keys a\<rparr>) r" for n r
    by (rule parse_loop_handled [OF read_tags(3)]) (simp_all add: PullReq_field_results short)
  have field: "?loop n (18 # varint (of_nat (length ?f)) @ ?f @ r)
      = ?loop (n\<lparr>PullReq_field := PullReq_field n @ PullReq_field a\<rparr>) r" for n r
    by (rule parse_loop_handled [OF read_tags(5)]) (simp_all add: PullReq_field_results short)
  show ?thesis
    using unk short
    by (cases m) (simp add: PullReq_InternalSerialize_def PullReq_ByteSizeLong_snd
        PullReq_MergeFrom_def write_fields sizes ToCachedSize_def cast keys field sint_size_pos
        have_unknown_fields_def Let_def)
qed

lemma PullReq_parse_serialized:
  assumes "PullReq_fits rt a"
  shows "PullReq_InternalParse rt m (PullReq_InternalSerialize rt (snd (PullReq_ByteSizeLong rt a)))
       = Some (PullReq_MergeFrom m a, AtLimit)"
  using PullReq_parse_append [OF assms, of m "[]"] by (simp add: PullReq_InternalParse_def)

lemma PullReq_size_serialized:
  assumes "PullReq_fits rt a"
  shows "fst (PullReq_ByteSizeLong rt a) =
     length (PullReq_InternalSerialize rt (snd (PullReq_ByteSizeLong rt a)))"
proof -
  let ?k = "packed64 varint (PullReq_keys a)" and ?f = "packed32 varint (PullReq_field a)"
  from assms have short: "length ?k < wire_max" "length ?f < wire_max"
    by (auto simp: PullReq_fits_def sizes)
  then have cast: "ucast (of_nat (length ?k) :: i32) = (of_nat (length ?k) :: u64)"
    "ucast (of_nat (length ?f) :: i32) = (of_nat (length ?f) :: u64)"
    "scast (of_nat (length ?k) :: i32) = (of_nat (length ?k) :: u64)"
    "scast (of_nat (length ?f) :: i32) = (of_nat (length ?f) :: u64)"
    by (simp_all add: scast_size wire_max_def)
  have "internal_metadata a = []" using assms by (simp add: PullReq_fits_def have_unknown_fields_def)
  then show ?thesis
    using short
    by (simp add: PullReq_ByteSizeLong_snd PullReq_InternalSerialize_def write_fields sizes cast
        ToCachedSize_def sint_size_pos have_unknown_fields_def Let_def)
      (simp add: PullReq_ByteSizeLong_def sizes cast have_unknown_fields_def Let_def)
qed

lemma PullReq_parse_returns: "PullReq_InternalParse rt m ptr \<noteq> None"
  unfolding PullReq_InternalParse_def
  by (rule parse_loop_returns)
    (auto simp: PullReq_parse_field_def
      dest: varint64_no_gain varint32_no_gain packed64_no_gain packed32_no_gain
      split: if_splits prod.splits)

text \<open>The unpacked form, one tag for each element, is read as the packed one.\<close>

lemma PullReq_unpacked_keys:
  "parse_loop rt (PullReq_parse_field rt) m (concat (map (\<lambda>v. 8 # varint v) vs) @ rest)
     = parse_loop rt (PullReq_parse_field rt) (m\<lparr>PullReq_keys := PullReq_keys m @ vs\<rparr>) rest"
proof (induction vs arbitrary: m)
  case (Cons v vs)
  have "parse_loop rt (PullReq_parse_field rt) m (8 # varint v @ r)
      = parse_loop rt (PullReq_parse_field rt) (PullReq_add_keys v m) r" for r
    by (rule parse_loop_handled [OF read_tags(2)]) (simp_all add: PullReq_field_results)
  with Cons show ?case by (simp add: PullReq_add_keys_def)
qed simp

text \<open>\<open>PullRsp\<close>: the scalar fields, then the do-while loop of field 3.\<close>

lemma PullRsp_field_results:
  "PullRsp_parse_field rt 8 (varint v @ rest) m
     = Some (Handled (m\<lparr>PullRsp_errcode := ucast v\<rparr>) (Some rest))"
  "length s < wire_max \<Longrightarrow> VerifyUTF8 rt s \<Longrightarrow>
   PullRsp_parse_field rt 18 (varint (of_nat (length s)) @ s @ rest) m
     = Some (Handled (m\<lparr>PullRsp_errdesc := s\<rparr>) (Some rest))"
  by (simp_all add: PullRsp_parse_field_def read_varint64 read_string)

lemma PullRsp_loop_tag:
  assumes "ReadTag rt ptr = (t, Some p)" and "ptr \<noteq> []"
    and "drop_bit 3 t = 3" and "(ucast t :: u8) = 26"
  shows "parse_loop rt (PullRsp_parse_field rt) m ptr =
     (case PullRsp_data_loop rt m p of
        None \<Rightarrow> None
      | Some (m', None) \<Rightarrow> Some (m', NullPtr)
      | Some (m', Some q) \<Rightarrow> parse_loop rt (PullRsp_parse_field rt) m' q)"
  using assms
  by (subst parse_loop.simps) (auto simp: PullRsp_parse_field_def split: option.splits)

lemma PullRsp_loop_element:
  assumes "ReadTag rt ptr = (t, Some p)" and "ptr \<noteq> []"
    and "drop_bit 3 t = 3" and "(ucast t :: u8) = 26"
  shows "parse_loop rt (PullRsp_parse_field rt) m ptr =
     (case InlineGreedyStringParser rt p of
        (s, None) \<Rightarrow> Some (PullRsp_add_data s m, NullPtr)
      | (s, Some q) \<Rightarrow> parse_loop rt (PullRsp_parse_field rt) (PullRsp_add_data s m) q)"
proof -
  have next_tag: "parse_loop rt (PullRsp_parse_field rt) n q =
     (case PullRsp_data_loop rt n (drop 1 q) of
        None \<Rightarrow> None
      | Some (m', None) \<Rightarrow> Some (m', NullPtr)
      | Some (m', Some r) \<Rightarrow> parse_loop rt (PullRsp_parse_field rt) m' r)"
    if "q \<noteq> []" and "ExpectTag rt 26 q" for n q
  proof -
    from that obtain q' where "q = 26 # q'" by (cases q) (auto simp: expect_tags)
    then show ?thesis using PullRsp_loop_tag [OF read_tags(6), of q' n] by simp
  qed
  show ?thesis
    unfolding PullRsp_loop_tag [OF assms]
    by (subst PullRsp_data_loop.simps) (auto simp: next_tag split: option.splits prod.splits)
qed

lemma PullRsp_data_append:
  assumes "list_all (\<lambda>s. length s < wire_max) xs"
  shows "parse_loop rt (PullRsp_parse_field rt) m (concat (map (WriteBytes rt 3) xs) @ rest)
    = parse_loop rt (PullRsp_parse_field rt) (m\<lparr>PullRsp_data := PullRsp_data m @ xs\<rparr>) rest"
  using assms
proof (induction xs arbitrary: m)
  case (Cons x xs)
  then show ?case
    by (simp add: write_fields PullRsp_loop_element [OF read_tags(6)] read_string
        PullRsp_add_data_def)
qed simp

lemma PullRsp_parse_append:
  assumes fits: "PullRsp_fits rt a"
  shows "parse_loop rt (PullRsp_parse_field rt) m (PullRsp_InternalSerialize rt a @ rest)
       = parse_loop rt (PullRsp_parse_field rt) (PullRsp_MergeFrom m a) rest"
proof -
  let ?loop = "parse_loop rt (PullRsp_parse_field rt)" and ?d = "PullRsp_errdesc a"
  have code: "?loop n (8 # varint (scast e) @ r) = ?loop (n\<lparr>PullRsp_errcode := e\<rparr>) r" for n e r
    by (rule parse_loop_handled [OF read_tags(2)]) (simp_all add: PullRsp_field_results)
  have desc: "?loop n (18 # varint (of_nat (length ?d)) @ ?d @ r)
            = ?loop (n\<lparr>PullRsp_errdesc := ?d\<rparr>) r" for n r
    using fits by (intro parse_loop_handled [OF read_tags(5)])
      (simp_all add: PullRsp_field_results PullRsp_fits_def)
  have data: "?loop n (concat (map (WriteBytes rt 3) (PullRsp_data a)) @ r)
            = ?loop (n\<lparr>PullRsp_data := PullRsp_data n @ PullRsp_data a\<rparr>) r" for n r
    using fits by (intro PullRsp_data_append) (simp add: PullRsp_fits_def)
  show ?thesis
    using fits
    by (cases m) (simp add: PullRsp_InternalSerialize_def PullRsp_MergeFrom_def write_fields code
        desc data have_unknown_fields_def PullRsp_fits_def Let_def)
qed

lemma PullRsp_parse_serialized:
  assumes "PullRsp_fits rt a"
  shows "PullRsp_InternalParse rt m (PullRsp_InternalSerialize rt a)
       = Some (PullRsp_MergeFrom m a, AtLimit)"
  using PullRsp_parse_append [OF assms, of m "[]"] by (simp add: PullRsp_InternalParse_def)

lemma PullRsp_size:
  assumes "\<not> have_unknown_fields a"
  shows "fst (PullRsp_ByteSizeLong rt a) = length (PullRsp_InternalSerialize rt a)"
proof -
  have "length xs + (\<Sum>s\<leftarrow>xs. BytesSize rt s) = length (concat (map (WriteBytes rt 3) xs))" for xs
    by (induction xs) (simp_all add: write_fields sizes)
  from this [of "PullRsp_data a"] assms show ?thesis
    by (simp add: PullRsp_ByteSizeLong_def PullRsp_InternalSerialize_def write_fields sizes Let_def)
qed

lemma PullRsp_data_loop_returns: "PullRsp_data_loop rt m ptr \<noteq> None"
proof (induction ptr arbitrary: m rule: length_induct)
  case (1 ptr)
  obtain s q where sp: "InlineGreedyStringParser rt ptr = (s, q)" by fastforce
  have "length (drop 1 p) < length ptr" if "q = Some p" and "p \<noteq> []" for p
  proof -
    have "length p \<le> length ptr" using string_no_gain sp that(1) by blast
    then show ?thesis using that(2) by (cases p) simp_all
  qed
  with 1 sp show ?case
    by (subst PullRsp_data_loop.simps) (auto split: option.splits)
qed

lemma PullRsp_data_loop_no_gain:
  "PullRsp_data_loop rt m ptr = Some (m', Some p) \<Longrightarrow> length p \<le> length ptr"
proof (induction ptr arbitrary: m rule: length_induct)
  case (1 ptr)
  from "1.prems" obtain s q where sp: "InlineGreedyStringParser rt ptr = (s, Some q)"
    by (subst (asm) PullRsp_data_loop.simps) (auto split: option.splits prod.splits)
  then have q: "length q \<le> length ptr" by (rule string_no_gain)
  show ?case
  proof (cases "q \<noteq> [] \<and> ExpectTag rt 26 q")
    case True
    then have less: "length (drop 1 q) < length ptr" using q by (cases q) simp_all
    from True "1.prems" sp have
      "PullRsp_data_loop rt (PullRsp_add_data s m) (drop 1 q) = Some (m', Some p)"
      by (subst (asm) PullRsp_data_loop.simps) simp
    with "1.IH" less have "length p \<le> length (drop 1 q)" by blast
    with less show ?thesis by simp
  next
    case False
    with "1.prems" sp q show ?thesis
      by (subst (asm) PullRsp_data_loop.simps) (auto split: if_splits)
  qed
qed

lemma PullRsp_parse_returns: "PullRsp_InternalParse rt m ptr \<noteq> None"
  unfolding PullRsp_InternalParse_def
proof (rule parse_loop_returns)
  show "PullRsp_parse_field rt t p n \<noteq> None" for t p n
    using PullRsp_data_loop_returns [of n p]
    by (auto simp: PullRsp_parse_field_def split: option.splits prod.splits)
  show "PullRsp_parse_field rt t p n = Some (Handled n' (Some p')) \<Longrightarrow> length p' \<le> length p"
    for t p n n' p'
    by (auto simp: PullRsp_parse_field_def
        dest: PullRsp_data_loop_no_gain varint64_no_gain string_no_gain
        split: if_splits option.splits prod.splits)
qed

end

end
