(* ===== verification/DelCacheMsgs.thy ===== *)
theory DelCacheMsgs
  imports Wire
begin

text \<open>
  The messages of the delete-from-cache request (feature-server/util/pbdata/serv-msg.pb.cc and
  .pb.h): \<open>DelCacheReq\<close>, one key, and \<open>DelCacheRsp\<close>, one flag.
\<close>

section \<open>DelCacheReq\<close>

record 'u DelCacheReq = "'u Message" +
  DelCacheReq_key :: u64

definition DelCacheReq_SharedCtor :: "'u DelCacheReq" where
  "DelCacheReq_SharedCtor = \<lparr>internal_metadata = [], cached_size = 0, DelCacheReq_key = 0\<rparr>"

definition DelCacheReq_copy :: "'u DelCacheReq \<Rightarrow> 'u DelCacheReq" where
  "DelCacheReq_copy from =
     DelCacheReq_SharedCtor\<lparr>internal_metadata := internal_metadata from,
       DelCacheReq_key := DelCacheReq_key from\<rparr>"

definition DelCacheReq_set_key :: "u64 \<Rightarrow> 'u DelCacheReq \<Rightarrow> 'u DelCacheReq" where
  "DelCacheReq_set_key v m = m\<lparr>DelCacheReq_key := v\<rparr>"

definition DelCacheReq_clear_key :: "'u DelCacheReq \<Rightarrow> 'u DelCacheReq" where
  "DelCacheReq_clear_key m = m\<lparr>DelCacheReq_key := 0\<rparr>"

definition DelCacheReq_Clear :: "'u DelCacheReq \<Rightarrow> 'u DelCacheReq" where
  "DelCacheReq_Clear m = m\<lparr>DelCacheReq_key := 0, internal_metadata := []\<rparr>"

definition DelCacheReq_parse_field :: "('u, 's) wire_rt \<Rightarrow> 'u DelCacheReq field_parser" where
  "DelCacheReq_parse_field rt tag ptr m =
     (if drop_bit 3 tag = 1 then
        (if (ucast tag :: u8) = 8 then
           (case ReadVarint64 rt ptr of
              (v, p) \<Rightarrow> Some (Handled (m\<lparr>DelCacheReq_key := v\<rparr>) p))
         else Some Unusual)
      else Some Unusual)"

definition DelCacheReq_InternalParse ::
  "('u, 's) wire_rt \<Rightarrow> 'u DelCacheReq \<Rightarrow> bytes \<Rightarrow> ('u DelCacheReq \<times> parse_end) option" where
  "DelCacheReq_InternalParse rt m ptr = parse_loop rt (DelCacheReq_parse_field rt) m ptr"

definition DelCacheReq_InternalSerialize :: "('u, 's) wire_rt \<Rightarrow> 'u DelCacheReq \<Rightarrow> bytes" where
  "DelCacheReq_InternalSerialize rt m =
     (if DelCacheReq_key m \<noteq> 0 then WriteUInt64ToArray rt 1 (DelCacheReq_key m) else []) @
     (if have_unknown_fields m
      then InternalSerializeUnknownFields rt (internal_metadata m) else [])"

definition DelCacheReq_ByteSizeLong ::
  "('u, 's) wire_rt \<Rightarrow> 'u DelCacheReq \<Rightarrow> nat \<times> 'u DelCacheReq" where
  "DelCacheReq_ByteSizeLong rt m =
     (let total_size = 0;
          total_size = (if DelCacheReq_key m \<noteq> 0
                        then total_size + 1 + UInt64Size rt (DelCacheReq_key m) else total_size);
          total_size = (if have_unknown_fields m
                        then total_size + UnknownFieldsSize rt (internal_metadata m)
                        else total_size)
      in (total_size, m\<lparr>cached_size := ToCachedSize total_size\<rparr>))"

definition DelCacheReq_MergeFrom :: "'u DelCacheReq \<Rightarrow> 'u DelCacheReq \<Rightarrow> 'u DelCacheReq" where
  "DelCacheReq_MergeFrom m from =
     (let m = m\<lparr>internal_metadata := internal_metadata m @ internal_metadata from\<rparr>
      in if DelCacheReq_key from \<noteq> 0 then m\<lparr>DelCacheReq_key := DelCacheReq_key from\<rparr> else m)"

definition DelCacheReq_CopyFrom ::
  "bool \<Rightarrow> 'u DelCacheReq \<Rightarrow> 'u DelCacheReq \<Rightarrow> 'u DelCacheReq" where
  "DelCacheReq_CopyFrom same m from =
     (if same then m else DelCacheReq_MergeFrom (DelCacheReq_Clear m) from)"

definition DelCacheReq_InternalSwap ::
  "'u DelCacheReq \<Rightarrow> 'u DelCacheReq \<Rightarrow> 'u DelCacheReq \<times> 'u DelCacheReq" where
  "DelCacheReq_InternalSwap m other =
     (m\<lparr>internal_metadata := internal_metadata other, DelCacheReq_key := DelCacheReq_key other\<rparr>,
      other\<lparr>internal_metadata := internal_metadata m, DelCacheReq_key := DelCacheReq_key m\<rparr>)"

section \<open>DelCacheRsp\<close>

record 'u DelCacheRsp = "'u Message" +
  DelCacheRsp_succ :: bool

definition DelCacheRsp_SharedCtor :: "'u DelCacheRsp" where
  "DelCacheRsp_SharedCtor = \<lparr>internal_metadata = [], cached_size = 0, DelCacheRsp_succ = False\<rparr>"

definition DelCacheRsp_copy :: "'u DelCacheRsp \<Rightarrow> 'u DelCacheRsp" where
  "DelCacheRsp_copy from =
     DelCacheRsp_SharedCtor\<lparr>internal_metadata := internal_metadata from,
       DelCacheRsp_succ := DelCacheRsp_succ from\<rparr>"

definition DelCacheRsp_set_succ :: "bool \<Rightarrow> 'u DelCacheRsp \<Rightarrow> 'u DelCacheRsp" where
  "DelCacheRsp_set_succ v m = m\<lparr>DelCacheRsp_succ := v\<rparr>"

definition DelCacheRsp_clear_succ :: "'u DelCacheRsp \<Rightarrow> 'u DelCacheRsp" where
  "DelCacheRsp_clear_succ m = m\<lparr>DelCacheRsp_succ := False\<rparr>"

definition DelCacheRsp_Clear :: "'u DelCacheRsp \<Rightarrow> 'u DelCacheRsp" where
  "DelCacheRsp_Clear m = m\<lparr>DelCacheRsp_succ := False, internal_metadata := []\<rparr>"

text \<open>The assignment of a 64-bit varint to a \<open>bool\<close> tests it against zero.\<close>

definition DelCacheRsp_parse_field :: "('u, 's) wire_rt \<Rightarrow> 'u DelCacheRsp field_parser" where
  "DelCacheRsp_parse_field rt tag ptr m =
     (if drop_bit 3 tag = 1 then
        (if (ucast tag :: u8) = 8 then
           (case ReadVarint64 rt ptr of
              (v, p) \<Rightarrow> Some (Handled (m\<lparr>DelCacheRsp_succ := (v \<noteq> 0)\<rparr>) p))
         else Some Unusual)
      else Some Unusual)"

definition DelCacheRsp_InternalParse ::
  "('u, 's) wire_rt \<Rightarrow> 'u DelCacheRsp \<Rightarrow> bytes \<Rightarrow> ('u DelCacheRsp \<times> parse_end) option" where
  "DelCacheRsp_InternalParse rt m ptr = parse_loop rt (DelCacheRsp_parse_field rt) m ptr"

definition DelCacheRsp_InternalSerialize :: "('u, 's) wire_rt \<Rightarrow> 'u DelCacheRsp \<Rightarrow> bytes" where
  "DelCacheRsp_InternalSerialize rt m =
     (if DelCacheRsp_succ m then WriteBoolToArray rt 1 (DelCacheRsp_succ m) else []) @
     (if have_unknown_fields m
      then InternalSerializeUnknownFields rt (internal_metadata m) else [])"

definition DelCacheRsp_ByteSizeLong ::
  "('u, 's) wire_rt \<Rightarrow> 'u DelCacheRsp \<Rightarrow> nat \<times> 'u DelCacheRsp" where
  "DelCacheRsp_ByteSizeLong rt m =
     (let total_size = 0;
          total_size = (if DelCacheRsp_succ m then total_size + 1 + 1 else total_size);
          total_size = (if have_unknown_fields m
                        then total_size + UnknownFieldsSize rt (internal_metadata m)
                        else total_size)
      in (total_size, m\<lparr>cached_size := ToCachedSize total_size\<rparr>))"

definition DelCacheRsp_MergeFrom :: "'u DelCacheRsp \<Rightarrow> 'u DelCacheRsp \<Rightarrow> 'u DelCacheRsp" where
  "DelCacheRsp_MergeFrom m from =
     (let m = m\<lparr>internal_metadata := internal_metadata m @ internal_metadata from\<rparr>
      in if DelCacheRsp_succ from then m\<lparr>DelCacheRsp_succ := DelCacheRsp_succ from\<rparr> else m)"

definition DelCacheRsp_CopyFrom ::
  "bool \<Rightarrow> 'u DelCacheRsp \<Rightarrow> 'u DelCacheRsp \<Rightarrow> 'u DelCacheRsp" where
  "DelCacheRsp_CopyFrom same m from =
     (if same then m else DelCacheRsp_MergeFrom (DelCacheRsp_Clear m) from)"

definition DelCacheRsp_InternalSwap ::
  "'u DelCacheRsp \<Rightarrow> 'u DelCacheRsp \<Rightarrow> 'u DelCacheRsp \<times> 'u DelCacheRsp" where
  "DelCacheRsp_InternalSwap m other =
     (m\<lparr>internal_metadata := internal_metadata other, DelCacheRsp_succ := DelCacheRsp_succ other\<rparr>,
      other\<lparr>internal_metadata := internal_metadata m, DelCacheRsp_succ := DelCacheRsp_succ m\<rparr>)"

section \<open>Merging and copying\<close>

lemma DelCacheReq_MergeFrom_default:
  "DelCacheReq_MergeFrom DelCacheReq_SharedCtor m = m\<lparr>cached_size := 0\<rparr>"
  by (cases m) (simp add: DelCacheReq_MergeFrom_def DelCacheReq_SharedCtor_def Let_def)

lemma DelCacheRsp_MergeFrom_default:
  "DelCacheRsp_MergeFrom DelCacheRsp_SharedCtor m = m\<lparr>cached_size := 0\<rparr>"
  by (cases m) (simp add: DelCacheRsp_MergeFrom_def DelCacheRsp_SharedCtor_def Let_def)

section \<open>Over a conforming runtime\<close>

context wire_runtime
begin

lemma DelCache_field_results:
  "DelCacheReq_parse_field rt 8 (varint v @ rest) req
     = Some (Handled (req\<lparr>DelCacheReq_key := v\<rparr>) (Some rest))"
  "DelCacheRsp_parse_field rt 8 (varint v @ rest) rsp
     = Some (Handled (rsp\<lparr>DelCacheRsp_succ := (v \<noteq> 0)\<rparr>) (Some rest))"
  by (simp_all add: DelCacheReq_parse_field_def DelCacheRsp_parse_field_def read_varint64)

lemma DelCacheReq_parse_append:
  assumes "\<not> have_unknown_fields a"
  shows "parse_loop rt (DelCacheReq_parse_field rt) m (DelCacheReq_InternalSerialize rt a @ rest)
       = parse_loop rt (DelCacheReq_parse_field rt) (DelCacheReq_MergeFrom m a) rest"
proof -
  have "parse_loop rt (DelCacheReq_parse_field rt) n (8 # varint v @ r)
      = parse_loop rt (DelCacheReq_parse_field rt) (n\<lparr>DelCacheReq_key := v\<rparr>) r" for n v r
    by (rule parse_loop_handled [OF read_tags(2)]) (simp_all add: DelCache_field_results)
  then show ?thesis
    using assms by (cases m) (simp add: DelCacheReq_InternalSerialize_def DelCacheReq_MergeFrom_def
        write_fields have_unknown_fields_def)
qed

lemma DelCacheReq_parse_serialized:
  assumes "\<not> have_unknown_fields a"
  shows "DelCacheReq_InternalParse rt m (DelCacheReq_InternalSerialize rt a)
       = Some (DelCacheReq_MergeFrom m a, AtLimit)"
  using DelCacheReq_parse_append [OF assms, of m "[]"] by (simp add: DelCacheReq_InternalParse_def)

lemma DelCacheRsp_parse_serialized:
  assumes "\<not> have_unknown_fields a"
  shows "DelCacheRsp_InternalParse rt m (DelCacheRsp_InternalSerialize rt a)
       = Some (DelCacheRsp_MergeFrom m a, AtLimit)"
proof -
  have "parse_loop rt (DelCacheRsp_parse_field rt) n (8 # varint v @ r)
      = parse_loop rt (DelCacheRsp_parse_field rt) (n\<lparr>DelCacheRsp_succ := (v \<noteq> 0)\<rparr>) r" for n v r
    by (rule parse_loop_handled [OF read_tags(2)]) (simp_all add: DelCache_field_results)
  from this [of m 1 "[]"] show ?thesis
    using assms by (cases m) (simp add: DelCacheRsp_InternalParse_def
        DelCacheRsp_InternalSerialize_def DelCacheRsp_MergeFrom_def write_fields
        have_unknown_fields_def)
qed

lemma DelCacheReq_size:
  "\<not> have_unknown_fields a \<Longrightarrow>
   fst (DelCacheReq_ByteSizeLong rt a) = length (DelCacheReq_InternalSerialize rt a)"
  by (simp add: DelCacheReq_ByteSizeLong_def DelCacheReq_InternalSerialize_def write_fields sizes)

text \<open>The two bytes counted for the flag are right because \<open>true\<close> is a one-byte varint.\<close>

lemma DelCacheRsp_size:
  assumes "\<not> have_unknown_fields a"
  shows "fst (DelCacheRsp_ByteSizeLong rt a) = length (DelCacheRsp_InternalSerialize rt a)"
  using assms varint_byte [of 1]
  by (simp add: DelCacheRsp_ByteSizeLong_def DelCacheRsp_InternalSerialize_def write_fields)

lemma DelCacheReq_parse_returns: "DelCacheReq_InternalParse rt m ptr \<noteq> None"
  unfolding DelCacheReq_InternalParse_def
  by (rule parse_loop_returns)
    (auto simp: DelCacheReq_parse_field_def dest: varint64_no_gain split: if_splits prod.splits)

lemma DelCacheRsp_parse_returns: "DelCacheRsp_InternalParse rt m ptr \<noteq> None"
  unfolding DelCacheRsp_InternalParse_def
  by (rule parse_loop_returns)
    (auto simp: DelCacheRsp_parse_field_def dest: varint64_no_gain split: if_splits prod.splits)

end

end
