(* ===== verification/WireRef.thy ===== *)
theory WireRef
  imports PushMsgs PullMsgs DelCacheMsgs
begin

text \<open>
  A concrete wire runtime: base-128 varints, length-delimited values and the rest of the documented
  format, executable. It interprets the locales \<open>wire_runtime\<close> and \<open>push_runtime\<close>, which shows that
  what the message theories assume of the runtime can hold, and it is the runtime the witnesses
  run the message code on. It is not a model of the protobuf sources, which are not in the
  repository.
\<close>

section \<open>Varints\<close>

function base128 :: "nat \<Rightarrow> bytes" where
  "base128 n = (if n < 128 then [of_nat n] else of_nat (n mod 128 + 128) # base128 (n div 128))"
  by pat_completeness auto
termination
  by (relation "measure id") auto

declare base128.simps [simp del]

definition varint_ref :: "u64 \<Rightarrow> bytes" where
  "varint_ref v = base128 (unat v)"

text \<open>At most \<open>k\<close> bytes are read; a byte below 128 is the last one.\<close>

fun unbase128 :: "nat \<Rightarrow> bytes \<Rightarrow> (nat \<times> bytes) option" where
  "unbase128 0 bs = None"
| "unbase128 (Suc k) [] = None"
| "unbase128 (Suc k) (b # bs) =
     (if b < 128 then Some (unat b, bs)
      else (case unbase128 k bs of
              None \<Rightarrow> None
            | Some (n, r) \<Rightarrow> Some (unat b - 128 + 128 * n, r)))"

lemma base128_nonempty: "base128 n \<noteq> []"
  by (subst base128.simps) simp

lemma unbase128_base128:
  "n < 128 ^ k \<Longrightarrow> 0 < k \<Longrightarrow> unbase128 k (base128 n @ rest) = Some (n, rest)"
proof (induction n arbitrary: k rule: base128.induct)
  case (1 n)
  then obtain j where k: "k = Suc j" by (cases k) auto
  show ?case
  proof (cases "n < 128")
    case True
    then have "(of_nat n :: u8) < 128" "unat (of_nat n :: u8) = n"
      by (simp_all add: word_less_nat_alt unat_of_nat_small)
    with True show ?thesis by (simp add: base128.simps [of n] k)
  next
    case False
    have u: "unat (of_nat (n mod 128 + 128) :: u8) = n mod 128 + 128"
      by (rule unat_of_nat_small) simp
    then have ge: "\<not> (of_nat (n mod 128 + 128) :: u8) < 128"
      by (simp add: word_less_nat_alt del: of_nat_add)
    have "n div 128 < 128 ^ j" using "1.prems"(1) k by (simp add: less_mult_imp_div_less mult.commute)
    moreover have "0 < j" using False "1.prems"(1) k by (cases j) auto
    ultimately have "unbase128 j (base128 (n div 128) @ rest) = Some (n div 128, rest)"
      using "1.IH" False by simp
    with False u ge show ?thesis
      by (simp add: base128.simps [of n] k del: of_nat_add)
  qed
qed

lemma unbase128_consumes: "unbase128 k bs = Some (n, r) \<Longrightarrow> length r < length bs"
  by (induction k bs arbitrary: n rule: unbase128.induct)
    (auto split: if_splits option.splits)

lemma unbase128_varint_ref: "unbase128 10 (varint_ref v @ rest) = Some (unat v, rest)"
proof -
  have "unat v < 2 ^ 64" using unsigned_less [of v, where ?'a=nat] by simp
  then show ?thesis unfolding varint_ref_def by (intro unbase128_base128) simp_all
qed

lemma unbase128_varint_ref32:
  assumes "unat v < 2 ^ 32"
  shows "unbase128 5 (varint_ref v @ rest) = Some (unat v, rest)"
  using assms unfolding varint_ref_def by (intro unbase128_base128) simp_all

lemma base128_length: "n < 128 ^ k \<Longrightarrow> 0 < k \<Longrightarrow> length (base128 n) \<le> k"
proof (induction n arbitrary: k rule: base128.induct)
  case (1 n)
  then obtain j where k: "k = Suc j" by (cases k) auto
  show ?case
  proof (cases "n < 128")
    case False
    have "n div 128 < 128 ^ j"
      using "1.prems"(1) k by (simp add: less_mult_imp_div_less mult.commute)
    moreover have "0 < j" using False "1.prems"(1) k by (cases j) auto
    ultimately show ?thesis using "1.IH" False k by (subst base128.simps) simp
  qed (simp add: k base128.simps [of n])
qed

lemma varint_ref_length: "length (varint_ref v) \<le> 10"
  unfolding varint_ref_def
  by (rule base128_length) (use unsigned_less [of v, where ?'a = nat] in simp_all)

section \<open>Reading\<close>

text \<open>A length-delimited value: its bytes and what follows.\<close>

definition read_block :: "bytes \<Rightarrow> (bytes \<times> bytes) option" where
  "read_block bs =
     (case unbase128 5 bs of
        None \<Rightarrow> None
      | Some (n, r) \<Rightarrow> if n \<le> length r \<and> n < wire_max then Some (take n r, drop n r) else None)"

fun read_varints :: "nat \<Rightarrow> bytes \<Rightarrow> nat list option" where
  "read_varints 0 bs = (if bs = [] then Some [] else None)"
| "read_varints (Suc k) bs =
     (if bs = [] then Some []
      else (case unbase128 10 bs of
              None \<Rightarrow> None
            | Some (n, r) \<Rightarrow> map_option ((#) n) (read_varints k r)))"

definition read_packed :: "bytes \<Rightarrow> (nat list \<times> bytes) option" where
  "read_packed bs =
     (case read_block bs of
        None \<Rightarrow> None
      | Some (b, r) \<Rightarrow> map_option (\<lambda>ns. (ns, r)) (read_varints (length b) b))"

fun utf8 :: "bytes \<Rightarrow> bool" where
  "utf8 [] = True"
| "utf8 (a # bs) =
     (if a < 0x80 then utf8 bs
      else (case bs of
        [] \<Rightarrow> False
      | b # cs \<Rightarrow>
          if 0xC2 \<le> a \<and> a \<le> 0xDF then 0x80 \<le> b \<and> b \<le> 0xBF \<and> utf8 cs
          else (case cs of
            [] \<Rightarrow> False
          | c # ds \<Rightarrow>
              if 0xE0 \<le> a \<and> a \<le> 0xEF
              then (if a = 0xE0 then 0xA0 else 0x80) \<le> b \<and> b \<le> (if a = 0xED then 0x9F else 0xBF)
                \<and> 0x80 \<le> c \<and> c \<le> 0xBF \<and> utf8 ds
              else (case ds of
                [] \<Rightarrow> False
              | d # es \<Rightarrow>
                  0xF0 \<le> a \<and> a \<le> 0xF4
                  \<and> (if a = 0xF0 then 0x90 else 0x80) \<le> b \<and> b \<le> (if a = 0xF4 then 0x8F else 0xBF)
                  \<and> 0x80 \<le> c \<and> c \<le> 0xBF \<and> 0x80 \<le> d \<and> d \<le> 0xBF \<and> utf8 es))))"

text \<open>An unknown field keeps its tag and its payload; groups are refused.\<close>

type_synonym unknown_field = "u32 \<times> bytes"

definition skip_field :: "u32 \<Rightarrow> bytes \<Rightarrow> (bytes \<times> bytes) option" where
  "skip_field tag bs =
     (if tag AND 7 = 0 then map_option (\<lambda>(n, r). (base128 n, r)) (unbase128 10 bs)
      else if tag AND 7 = 1 then (if 8 \<le> length bs then Some (take 8 bs, drop 8 bs) else None)
      else if tag AND 7 = 2 then
        map_option (\<lambda>(b, r). (base128 (length b) @ b, r)) (read_block bs)
      else if tag AND 7 = 5 then (if 4 \<le> length bs then Some (take 4 bs, drop 4 bs) else None)
      else None)"

definition field_header :: "nat \<Rightarrow> bytes" where
  "field_header n = varint_ref (of_nat n)"

definition ref_rt :: "(unknown_field, 's) wire_rt" where
  "ref_rt = \<lparr>
     ReadTag = (\<lambda>bs. case unbase128 5 bs of None \<Rightarrow> (0, None) | Some (n, r) \<Rightarrow> (of_nat n, Some r)),
     ReadVarint64 =
       (\<lambda>bs. case unbase128 10 bs of None \<Rightarrow> (0, None) | Some (n, r) \<Rightarrow> (of_nat n, Some r)),
     ReadVarint32 =
       (\<lambda>bs. case unbase128 10 bs of None \<Rightarrow> (0, None) | Some (n, r) \<Rightarrow> (of_nat n, Some r)),
     InlineGreedyStringParser =
       (\<lambda>bs. case read_block bs of None \<Rightarrow> ([], None) | Some (b, r) \<Rightarrow> (b, Some r)),
     PackedUInt64Parser = (\<lambda>acc bs. case read_packed bs of
        None \<Rightarrow> (acc, None) | Some (ns, r) \<Rightarrow> (acc @ map of_nat ns, Some r)),
     PackedUInt32Parser = (\<lambda>acc bs. case read_packed bs of
        None \<Rightarrow> (acc, None) | Some (ns, r) \<Rightarrow> (acc @ map of_nat ns, Some r)),
     ParseMessage = (\<lambda>parse m bs. case read_block bs of
        None \<Rightarrow> Some (m, None)
      | Some (b, r) \<Rightarrow> (case parse m b of
           None \<Rightarrow> None
         | Some (m', AtLimit) \<Rightarrow> Some (m', Some r)
         | Some (m', _) \<Rightarrow> Some (m', None))),
     UnknownFieldParse = (\<lambda>tag us bs. case skip_field tag bs of
        None \<Rightarrow> (us, None) | Some (b, r) \<Rightarrow> (us @ [(tag, b)], Some r)),
     ExpectTag = (\<lambda>n bs. case bs of [] \<Rightarrow> False | b # _ \<Rightarrow> b = of_nat n),
     VerifyUTF8 = utf8,
     WriteUInt64ToArray = (\<lambda>f v. field_header (f * 8) @ varint_ref v),
     WriteInt32ToArray = (\<lambda>f e. field_header (f * 8) @ varint_ref (scast e)),
     WriteBoolToArray = (\<lambda>f b. field_header (f * 8) @ varint_ref (of_bool b)),
     WriteBytes = (\<lambda>f s. field_header (f * 8 + 2) @ varint_ref (of_nat (length s)) @ s),
     WriteString = (\<lambda>f s. field_header (f * 8 + 2) @ varint_ref (of_nat (length s)) @ s),
     WriteUInt64Packed =
       (\<lambda>f vs n. field_header (f * 8 + 2) @ varint_ref (ucast n) @ packed64 varint_ref vs),
     WriteUInt32Packed =
       (\<lambda>f vs n. field_header (f * 8 + 2) @ varint_ref (ucast n) @ packed32 varint_ref vs),
     InternalWriteMessage = (\<lambda>f n body. field_header (f * 8 + 2) @ varint_ref (ucast n) @ body),
     InternalSerializeUnknownFields =
       (\<lambda>us. concat (map (\<lambda>(tag, b). base128 (unat tag) @ b) us)),
     UInt64Size = (\<lambda>v. length (varint_ref v)),
     Int32Size = (\<lambda>e. length (varint_ref (scast e))),
     UInt64Sizes = (\<lambda>vs. length (packed64 varint_ref vs)),
     UInt32Sizes = (\<lambda>vs. length (packed32 varint_ref vs)),
     BytesSize = (\<lambda>s. length (varint_ref (of_nat (length s))) + length s),
     StringSize = (\<lambda>s. length (varint_ref (of_nat (length s))) + length s),
     MessageSize = (\<lambda>n. length (varint_ref (of_nat n)) + n),
     UnknownFieldsSize =
       (\<lambda>us. \<Sum>(tag, b)\<leftarrow>us. length (base128 (unat tag)) + length b) \<rparr>"

section \<open>It conforms\<close>

lemma read_block_written:
  assumes "length s < wire_max"
  shows "read_block (varint_ref (of_nat (length s)) @ s @ rest) = Some (s, rest)"
proof -
  have "unat (of_nat (length s) :: u64) = length s"
    using assms by (intro unat_of_nat_small) (simp add: wire_max_def)
  then have "unbase128 5 (varint_ref (of_nat (length s)) @ s @ rest) = Some (length s, s @ rest)"
    using assms by (simp add: unbase128_varint_ref32 wire_max_def)
  with assms show ?thesis by (simp add: read_block_def)
qed

lemma read_block_shrinks: "read_block bs = Some (b, r) \<Longrightarrow> length b + length r < length bs"
  by (auto simp: read_block_def dest!: unbase128_consumes split: option.splits if_splits)

lemma varint_ref_nonempty: "varint_ref v \<noteq> []"
  by (simp add: varint_ref_def base128_nonempty)

lemma read_varints_written:
  "length vs \<le> k \<Longrightarrow> read_varints k (concat (map varint_ref vs)) = Some (map unat vs)"
proof (induction vs arbitrary: k)
  case Nil
  then show ?case by (cases k) simp_all
next
  case (Cons v vs)
  then obtain j where k: "k = Suc j" by (cases k) auto
  with Cons show ?case
    by (simp add: unbase128_varint_ref varint_ref_nonempty)
qed

lemma length_concat_varint: "length vs \<le> length (concat (map varint_ref vs))"
proof (induction vs)
  case (Cons v vs)
  then show ?case using varint_ref_nonempty [of v] by (cases "varint_ref v") simp_all
qed simp

lemma read_packed_written:
  assumes "length (concat (map varint_ref vs)) < wire_max"
  shows "read_packed (varint_ref (of_nat (length (concat (map varint_ref vs))))
      @ concat (map varint_ref vs) @ rest) = Some (map unat vs, rest)"
  by (simp add: read_packed_def read_block_written [OF assms]
      read_varints_written [OF length_concat_varint])

lemma packed32_as_64: "packed32 varint_ref ws = concat (map varint_ref (map ucast ws))"
  by (simp add: packed32_def comp_def)

lemma skip_field_shrinks: "skip_field t bs = Some (b, r) \<Longrightarrow> length r \<le> length bs"
  by (auto simp: skip_field_def dest!: unbase128_consumes read_block_shrinks split: if_splits)

lemma read_packed_shrinks: "read_packed bs = Some (ns, r) \<Longrightarrow> length r \<le> length bs"
  by (auto simp: read_packed_def dest!: read_block_shrinks split: option.splits)

interpretation ref_wire: wire_runtime ref_rt varint_ref
proof (unfold_locales, goal_cases)
  case (1 v)
  then have "base128 (unat v) = [of_nat (unat v)]"
    by (simp add: base128.simps [of "unat v"] word_less_nat_alt)
  then show ?case by (simp add: varint_ref_def)
next
  case (2 t rest)
  have "unat (ucast t :: u64) = unat t" by simp
  moreover have "unat t < 2 ^ 32" using unsigned_less [of t, where ?'a=nat] by simp
  ultimately show ?case by (simp add: ref_rt_def unbase128_varint_ref32)
next
  case (7 ws acc32 rest)
  then show ?case
    using read_packed_written [of "map ucast ws" rest]
    by (simp add: ref_rt_def packed32_as_64 comp_def)
next
  case (32 p parse m)
  have "parse m b \<noteq> None" if "read_block p = Some (b, r)" for b r
    using 32 [of b] read_block_shrinks [OF that] by simp
  then show ?case
    by (auto simp: ref_rt_def split: option.splits parse_end.splits prod.splits)
qed (auto simp: ref_rt_def unbase128_varint_ref read_block_written packed64_def
    read_packed_written field_header_def comp_def varint_ref_length
    split: option.splits prod.splits parse_end.splits if_splits
    dest: unbase128_consumes read_block_shrinks skip_field_shrinks intro: read_packed_shrinks)

text \<open>The runtime of the service: its sub-messages are those of the push request.\<close>

abbreviation srv_rt :: "(unknown_field, unknown_field oneInfo) wire_rt" where
  "srv_rt \<equiv> ref_rt"

interpretation ref_push: push_runtime ref_rt varint_ref
  by unfold_locales

end
