(* ===== verification/WireProps.thy ===== *)
theory WireProps
  imports WireRef
begin

text \<open>
  The properties of the message code: round trips, concatenation, sizes, termination and the
  equivalence of the look-ahead loop, for every runtime that conforms to the wire format. Each
  hypothesis \<open>wire_runtime rt varint\<close> is discharged in the witness by \<open>ref_rt\<close>.
\<close>

section \<open>Example messages\<close>

definition ex_info :: "u64 \<Rightarrow> bytes \<Rightarrow> unknown_field oneInfo" where
  "ex_info k d = oneInfo_set_data d (oneInfo_set_key k oneInfo_SharedCtor)"

definition ex_push :: "unknown_field PushReq" where
  "ex_push = PushReq_SharedCtor\<lparr>PushReq_infos := [ex_info 300 [104, 105], ex_info 0 []]\<rparr>"

definition ex_pull :: "unknown_field PullReq" where
  "ex_pull = PullReq_add_field 4 (PullReq_add_keys 300 (PullReq_add_keys 7 PullReq_SharedCtor))"

definition ex_pull_rsp :: "unknown_field PullRsp" where
  "ex_pull_rsp = PullRsp_add_data [] (PullRsp_add_data [97] (PullRsp_set_errdesc [98]
     (PullRsp_set_errcode 5 PullRsp_SharedCtor)))"

lemma varint_ref_numeral [simp]:
  "varint_ref (numeral n) = base128 (unat (numeral n :: u64))"
  "varint_ref 0 = [0]" "varint_ref 1 = [1]"
  by (simp_all add: varint_ref_def base128.simps)

lemma ex_push_fits: "PushReq_fits srv_rt ex_push"
  by (simp add: PushReq_fits_def ex_push_def ex_info_def oneInfo_fits_def oneInfo_SharedCtor_def
      PushReq_SharedCtor_def oneInfo_set_key_def oneInfo_set_data_def have_unknown_fields_def
      oneInfo_InternalSerialize_def ref_rt_def field_header_def base128.simps wire_max_def)

lemma ex_pull_fits: "PullReq_fits srv_rt ex_pull"
  by (simp add: PullReq_fits_def ex_pull_def PullReq_SharedCtor_def PullReq_add_keys_def
      PullReq_add_field_def have_unknown_fields_def ref_rt_def packed64_def packed32_def
      base128.simps wire_max_def)

lemma ex_pull_rsp_fits: "PullRsp_fits srv_rt ex_pull_rsp"
  by (simp add: PullRsp_fits_def ex_pull_rsp_def PullRsp_SharedCtor_def PullRsp_add_data_def
      PullRsp_set_errdesc_def PullRsp_set_errcode_def have_unknown_fields_def ref_rt_def
      wire_max_def)

lemma ref_wire_conforms: "wire_runtime srv_rt varint_ref"
  by (rule ref_wire.wire_runtime_axioms)

lemma ref_push_conforms: "push_runtime srv_rt varint_ref"
  by (rule ref_push.push_runtime_axioms)

section \<open>Properties\<close>

text \<open>
  C13. Round trip of a push request: a message without unknown fields and within the length limit
  is serialised (with the sub-message sizes that \<open>ByteSizeLong\<close> cached) to bytes that
  \<open>_InternalParse\<close> reads to the end and merges into the receiving message.
\<close>

theorem push_request_roundtrip:
  assumes "push_runtime rt varint" and "PushReq_fits rt a"
  shows "PushReq_InternalParse rt m (PushReq_InternalSerialize rt (snd (PushReq_ByteSizeLong rt a)))
       = Some (PushReq_MergeFrom m a, AtLimit)"
  by (rule push_runtime.PushReq_parse_serialized [OF assms])

theorem push_request_roundtrip_witness:
  "PushReq_InternalParse srv_rt PushReq_SharedCtor
     (PushReq_InternalSerialize srv_rt (snd (PushReq_ByteSizeLong srv_rt ex_push)))
   = Some (PushReq_MergeFrom PushReq_SharedCtor ex_push, AtLimit)"
  by (rule push_request_roundtrip [OF ref_push_conforms ex_push_fits])

text \<open>
  Round trip of a pull request, whose packed keys and fields are written with the byte sizes
  that \<open>ByteSizeLong\<close> cached before.
\<close>

theorem pull_request_roundtrip:
  assumes "wire_runtime rt varint" and "PullReq_fits rt a"
  shows "PullReq_InternalParse rt m (PullReq_InternalSerialize rt (snd (PullReq_ByteSizeLong rt a)))
       = Some (PullReq_MergeFrom m a, AtLimit)"
  by (rule wire_runtime.PullReq_parse_serialized [OF assms])

theorem pull_request_roundtrip_witness:
  "PullReq_InternalParse srv_rt PullReq_SharedCtor
     (PullReq_InternalSerialize srv_rt (snd (PullReq_ByteSizeLong srv_rt ex_pull)))
   = Some (PullReq_MergeFrom PullReq_SharedCtor ex_pull, AtLimit)"
  by (rule pull_request_roundtrip [OF ref_wire_conforms ex_pull_fits])

text \<open>
  C14. Round trip of a pull response: error code, UTF-8 description and the repeated data, empty
  strings among the data included.
\<close>

theorem pull_response_roundtrip:
  assumes "wire_runtime rt varint" and "PullRsp_fits rt a"
  shows "PullRsp_InternalParse rt m (PullRsp_InternalSerialize rt a)
       = Some (PullRsp_MergeFrom m a, AtLimit)"
  by (rule wire_runtime.PullRsp_parse_serialized [OF assms])

theorem pull_response_roundtrip_witness:
  "PullRsp_InternalParse srv_rt PullRsp_SharedCtor (PullRsp_InternalSerialize srv_rt ex_pull_rsp)
   = Some (PullRsp_MergeFrom PullRsp_SharedCtor ex_pull_rsp, AtLimit)"
  by (rule pull_response_roundtrip [OF ref_wire_conforms ex_pull_rsp_fits])

text \<open>
  Round trip of the push response and of both delete-from-cache messages.
\<close>

theorem small_messages_roundtrip:
  assumes "wire_runtime rt varint" and "PushRsp_fits rt a"
    and "\<not> have_unknown_fields b" and "\<not> have_unknown_fields c"
  shows "PushRsp_InternalParse rt m (PushRsp_InternalSerialize rt a)
         = Some (PushRsp_MergeFrom m a, AtLimit)
       \<and> DelCacheReq_InternalParse rt n (DelCacheReq_InternalSerialize rt b)
         = Some (DelCacheReq_MergeFrom n b, AtLimit)
       \<and> DelCacheRsp_InternalParse rt r (DelCacheRsp_InternalSerialize rt c)
         = Some (DelCacheRsp_MergeFrom r c, AtLimit)"
  using wire_runtime.PushRsp_parse_serialized [OF assms(1,2)]
    wire_runtime.DelCacheReq_parse_serialized [OF assms(1,3)]
    wire_runtime.DelCacheRsp_parse_serialized [OF assms(1,4)]
  by blast

definition ex_push_rsp :: "unknown_field PushRsp" where
  "ex_push_rsp = PushRsp_set_errdesc [0xC3, 0xA9] (PushRsp_set_errcode (- 2) PushRsp_SharedCtor)"

definition ex_del :: "unknown_field DelCacheReq" where
  "ex_del = DelCacheReq_set_key 300 DelCacheReq_SharedCtor"

definition ex_del_rsp :: "unknown_field DelCacheRsp" where
  "ex_del_rsp = DelCacheRsp_set_succ True DelCacheRsp_SharedCtor"

lemma ex_push_rsp_fits: "PushRsp_fits srv_rt ex_push_rsp"
  by (simp add: PushRsp_fits_def ex_push_rsp_def PushRsp_SharedCtor_def PushRsp_set_errdesc_def
      PushRsp_set_errcode_def have_unknown_fields_def ref_rt_def wire_max_def)

lemma ex_del_plain: "\<not> have_unknown_fields ex_del" "\<not> have_unknown_fields ex_del_rsp"
  by (simp_all add: ex_del_def ex_del_rsp_def DelCacheReq_SharedCtor_def DelCacheReq_set_key_def
      DelCacheRsp_SharedCtor_def DelCacheRsp_set_succ_def have_unknown_fields_def)

theorem small_messages_roundtrip_witness:
  "PushRsp_InternalParse srv_rt PushRsp_SharedCtor (PushRsp_InternalSerialize srv_rt ex_push_rsp)
     = Some (PushRsp_MergeFrom PushRsp_SharedCtor ex_push_rsp, AtLimit)
   \<and> DelCacheReq_InternalParse srv_rt DelCacheReq_SharedCtor
       (DelCacheReq_InternalSerialize srv_rt ex_del)
     = Some (DelCacheReq_MergeFrom DelCacheReq_SharedCtor ex_del, AtLimit)
   \<and> DelCacheRsp_InternalParse srv_rt DelCacheRsp_SharedCtor
       (DelCacheRsp_InternalSerialize srv_rt ex_del_rsp)
     = Some (DelCacheRsp_MergeFrom DelCacheRsp_SharedCtor ex_del_rsp, AtLimit)"
  by (rule small_messages_roundtrip [OF ref_wire_conforms ex_push_rsp_fits ex_del_plain])

text \<open>
  Concatenation: two serialised push requests sent one after the other are read as one
  request that merges both.
\<close>

theorem push_requests_concatenate:
  assumes "push_runtime rt varint" and "PushReq_fits rt a" and "PushReq_fits rt b"
  shows "PushReq_InternalParse rt m
      (PushReq_InternalSerialize rt (snd (PushReq_ByteSizeLong rt a)) @
       PushReq_InternalSerialize rt (snd (PushReq_ByteSizeLong rt b)))
    = Some (PushReq_MergeFrom (PushReq_MergeFrom m a) b, AtLimit)"
  using push_runtime.PushReq_parse_append [OF assms(1,2)]
    push_runtime.PushReq_parse_serialized [OF assms(1,3)]
  by (simp add: PushReq_InternalParse_def)

theorem push_requests_concatenate_witness:
  "PushReq_InternalParse srv_rt PushReq_SharedCtor
      (PushReq_InternalSerialize srv_rt (snd (PushReq_ByteSizeLong srv_rt ex_push)) @
       PushReq_InternalSerialize srv_rt (snd (PushReq_ByteSizeLong srv_rt ex_push)))
    = Some (PushReq_MergeFrom (PushReq_MergeFrom PushReq_SharedCtor ex_push) ex_push, AtLimit)"
  by (rule push_requests_concatenate [OF ref_push_conforms ex_push_fits ex_push_fits])

text \<open>
  C15. The look-ahead of the generated do-while loop (reading the next tag byte without going
  through \<open>ReadTag\<close>) never changes the result, on any input, malformed input included.
\<close>

theorem push_lookahead_is_plain_loop:
  assumes "push_runtime rt varint"
  shows "PushReq_InternalParse rt m ptr = parse_loop rt (PushReq_plain_field rt) m ptr"
  by (simp add: PushReq_InternalParse_def push_runtime.PushReq_lookahead_equiv [OF assms])

theorem push_lookahead_is_plain_loop_witness:
  "PushReq_InternalParse srv_rt ex_push [10, 0, 10, 2, 8, 5, 18]
     = parse_loop srv_rt (PushReq_plain_field srv_rt) ex_push [10, 0, 10, 2, 8, 5, 18]"
  by (rule push_lookahead_is_plain_loop [OF ref_push_conforms])

text \<open>
  C16. Every generated parser returns, on every input and from every message, whatever the bytes.
\<close>

theorem parsers_return:
  assumes "push_runtime rt varint"
  shows "oneInfo_InternalParse rt a p \<noteq> None \<and> PushReq_InternalParse rt b p \<noteq> None
    \<and> PushRsp_InternalParse rt c p \<noteq> None \<and> PullReq_InternalParse rt d p \<noteq> None
    \<and> PullRsp_InternalParse rt e p \<noteq> None \<and> DelCacheReq_InternalParse rt f p \<noteq> None
    \<and> DelCacheRsp_InternalParse rt g p \<noteq> None"
proof -
  note wire = push_runtime.axioms [OF assms]
  show ?thesis
    using wire_runtime.oneInfo_parse_returns [OF wire] push_runtime.PushReq_parse_returns [OF assms]
      wire_runtime.PushRsp_parse_returns [OF wire] wire_runtime.PullReq_parse_returns [OF wire]
      wire_runtime.PullRsp_parse_returns [OF wire] wire_runtime.DelCacheReq_parse_returns [OF wire]
      wire_runtime.DelCacheRsp_parse_returns [OF wire]
    by simp
qed

theorem parsers_return_witness:
  "oneInfo_InternalParse srv_rt oneInfo_SharedCtor [255] \<noteq> None
    \<and> PushReq_InternalParse srv_rt PushReq_SharedCtor [255] \<noteq> None
    \<and> PushRsp_InternalParse srv_rt PushRsp_SharedCtor [255] \<noteq> None
    \<and> PullReq_InternalParse srv_rt PullReq_SharedCtor [255] \<noteq> None
    \<and> PullRsp_InternalParse srv_rt PullRsp_SharedCtor [255] \<noteq> None
    \<and> DelCacheReq_InternalParse srv_rt DelCacheReq_SharedCtor [255] \<noteq> None
    \<and> DelCacheRsp_InternalParse srv_rt DelCacheRsp_SharedCtor [255] \<noteq> None"
  by (rule parsers_return [OF ref_push_conforms])

text \<open>
  \<open>ByteSizeLong\<close> announces exactly the number of bytes that \<open>_InternalSerialize\<close> writes
  afterwards (the runtime allocates the output from it), for the messages with nested or packed
  fields and for the pull response.
\<close>

theorem byte_sizes_exact:
  assumes "push_runtime rt varint" and "PushReq_fits rt a" and "PullReq_fits rt b"
    and "\<not> have_unknown_fields c"
  shows "fst (PushReq_ByteSizeLong rt a)
         = length (PushReq_InternalSerialize rt (snd (PushReq_ByteSizeLong rt a)))
       \<and> fst (PullReq_ByteSizeLong rt b)
         = length (PullReq_InternalSerialize rt (snd (PullReq_ByteSizeLong rt b)))
       \<and> fst (PullRsp_ByteSizeLong rt c) = length (PullRsp_InternalSerialize rt c)"
  using push_runtime.PushReq_size_serialized [OF assms(1,2)]
    wire_runtime.PullReq_size_serialized [OF push_runtime.axioms [OF assms(1)] assms(3)]
    wire_runtime.PullRsp_size [OF push_runtime.axioms [OF assms(1)] assms(4)]
  by blast

lemma ex_pull_rsp_plain: "\<not> have_unknown_fields ex_pull_rsp"
  using ex_pull_rsp_fits unfolding PullRsp_fits_def by blast

theorem byte_sizes_exact_witness:
  "fst (PushReq_ByteSizeLong srv_rt ex_push)
     = length (PushReq_InternalSerialize srv_rt (snd (PushReq_ByteSizeLong srv_rt ex_push)))
   \<and> fst (PullReq_ByteSizeLong srv_rt ex_pull)
     = length (PullReq_InternalSerialize srv_rt (snd (PullReq_ByteSizeLong srv_rt ex_pull)))
   \<and> fst (PullRsp_ByteSizeLong srv_rt ex_pull_rsp)
     = length (PullRsp_InternalSerialize srv_rt ex_pull_rsp)"
  by (rule byte_sizes_exact [OF ref_push_conforms ex_push_fits ex_pull_fits ex_pull_rsp_plain])

text \<open>
  Keys sent unpacked, one tag for each, are read like packed ones.
\<close>

theorem pull_keys_unpacked:
  assumes "wire_runtime rt varint"
  shows "PullReq_InternalParse rt m (concat (map (\<lambda>v. 8 # varint v) vs))
       = Some (m\<lparr>PullReq_keys := PullReq_keys m @ vs\<rparr>, AtLimit)"
  using wire_runtime.PullReq_unpacked_keys [OF assms, of m vs "[]"]
  by (simp add: PullReq_InternalParse_def)

theorem pull_keys_unpacked_witness:
  "PullReq_InternalParse srv_rt ex_pull (concat (map (\<lambda>v. 8 # varint_ref v) [1, 300]))
     = Some (ex_pull\<lparr>PullReq_keys := PullReq_keys ex_pull @ [1, 300]\<rparr>, AtLimit)"
  by (rule pull_keys_unpacked [OF ref_wire_conforms])

text \<open>
  A description that is not UTF-8 fails the parse of a response: the string is stored, the
  pointer becomes null, and nothing after it is read.
\<close>

theorem bad_utf8_rejected:
  assumes "wire_runtime rt varint" and "length s < wire_max" and "\<not> VerifyUTF8 rt s"
  shows "PullRsp_InternalParse rt m (WriteString rt 2 s @ rest)
         = Some (m\<lparr>PullRsp_errdesc := s\<rparr>, NullPtr)
       \<and> PushRsp_InternalParse rt n (WriteString rt 2 s @ rest)
         = Some (n\<lparr>PushRsp_errdesc := s\<rparr>, NullPtr)"
  unfolding PullRsp_InternalParse_def PushRsp_InternalParse_def
  by (subst (1 2) parse_loop.simps)
    (use assms in \<open>simp add: wire_runtime.write_fields wire_runtime.read_tags
      wire_runtime.read_string PullRsp_parse_field_def PushRsp_parse_field_def\<close>)

theorem bad_utf8_rejected_witness:
  "PullRsp_InternalParse srv_rt PullRsp_SharedCtor (WriteString srv_rt 2 [0x80] @ [8, 1])
     = Some (PullRsp_SharedCtor\<lparr>PullRsp_errdesc := [0x80]\<rparr>, NullPtr)
   \<and> PushRsp_InternalParse srv_rt PushRsp_SharedCtor (WriteString srv_rt 2 [0x80] @ [8, 1])
     = Some (PushRsp_SharedCtor\<lparr>PushRsp_errdesc := [0x80]\<rparr>, NullPtr)"
  by (rule bad_utf8_rejected [OF ref_wire_conforms]) (simp_all add: ref_rt_def wire_max_def)

text \<open>
  A body sent with its terminating NUL byte is still read in full: the parse ends at the tag 0
  that follows the message, with the message merged.
\<close>

theorem push_request_trailing_nul:
  assumes "push_runtime rt varint" and "PushReq_fits rt a"
  shows "PushReq_InternalParse rt m
      (PushReq_InternalSerialize rt (snd (PushReq_ByteSizeLong rt a)) @ 0 # rest)
    = Some (PushReq_MergeFrom m a, AtTag 0 rest)"
proof -
  note wire = push_runtime.axioms [OF assms(1)]
  have "parse_loop rt (PushReq_parse_field rt) n (0 # rest) = Some (n, AtTag 0 rest)" for n
    by (rule parse_loop_stop [OF wire_runtime.read_tags(1) [OF wire]])
      (simp_all add: PushReq_parse_field_def)
  then show ?thesis
    using push_runtime.PushReq_parse_append [OF assms] by (simp add: PushReq_InternalParse_def)
qed

theorem push_request_trailing_nul_witness:
  "PushReq_InternalParse srv_rt PushReq_SharedCtor
      (PushReq_InternalSerialize srv_rt (snd (PushReq_ByteSizeLong srv_rt ex_push)) @ 0 # [1])
    = Some (PushReq_MergeFrom PushReq_SharedCtor ex_push, AtTag 0 [1])"
  by (rule push_request_trailing_nul [OF ref_push_conforms ex_push_fits])

end
