(* ===== verification/Msg.thy ===== *)
theory Msg
  imports WireRef
begin

text \<open>
  The request in memory (feature-server/service/Msg.h and Msg.cpp): \<open>InOutMsg\<close> decodes the body
  of a request of a given type into a list of keys with data, lets the handler fill the data in,
  and encodes the response. It calls the generated messages through the library's
  \<open>ParseFromString\<close> and \<open>SerializeToString\<close>, parameters here; the locale \<open>pb_runtime\<close> says how
  the library drives the generated \<open>_InternalParse\<close>, \<open>ByteSizeLong\<close> and \<open>_InternalSerialize\<close>.
\<close>

section \<open>The library's entry points\<close>

record 'u pb_api =
  PushReq_ParseFromString :: "'u PushReq \<Rightarrow> bytes \<Rightarrow> bool \<times> 'u PushReq"
  PullReq_ParseFromString :: "'u PullReq \<Rightarrow> bytes \<Rightarrow> bool \<times> 'u PullReq"
  DelCacheReq_ParseFromString :: "'u DelCacheReq \<Rightarrow> bytes \<Rightarrow> bool \<times> 'u DelCacheReq"
  PullRsp_SerializeToString :: "'u PullRsp \<Rightarrow> bytes"
  PushRsp_SerializeToString :: "'u PushRsp \<Rightarrow> bytes"

text \<open>\<open>folly::to<fbstring>\<close> on an integer, and the order in which an F14 set is iterated.\<close>

record folly_api =
  to_fbstring :: "u64 \<Rightarrow> bytes"
  f14_order :: "u64 set \<Rightarrow> u64 list"

section \<open>InOutMsg\<close>

datatype MsgType = Push | Pull | DelCache | Unknow

record DataInfo =
  info_id :: u64
  info_d :: bytes

record InOutMsg =
  msg_infos :: "DataInfo list"
  msg_fields :: "u64 set"
  msg_t :: MsgType

text \<open>
  The result of \<open>ParseFromString\<close> is not looked at: a malformed body leaves what was parsed before
  the error.
\<close>

definition InOutMsg_ctor :: "'u pb_api \<Rightarrow> bytes \<Rightarrow> MsgType \<Rightarrow> InOutMsg" where
  "InOutMsg_ctor pb d t =
     (let this = \<lparr>msg_infos = [], msg_fields = {}, msg_t = t\<rparr>
      in case t of
        Push \<Rightarrow>
          (let (ok, req) = PushReq_ParseFromString pb PushReq_SharedCtor d
           in this\<lparr>msg_infos :=
                map (\<lambda>onei. \<lparr>info_id = oneInfo_key onei, info_d = oneInfo_data onei\<rparr>)
                  (PushReq_infos req)\<rparr>)
      | Pull \<Rightarrow>
          (let (ok, req) = PullReq_ParseFromString pb PullReq_SharedCtor d
           in this\<lparr>msg_infos := map (\<lambda>k. \<lparr>info_id = k, info_d = []\<rparr>) (PullReq_keys req),
                msg_fields := foldl (\<lambda>s x. insert (ucast x) s) {} (PullReq_field req)\<rparr>)
      | DelCache \<Rightarrow>
          (let (ok, req) = DelCacheReq_ParseFromString pb DelCacheReq_SharedCtor d
           in this\<lparr>msg_infos := [\<lparr>info_id = DelCacheReq_key req, info_d = []\<rparr>]\<rparr>)
      | Unknow \<Rightarrow> this)"

definition InOutMsg_show :: "folly_api \<Rightarrow> InOutMsg \<Rightarrow> bytes" where
  "InOutMsg_show folly m =
     concat (map (\<lambda>i. to_fbstring folly (info_id i) @ ascii '':'' @ info_d i @ ascii '','') (msg_infos m))
     @ [10]
     @ concat (map (\<lambda>x. to_fbstring folly x @ ascii '','') (f14_order folly (msg_fields m)))"

definition InOutMsg_getInfos :: "InOutMsg \<Rightarrow> DataInfo list" where
  "InOutMsg_getInfos m = msg_infos m"

definition InOutMsg_getPullIds :: "InOutMsg \<Rightarrow> u64 list" where
  "InOutMsg_getPullIds m = map info_id (msg_infos m)"

definition InOutMsg_setPullData :: "nat \<Rightarrow> bytes \<Rightarrow> InOutMsg \<Rightarrow> InOutMsg res" where
  "InOutMsg_setPullData i d m =
     (if i < length (msg_infos m)
      then Inr (m\<lparr>msg_infos := (msg_infos m)[i := (msg_infos m ! i)\<lparr>info_d := d\<rparr>]\<rparr>)
      else Inl OutOfRange)"

text \<open>The delete-from-cache response is filled in but never serialised.\<close>

definition InOutMsg_EncodeRsp :: "'u pb_api \<Rightarrow> i32 \<Rightarrow> InOutMsg \<Rightarrow> bytes" where
  "InOutMsg_EncodeRsp pb errcode m =
     (let ret = []
      in case msg_t m of
        Pull \<Rightarrow>
          (let rsp = PullRsp_SharedCtor;
               rsp = (if errcode \<noteq> 0 then PullRsp_set_errcode errcode rsp
                      else foldl (\<lambda>r v. PullRsp_add_data (info_d v) r) rsp (msg_infos m))
           in PullRsp_SerializeToString pb rsp)
      | Push \<Rightarrow>
          (let rsp = PushRsp_SharedCtor;
               rsp = (if errcode \<noteq> 0 then PushRsp_set_errcode errcode rsp else rsp)
           in PushRsp_SerializeToString pb rsp)
      | DelCache \<Rightarrow>
          (let rsp = (DelCacheRsp_SharedCtor :: 'u DelCacheRsp);
               rsp = (if errcode = 0 then DelCacheRsp_set_succ True rsp else rsp)
           in ret)
      | Unknow \<Rightarrow> ret)"

section \<open>The type of a message\<close>

text \<open>
  What a message of each type looks like: only a pull has fields, a delete has one key, a message of
  an unknown type is empty.
\<close>

fun typed :: "MsgType \<Rightarrow> InOutMsg \<Rightarrow> bool" where
  "typed Push m = (msg_t m = Push \<and> msg_fields m = {})"
| "typed Pull m = (msg_t m = Pull \<and> finite (msg_fields m))"
| "typed DelCache m = (msg_t m = DelCache \<and> length (msg_infos m) = 1 \<and> msg_fields m = {})"
| "typed Unknow m = (msg_t m = Unknow \<and> msg_infos m = [] \<and> msg_fields m = {})"

text \<open>A sequence of \<open>setPullData\<close> calls, which ends at the first that is out of range.\<close>

fun fill_all :: "(nat \<times> bytes) list \<Rightarrow> InOutMsg \<Rightarrow> InOutMsg res" where
  "fill_all [] m = Inr m"
| "fill_all ((i, d) # xs) m = res_bind (InOutMsg_setPullData i d m) (fill_all xs)"

lemma ctor_typed: "typed t (InOutMsg_ctor pb d t)"
  by (cases t) (simp_all add: InOutMsg_ctor_def split_beta Let_def foldl_insert)

lemma set_typed:
  assumes "InOutMsg_setPullData i d m = Inr m'" and "typed t m"
  shows "typed t m' \<and> InOutMsg_getPullIds m' = InOutMsg_getPullIds m"
  using assms by (cases t)
    (auto simp: InOutMsg_setPullData_def InOutMsg_getPullIds_def map_update list_update_same_conv split: if_splits)

lemma fill_all_typed:
  "typed t m \<Longrightarrow> (case fill_all xs m of
     Inl e \<Rightarrow> e = OutOfRange \<and> (\<exists>x\<in>set xs. length (InOutMsg_getPullIds m) \<le> fst x)
   | Inr m' \<Rightarrow> typed t m' \<and> InOutMsg_getPullIds m' = InOutMsg_getPullIds m
       \<and> (\<forall>x\<in>set xs. fst x < length (InOutMsg_getPullIds m)))"
proof (induction xs m rule: fill_all.induct)
  case (2 i d xs m)
  show ?case
  proof (cases "i < length (msg_infos m)")
    case True
    then obtain m1 where m1: "InOutMsg_setPullData i d m = Inr m1" by (simp add: InOutMsg_setPullData_def)
    with set_typed [OF m1 2(2)] 2(1) [OF m1] True show ?thesis
      by (auto simp: InOutMsg_getPullIds_def split: sum.splits)
  qed (simp add: InOutMsg_setPullData_def InOutMsg_getPullIds_def)
qed simp

section \<open>How the library drives the generated code\<close>

text \<open>
  Parsing clears the message, runs \<open>_InternalParse\<close> on all the bytes and succeeds when it ends at
  the limit; serialising sizes the message first and gives up above \<open>INT_MAX\<close> bytes.
\<close>

locale pb_runtime = push_runtime rt varint
  for rt :: "('u, 'u oneInfo) wire_rt" and varint :: "u64 \<Rightarrow> bytes" +
  fixes pb :: "'u pb_api"
  assumes parse_push: "PushReq_InternalParse rt (PushReq_Clear m1) b = Some (m1', e) \<Longrightarrow>
      PushReq_ParseFromString pb m1 b = (e = AtLimit, m1')"
    and parse_pull: "PullReq_InternalParse rt (PullReq_Clear m2) b = Some (m2', e) \<Longrightarrow>
      PullReq_ParseFromString pb m2 b = (e = AtLimit, m2')"
    and parse_del: "DelCacheReq_InternalParse rt (DelCacheReq_Clear m3) b = Some (m3', e) \<Longrightarrow>
      DelCacheReq_ParseFromString pb m3 b = (e = AtLimit, m3')"
    and serialize_pull: "fst (PullRsp_ByteSizeLong rt r1) < 2 ^ 31 \<Longrightarrow>
      PullRsp_SerializeToString pb r1 = PullRsp_InternalSerialize rt (snd (PullRsp_ByteSizeLong rt r1))"
    and serialize_push: "fst (PushRsp_ByteSizeLong rt r2) < 2 ^ 31 \<Longrightarrow>
      PushRsp_SerializeToString pb r2 = PushRsp_InternalSerialize rt (snd (PushRsp_ByteSizeLong rt r2))"
begin

lemma clear_fresh [simp]:
  "PushReq_Clear PushReq_SharedCtor = PushReq_SharedCtor"
  "PullReq_Clear PullReq_SharedCtor = PullReq_SharedCtor"
  "DelCacheReq_Clear DelCacheReq_SharedCtor = DelCacheReq_SharedCtor"
  by (simp_all add: PushReq_Clear_def PushReq_SharedCtor_def PullReq_Clear_def
      PullReq_SharedCtor_def DelCacheReq_Clear_def DelCacheReq_SharedCtor_def)

lemma decode_push:
  assumes "PushReq_InternalParse rt PushReq_SharedCtor b = Some (req, e)"
  shows "InOutMsg_ctor pb b Push =
    \<lparr>msg_infos = map (\<lambda>i. \<lparr>info_id = oneInfo_key i, info_d = oneInfo_data i\<rparr>) (PushReq_infos req),
     msg_fields = {}, msg_t = Push\<rparr>"
  using parse_push [of PushReq_SharedCtor b req e] assms
  by (simp add: InOutMsg_ctor_def Let_def)

lemma decode_pull:
  assumes "PullReq_InternalParse rt PullReq_SharedCtor b = Some (req, e)"
  shows "msg_infos (InOutMsg_ctor pb b Pull) = map (\<lambda>k. \<lparr>info_id = k, info_d = []\<rparr>) (PullReq_keys req)"
    and "msg_fields (InOutMsg_ctor pb b Pull) = ucast ` set (PullReq_field req)"
    and "msg_t (InOutMsg_ctor pb b Pull) = Pull"
  using parse_pull [of PullReq_SharedCtor b req e] assms
  by (simp_all add: InOutMsg_ctor_def Let_def foldl_insert)

lemma decode_del:
  assumes "DelCacheReq_InternalParse rt DelCacheReq_SharedCtor b = Some (req, e)"
  shows "InOutMsg_ctor pb b DelCache =
    \<lparr>msg_infos = [\<lparr>info_id = DelCacheReq_key req, info_d = []\<rparr>], msg_fields = {}, msg_t = DelCache\<rparr>"
  using parse_del [of DelCacheReq_SharedCtor b req e] assms
  by (simp add: InOutMsg_ctor_def Let_def)

lemma foldl_add_data:
  "foldl (\<lambda>r v. PullRsp_add_data (info_d v) r) r vs = r\<lparr>PullRsp_data := PullRsp_data r @ map info_d vs\<rparr>"
  by (induction vs arbitrary: r) (simp_all add: PullRsp_add_data_def)

text \<open>A pull response whose encoding stays within the runtime's length limit.\<close>

definition encodable :: "InOutMsg \<Rightarrow> bool" where
  "encodable m =
     (fst (PullRsp_ByteSizeLong rt (PullRsp_SharedCtor\<lparr>PullRsp_data := map info_d (msg_infos m)\<rparr>))
      < wire_max)"

lemma encodable_short: "encodable m \<Longrightarrow> i \<in> set (msg_infos m) \<Longrightarrow> length (info_d i) < wire_max"
  using member_le_sum_list [of "length (info_d i)" "map (\<lambda>i. length (info_d i)) (msg_infos m)"]
    sum_list_mono [of "msg_infos m" "\<lambda>i. length (info_d i)" "\<lambda>i. BytesSize rt (info_d i)"]
  by (auto simp: encodable_def PullRsp_ByteSizeLong_def PullRsp_SharedCtor_def have_unknown_fields_def
      sizes comp_def Let_def)

lemma encode_pull:
  assumes "msg_t m = Pull" and "encodable m"
  shows "PullRsp_InternalParse rt PullRsp_SharedCtor (InOutMsg_EncodeRsp pb 0 m)
    = Some (PullRsp_SharedCtor\<lparr>PullRsp_data := map info_d (msg_infos m)\<rparr>, AtLimit)"
proof -
  let ?r = "PullRsp_SharedCtor\<lparr>PullRsp_data := map info_d (msg_infos m)\<rparr> :: 'u PullRsp"
  have add: "foldl (\<lambda>r v. PullRsp_add_data (info_d v) r) PullRsp_SharedCtor (msg_infos m) = ?r"
    by (simp add: foldl_add_data) (simp add: PullRsp_SharedCtor_def)
  have "snd (PullRsp_ByteSizeLong rt ?r) = ?r\<lparr>cached_size := ToCachedSize (fst (PullRsp_ByteSizeLong rt ?r))\<rparr>"
    by (simp add: PullRsp_ByteSizeLong_def Let_def)
  moreover have "PullRsp_InternalSerialize rt (r\<lparr>cached_size := n\<rparr>) = PullRsp_InternalSerialize rt r" for r n
    by (simp add: PullRsp_InternalSerialize_def have_unknown_fields_def)
  ultimately have enc: "InOutMsg_EncodeRsp pb 0 m = PullRsp_InternalSerialize rt ?r"
    using assms serialize_pull [of ?r] add
    by (simp add: InOutMsg_EncodeRsp_def encodable_def wire_max_def)
  have "PullRsp_fits rt ?r"
    using encodable_short [OF assms(2)]
    by (auto simp: PullRsp_fits_def PullRsp_SharedCtor_def have_unknown_fields_def empty_is_utf8
        list_all_iff wire_max_def)
  then show ?thesis
    unfolding enc by (simp add: PullRsp_parse_serialized PullRsp_MergeFrom_default)
      (simp add: PullRsp_SharedCtor_def)
qed

lemma encode_push:
  assumes "msg_t m = Push"
  shows "PushRsp_InternalParse rt PushRsp_SharedCtor (InOutMsg_EncodeRsp pb e m)
    = Some (PushRsp_SharedCtor\<lparr>PushRsp_errcode := e\<rparr>, AtLimit)"
proof -
  let ?r = "(if e \<noteq> 0 then PushRsp_set_errcode e PushRsp_SharedCtor else PushRsp_SharedCtor) :: 'u PushRsp"
  have r: "?r = PushRsp_SharedCtor\<lparr>PushRsp_errcode := e\<rparr>"
    by (simp add: PushRsp_set_errcode_def PushRsp_SharedCtor_def)
  have "fst (PushRsp_ByteSizeLong rt ?r) < 2 ^ 31"
    using varint_length [of "scast e"]
    by (simp add: PushRsp_ByteSizeLong_def PushRsp_SharedCtor_def PushRsp_set_errcode_def
        have_unknown_fields_def sizes)
  moreover have "snd (PushRsp_ByteSizeLong rt ?r)
      = ?r\<lparr>cached_size := ToCachedSize (fst (PushRsp_ByteSizeLong rt ?r))\<rparr>"
    by (simp add: PushRsp_ByteSizeLong_def Let_def)
  moreover have "PushRsp_InternalSerialize rt (q\<lparr>cached_size := n\<rparr>) = PushRsp_InternalSerialize rt q" for q n
    by (simp add: PushRsp_InternalSerialize_def have_unknown_fields_def)
  ultimately have enc: "InOutMsg_EncodeRsp pb e m = PushRsp_InternalSerialize rt ?r"
    using assms serialize_push [of ?r] by (simp add: InOutMsg_EncodeRsp_def Let_def)
  have "PushRsp_fits rt ?r"
    unfolding r by (simp add: PushRsp_fits_def PushRsp_SharedCtor_def have_unknown_fields_def
        empty_is_utf8 wire_max_def)
  then show ?thesis
    unfolding enc r by (simp add: PushRsp_parse_serialized PushRsp_MergeFrom_default)
      (simp add: PushRsp_SharedCtor_def)
qed

end

section \<open>A concrete library\<close>

definition ref_parse :: "('m \<Rightarrow> bytes \<Rightarrow> ('m \<times> parse_end) option) \<Rightarrow> 'm \<Rightarrow> bytes \<Rightarrow> bool \<times> 'm" where
  "ref_parse parse m b = (case parse m b of None \<Rightarrow> (False, m) | Some (m', e) \<Rightarrow> (e = AtLimit, m'))"

definition ref_pb :: "unknown_field pb_api" where
  "ref_pb =
     \<lparr>PushReq_ParseFromString = (\<lambda>m. ref_parse (PushReq_InternalParse srv_rt) (PushReq_Clear m)),
      PullReq_ParseFromString = (\<lambda>m. ref_parse (PullReq_InternalParse srv_rt) (PullReq_Clear m)),
      DelCacheReq_ParseFromString =
        (\<lambda>m. ref_parse (DelCacheReq_InternalParse srv_rt) (DelCacheReq_Clear m)),
      PullRsp_SerializeToString =
        (\<lambda>r. PullRsp_InternalSerialize srv_rt (snd (PullRsp_ByteSizeLong srv_rt r))),
      PushRsp_SerializeToString =
        (\<lambda>r. PushRsp_InternalSerialize srv_rt (snd (PushRsp_ByteSizeLong srv_rt r)))\<rparr>"

interpretation ref_msgs: pb_runtime srv_rt varint_ref ref_pb
  by unfold_locales (simp_all add: ref_pb_def ref_parse_def)

lemma ref_msgs_conforms: "pb_runtime srv_rt varint_ref ref_pb"
  by (rule ref_msgs.pb_runtime_axioms)

section \<open>Properties\<close>

text \<open>
  C10. The body of a push request decodes to exactly its keys and data, in order, also when it is
  sent with a terminating NUL byte (as the repository's own test does).
\<close>

theorem push_body_decodes:
  assumes "pb_runtime rt varint pb" and "PushReq_fits rt a"
    and "body = PushReq_InternalSerialize rt (snd (PushReq_ByteSizeLong rt a))"
  shows "map (\<lambda>i. (info_id i, info_d i)) (InOutMsg_getInfos (InOutMsg_ctor pb body Push))
         = map (\<lambda>i. (oneInfo_key i, oneInfo_data i)) (PushReq_infos a)
       \<and> InOutMsg_ctor pb (body @ [0]) Push = InOutMsg_ctor pb body Push"
proof -
  note push = pb_runtime.axioms(1) [OF assms(1)]
  note wire = push_runtime.axioms [OF push]
  let ?m = "PushReq_MergeFrom PushReq_SharedCtor a"
  have "parse_loop rt (PushReq_parse_field rt) ?m [0] = Some (?m, AtTag 0 [])"
    by (rule parse_loop_stop [OF wire_runtime.read_tags(1) [OF wire]])
      (simp_all add: PushReq_parse_field_def)
  then have "PushReq_InternalParse rt PushReq_SharedCtor (body @ [0]) = Some (?m, AtTag 0 [])"
    using push_runtime.PushReq_parse_append [OF push assms(2)] assms(3)
    by (simp add: PushReq_InternalParse_def)
  moreover have "PushReq_InternalParse rt PushReq_SharedCtor body = Some (?m, AtLimit)"
    using push_runtime.PushReq_parse_serialized [OF push assms(2)] assms(3) by simp
  ultimately show ?thesis
    by (simp add: pb_runtime.decode_push [OF assms(1)] InOutMsg_getInfos_def
        PushReq_MergeFrom_default)
qed

definition ex_push_a :: "unknown_field PushReq" where
  "ex_push_a = PushReq_add_infos (\<lambda>i. oneInfo_set_data [104, 105] (oneInfo_set_key 300 i)) PushReq_SharedCtor"

lemma ex_push_a_fits: "PushReq_fits srv_rt ex_push_a"
  by (simp add: PushReq_fits_def ex_push_a_def oneInfo_fits_def oneInfo_SharedCtor_def
      PushReq_add_infos_def PushReq_SharedCtor_def oneInfo_set_key_def oneInfo_set_data_def
      have_unknown_fields_def oneInfo_InternalSerialize_def ref_rt_def field_header_def
      varint_ref_def base128.simps wire_max_def)

theorem push_body_decodes_witness:
  "map (\<lambda>i. (info_id i, info_d i)) (InOutMsg_getInfos (InOutMsg_ctor ref_pb
       (PushReq_InternalSerialize srv_rt (snd (PushReq_ByteSizeLong srv_rt ex_push_a))) Push))
     = map (\<lambda>i. (oneInfo_key i, oneInfo_data i)) (PushReq_infos ex_push_a)
   \<and> InOutMsg_ctor ref_pb
       (PushReq_InternalSerialize srv_rt (snd (PushReq_ByteSizeLong srv_rt ex_push_a)) @ [0]) Push
     = InOutMsg_ctor ref_pb
       (PushReq_InternalSerialize srv_rt (snd (PushReq_ByteSizeLong srv_rt ex_push_a))) Push"
  by (rule push_body_decodes [OF ref_msgs_conforms ex_push_a_fits refl])

text \<open>
  Whatever the body of a pull request, the message holds the keys that the generated parser had
  read when it stopped, in order and with empty data, and the fields as a set; the parser's
  verdict on the body makes no difference.
\<close>

theorem pull_body_decodes:
  assumes "pb_runtime rt varint pb"
  shows "\<exists>req e. PullReq_InternalParse rt PullReq_SharedCtor body = Some (req, e)
    \<and> InOutMsg_getPullIds (InOutMsg_ctor pb body Pull) = PullReq_keys req
    \<and> list_all (\<lambda>i. info_d i = []) (InOutMsg_getInfos (InOutMsg_ctor pb body Pull))
    \<and> msg_fields (InOutMsg_ctor pb body Pull) = ucast ` set (PullReq_field req)"
proof -
  note push = pb_runtime.axioms(1) [OF assms]
  obtain req e where r: "PullReq_InternalParse rt PullReq_SharedCtor body = Some (req, e)"
    using wire_runtime.PullReq_parse_returns [OF push_runtime.axioms [OF push]] by fastforce
  then show ?thesis
    using pb_runtime.decode_pull [OF assms r]
    by (simp add: InOutMsg_getPullIds_def InOutMsg_getInfos_def comp_def list_all_iff)
qed

theorem pull_body_decodes_witness:
  "\<exists>req e. PullReq_InternalParse srv_rt PullReq_SharedCtor [8, 5, 16, 1, 255] = Some (req, e)
    \<and> InOutMsg_getPullIds (InOutMsg_ctor ref_pb [8, 5, 16, 1, 255] Pull) = PullReq_keys req
    \<and> list_all (\<lambda>i. info_d i = []) (InOutMsg_getInfos (InOutMsg_ctor ref_pb [8, 5, 16, 1, 255] Pull))
    \<and> msg_fields (InOutMsg_ctor ref_pb [8, 5, 16, 1, 255] Pull) = ucast ` set (PullReq_field req)"
  by (rule pull_body_decodes [OF ref_msgs_conforms])

text \<open>
  A client that parses the response to a pull reads the data of the message, in the order of the
  keys, with error code 0; and the response to a push carries the error code.
\<close>

theorem responses_decode:
  assumes "pb_runtime rt varint pb"
    and "msg_t m = Pull" and "fst (PullRsp_ByteSizeLong rt
        (PullRsp_SharedCtor\<lparr>PullRsp_data := map info_d (msg_infos m)\<rparr>)) < wire_max"
    and "msg_t n = Push"
  shows "PullRsp_InternalParse rt PullRsp_SharedCtor (InOutMsg_EncodeRsp pb 0 m)
         = Some (PullRsp_SharedCtor\<lparr>PullRsp_data := map info_d (msg_infos m)\<rparr>, AtLimit)
       \<and> PushRsp_InternalParse rt PushRsp_SharedCtor (InOutMsg_EncodeRsp pb e n)
         = Some (PushRsp_SharedCtor\<lparr>PushRsp_errcode := e\<rparr>, AtLimit)"
  using pb_runtime.encode_pull [OF assms(1,2)] pb_runtime.encode_push [OF assms(1,4)] assms(3)
  by (simp add: pb_runtime.encodable_def [OF assms(1)])

theorem responses_decode_witness:
  "PullRsp_InternalParse srv_rt PullRsp_SharedCtor (InOutMsg_EncodeRsp ref_pb 0
       \<lparr>msg_infos = [\<lparr>info_id = 7, info_d = [97]\<rparr>], msg_fields = {}, msg_t = Pull\<rparr>)
     = Some (PullRsp_SharedCtor\<lparr>PullRsp_data := map info_d
         (msg_infos \<lparr>msg_infos = [\<lparr>info_id = 7, info_d = [97]\<rparr>], msg_fields = {}, msg_t = Pull\<rparr>)\<rparr>,
         AtLimit)
   \<and> PushRsp_InternalParse srv_rt PushRsp_SharedCtor (InOutMsg_EncodeRsp ref_pb 5
       \<lparr>msg_infos = [], msg_fields = {}, msg_t = Push\<rparr>)
     = Some (PushRsp_SharedCtor\<lparr>PushRsp_errcode := 5\<rparr>, AtLimit)"
  by (rule responses_decode [OF ref_msgs_conforms])
    (simp_all add: PullRsp_ByteSizeLong_def PullRsp_SharedCtor_def have_unknown_fields_def
      ref_rt_def varint_ref_def base128.simps wire_max_def)

text \<open>
  The response to a delete-from-cache request is empty whatever the outcome, so a client that
  parses it never reads \<open>succ = true\<close>, although the code sets the flag before it returns.
\<close>

theorem delcache_response_never_succ:
  assumes "msg_t m = DelCache"
  shows "InOutMsg_EncodeRsp pb e m = []
    \<and> DelCacheRsp_InternalParse rt DelCacheRsp_SharedCtor (InOutMsg_EncodeRsp pb e m)
      = Some (DelCacheRsp_SharedCtor, AtLimit)
    \<and> \<not> DelCacheRsp_succ (DelCacheRsp_SharedCtor :: 'u DelCacheRsp)"
  using assms by (simp add: InOutMsg_EncodeRsp_def DelCacheRsp_InternalParse_def
      DelCacheRsp_SharedCtor_def)

theorem delcache_response_never_succ_witness:
  "InOutMsg_EncodeRsp ref_pb 0 (InOutMsg_ctor ref_pb [8, 5] DelCache) = []
    \<and> DelCacheRsp_InternalParse srv_rt DelCacheRsp_SharedCtor
        (InOutMsg_EncodeRsp ref_pb 0 (InOutMsg_ctor ref_pb [8, 5] DelCache))
      = Some (DelCacheRsp_SharedCtor, AtLimit)
    \<and> \<not> DelCacheRsp_succ (DelCacheRsp_SharedCtor :: unknown_field DelCacheRsp)"
  by (rule delcache_response_never_succ) (simp add: InOutMsg_ctor_def split_beta Let_def)

text \<open>
  C35. A message never leaves its type: whatever the bytes and however the data is filled in, the
  message has the shape of its type and the keys it was decoded with, or the call that is out of range
  faults; and its response is decided by that type.
\<close>

theorem message_keeps_type:
  "case fill_all xs (InOutMsg_ctor pb d t) of
     Inl e \<Rightarrow> e = OutOfRange \<and> (\<exists>x\<in>set xs. length (InOutMsg_getPullIds (InOutMsg_ctor pb d t)) \<le> fst x)
   | Inr m \<Rightarrow> typed t m \<and> InOutMsg_getPullIds m = InOutMsg_getPullIds (InOutMsg_ctor pb d t)
       \<and> fst ` set xs \<subseteq> {..<length (InOutMsg_getPullIds (InOutMsg_ctor pb d t))}
       \<and> (InOutMsg_EncodeRsp pb c m = [] \<or> t = Pull \<or> t = Push)"
proof -
  have "msg_t m = t" if "typed t m" for m using that by (cases t) simp_all
  then show ?thesis
    using fill_all_typed [OF ctor_typed, of xs pb d t]
    by (auto simp: InOutMsg_EncodeRsp_def split: sum.splits MsgType.splits)
qed

end
