(* ===== verification/CacheSpace.thy ===== *)
theory CacheSpace
  imports Prelude "HOL-Library.AList"
begin

text \<open>
  The feature cache (feature-server/cache/Cache.h and Cache.cpp): a process-wide object around a
  bounded \<open>folly::EvictingCacheMap\<close>. The map is library code, so its operations are a parameter;
  the locale \<open>evicting_cache\<close> states what its documentation promises, and \<open>lru_ops\<close> is an
  executable least-recently-used map that meets it. Above the class stands its contract: whatever
  the history, the cache holds part of the map that the history denotes, never more than the
  hundred entries it is built for.
\<close>

section \<open>The operations of the eviction map\<close>

record 'c evicting_map =
  ecm_new :: "nat \<Rightarrow> nat \<Rightarrow> 'c"
  ecm_set :: "u64 \<Rightarrow> bytes \<Rightarrow> 'c \<Rightarrow> 'c"
  ecm_find :: "u64 \<Rightarrow> 'c \<Rightarrow> bytes option \<times> 'c"
  ecm_erase :: "u64 \<Rightarrow> 'c \<Rightarrow> 'c"

section \<open>CacheSpace\<close>

record 'c CacheSpace =
  cacheMap :: 'c

definition CacheSpace_ctor :: "'c evicting_map \<Rightarrow> 'c CacheSpace" where
  "CacheSpace_ctor ops = \<lparr>cacheMap = ecm_new ops 100 10\<rparr>"

text \<open>The function-local static is constructed by the first call.\<close>

definition CacheSpace_singleton :: "'c evicting_map \<Rightarrow> 'c CacheSpace option \<Rightarrow> 'c CacheSpace" where
  "CacheSpace_singleton ops static_c =
     (case static_c of None \<Rightarrow> CacheSpace_ctor ops | Some c \<Rightarrow> c)"

definition CacheSpace_set ::
  "'c evicting_map \<Rightarrow> u64 \<Rightarrow> bytes \<Rightarrow> 'c CacheSpace \<Rightarrow> bool \<times> 'c CacheSpace" where
  "CacheSpace_set ops k v c = (True, c\<lparr>cacheMap := ecm_set ops k v (cacheMap c)\<rparr>)"

text \<open>\<open>find\<close> moves the entry to the front of the eviction order, so a read changes the state.\<close>

definition CacheSpace_get :: "'c evicting_map \<Rightarrow> u64 \<Rightarrow> 'c CacheSpace \<Rightarrow> bytes \<times> 'c CacheSpace" where
  "CacheSpace_get ops k c =
     (let ret = [];
          (it, m) = ecm_find ops k (cacheMap c);
          ret = (case it of Some v \<Rightarrow> v | None \<Rightarrow> ret)
      in (ret, c\<lparr>cacheMap := m\<rparr>))"

definition CacheSpace_del :: "'c evicting_map \<Rightarrow> u64 \<Rightarrow> 'c CacheSpace \<Rightarrow> 'c CacheSpace" where
  "CacheSpace_del ops k c = c\<lparr>cacheMap := ecm_erase ops k (cacheMap c)\<rparr>"

lemma singleton_Some [simp]: "CacheSpace_singleton ops (Some c) = c"
  by (simp add: CacheSpace_singleton_def)

section \<open>Histories and the map they denote\<close>

datatype cache_op = SetOp u64 bytes | GetOp u64 | DelOp u64

fun cache_step :: "'c evicting_map \<Rightarrow> 'c CacheSpace \<Rightarrow> cache_op \<Rightarrow> 'c CacheSpace" where
  "cache_step ops c (SetOp k v) = snd (CacheSpace_set ops k v c)"
| "cache_step ops c (GetOp k) = snd (CacheSpace_get ops k c)"
| "cache_step ops c (DelOp k) = CacheSpace_del ops k c"

definition cache_run :: "'c evicting_map \<Rightarrow> cache_op list \<Rightarrow> 'c CacheSpace" where
  "cache_run ops h = foldl (cache_step ops) (CacheSpace_singleton ops None) h"

fun map_step :: "(u64 \<rightharpoonup> bytes) \<Rightarrow> cache_op \<Rightarrow> (u64 \<rightharpoonup> bytes)" where
  "map_step m (SetOp k v) = m(k \<mapsto> v)"
| "map_step m (GetOp k) = m"
| "map_step m (DelOp k) = m(k := None)"

definition map_run :: "cache_op list \<Rightarrow> (u64 \<rightharpoonup> bytes)" where
  "map_run h = foldl map_step Map.empty h"

fun set_keys :: "cache_op list \<Rightarrow> u64 set" where
  "set_keys [] = {}"
| "set_keys (SetOp k v # h) = insert k (set_keys h)"
| "set_keys (GetOp k # h) = set_keys h"
| "set_keys (DelOp k # h) = set_keys h"

section \<open>The contract\<close>

text \<open>
  \<open>look\<close> is the content, \<open>cap\<close> the size limit and \<open>ok\<close> the map's own invariant. An insertion is
  visible at once; it may evict other entries, and only when the limit would be exceeded; a
  lookup answers from the content and keeps it; an erase removes one key.
\<close>

locale evicting_cache =
  fixes ops :: "'c evicting_map"
    and look :: "'c \<Rightarrow> u64 \<rightharpoonup> bytes"
    and cap :: "'c \<Rightarrow> nat"
    and ok :: "'c \<Rightarrow> bool"
  assumes new_ok: "0 < c \<Longrightarrow> c \<le> n \<Longrightarrow> ok (ecm_new ops n c)"
    and new_look: "look (ecm_new ops n c) = Map.empty"
    and new_cap: "cap (ecm_new ops n c) = n"
    and size_le: "ok m \<Longrightarrow> finite (dom (look m)) \<and> card (dom (look m)) \<le> cap m"
    and set_ok: "ok m \<Longrightarrow> ok (ecm_set ops k v m)"
    and set_cap: "cap (ecm_set ops k v m) = cap m"
    and set_same: "ok m \<Longrightarrow> look (ecm_set ops k v m) k = Some v"
    and set_other: "ok m \<Longrightarrow> j \<noteq> k \<Longrightarrow>
      look (ecm_set ops k v m) j = look m j \<or> look (ecm_set ops k v m) j = None"
    and set_room: "ok m \<Longrightarrow> card (insert k (dom (look m))) \<le> cap m \<Longrightarrow>
      look (ecm_set ops k v m) = (look m)(k \<mapsto> v)"
    and find_ok: "ok m \<Longrightarrow> ok (snd (ecm_find ops k m))"
    and find_cap: "cap (snd (ecm_find ops k m)) = cap m"
    and find_result: "ok m \<Longrightarrow> fst (ecm_find ops k m) = look m k"
    and find_look: "ok m \<Longrightarrow> look (snd (ecm_find ops k m)) = look m"
    and erase_ok: "ok m \<Longrightarrow> ok (ecm_erase ops k m)"
    and erase_cap: "cap (ecm_erase ops k m) = cap m"
    and erase_look: "ok m \<Longrightarrow> look (ecm_erase ops k m) = (look m)(k := None)"
begin

text \<open>The content of a \<open>CacheSpace\<close> and its invariant.\<close>

definition clook :: "'c CacheSpace \<Rightarrow> u64 \<rightharpoonup> bytes" where
  "clook c = look (cacheMap c)"

definition cok :: "'c CacheSpace \<Rightarrow> bool" where
  "cok c = (ok (cacheMap c) \<and> cap (cacheMap c) = 100)"

lemma ctor_cok [simp]: "cok (CacheSpace_ctor ops)"
  by (simp add: cok_def CacheSpace_ctor_def new_ok new_cap)

lemma ctor_clook [simp]: "clook (CacheSpace_ctor ops) = Map.empty"
  by (simp add: clook_def CacheSpace_ctor_def new_look)

lemma get_value: "cok c \<Longrightarrow> fst (CacheSpace_get ops k c) = (case clook c k of Some v \<Rightarrow> v | None \<Rightarrow> [])"
  by (simp add: CacheSpace_get_def cok_def clook_def split_beta find_result)

lemma get_state [simp]:
  "cok c \<Longrightarrow> cok (snd (CacheSpace_get ops k c))"
  "cok c \<Longrightarrow> clook (snd (CacheSpace_get ops k c)) = clook c"
  by (simp_all add: CacheSpace_get_def cok_def clook_def split_beta find_ok find_cap find_look)

lemma del_state [simp]:
  "cok c \<Longrightarrow> cok (CacheSpace_del ops k c)"
  "cok c \<Longrightarrow> clook (CacheSpace_del ops k c) = (clook c)(k := None)"
  by (simp_all add: CacheSpace_del_def cok_def clook_def erase_ok erase_cap erase_look)

lemma set_state [simp]:
  "cok c \<Longrightarrow> cok (snd (CacheSpace_set ops k v c))"
  "cok c \<Longrightarrow> clook (snd (CacheSpace_set ops k v c)) k = Some v"
  by (simp_all add: CacheSpace_set_def cok_def clook_def set_ok set_cap set_same)

lemma set_le: "cok c \<Longrightarrow> clook c \<subseteq>\<^sub>m m \<Longrightarrow> clook (snd (CacheSpace_set ops k v c)) \<subseteq>\<^sub>m m(k \<mapsto> v)"
  using set_other [of "cacheMap c" _ k v] set_same [of "cacheMap c" k v]
  by (fastforce simp: map_le_def dom_def CacheSpace_set_def cok_def clook_def)

lemma set_exact:
  "cok c \<Longrightarrow> card (insert k (dom (clook c))) \<le> 100 \<Longrightarrow>
   clook (snd (CacheSpace_set ops k v c)) = (clook c)(k \<mapsto> v)"
  by (simp add: CacheSpace_set_def cok_def clook_def set_room)

lemma clook_size: "cok c \<Longrightarrow> finite (dom (clook c)) \<and> card (dom (clook c)) \<le> 100"
  using size_le [of "cacheMap c"] by (simp add: cok_def clook_def)

lemma cache_step_cok: "cok c \<Longrightarrow> cok (cache_step ops c e)"
  by (cases e) simp_all

lemma cache_step_le:
  assumes "cok c" and "clook c \<subseteq>\<^sub>m m"
  shows "clook (cache_step ops c e) \<subseteq>\<^sub>m map_step m e"
proof (cases e)
  case (DelOp k)
  with assms show ?thesis by (auto simp: map_le_def)
qed (use assms in \<open>simp_all add: set_le\<close>)

lemma cache_run_invariant: "cok (cache_run ops h) \<and> clook (cache_run ops h) \<subseteq>\<^sub>m map_run h"
  unfolding cache_run_def map_run_def CacheSpace_singleton_def
  by (induction h rule: rev_induct) (simp_all add: cache_step_cok cache_step_le)

lemma cache_step_exact:
  assumes "cok c" and "dom (clook c) \<subseteq> K" and "finite K" and "card (K \<union> set_keys [e]) \<le> 100"
  shows "clook (cache_step ops c e) = map_step (clook c) e"
proof (cases e)
  case (SetOp k v)
  with assms(2-) have "card (insert k (dom (clook c))) \<le> 100"
    by (intro order_trans [OF card_mono assms(4)]) auto
  with assms(1) SetOp show ?thesis by (simp add: set_exact)
qed (use assms in simp_all)

lemma set_keys_append: "set_keys (h @ g) = set_keys h \<union> set_keys g"
  by (induction h rule: set_keys.induct) auto

lemma set_keys_finite: "finite (set_keys h)"
  by (induction h rule: set_keys.induct) simp_all

lemma dom_map_step: "dom (map_step m e) \<subseteq> dom m \<union> set_keys [e]"
  by (cases e) auto

lemma cache_run_exact:
  assumes "card (set_keys h) \<le> 100"
  shows "clook (cache_run ops h) = map_run h \<and> dom (map_run h) \<subseteq> set_keys h"
  using assms
proof (induction h rule: rev_induct)
  case Nil
  then show ?case by (simp add: cache_run_def map_run_def CacheSpace_singleton_def)
next
  case (snoc e h)
  have "card (set_keys h) \<le> card (set_keys (h @ [e]))"
    by (rule card_mono) (auto simp: set_keys_append set_keys_finite)
  with snoc have IH: "clook (cache_run ops h) = map_run h" "dom (map_run h) \<subseteq> set_keys h"
    by simp_all
  have "clook (cache_step ops (cache_run ops h) e) = map_step (clook (cache_run ops h)) e"
    using cache_run_invariant IH snoc.prems
    by (intro cache_step_exact [where K = "set_keys h"]) (auto simp: set_keys_append set_keys_finite)
  moreover have "dom (map_step (map_run h) e) \<subseteq> set_keys (h @ [e])"
    using IH(2) dom_map_step [of "map_run h" e] unfolding set_keys_append by blast
  ultimately show ?case
    using IH(1) by (simp add: cache_run_def map_run_def)
qed

end

section \<open>A least-recently-used map\<close>

text \<open>
  Entries with the most recent first; when an insertion takes the size above the limit, the last
  \<open>lru_clear\<close> entries go. Distinct keys, and a clear size that leaves the newest entry in place.
\<close>

record lru =
  lru_max :: nat
  lru_clear :: nat
  lru_entries :: "(u64 \<times> bytes) list"

definition lru_set :: "u64 \<Rightarrow> bytes \<Rightarrow> lru \<Rightarrow> lru" where
  "lru_set k v m =
     (let es = (k, v) # AList.delete k (lru_entries m)
      in m\<lparr>lru_entries :=
           (if 0 < lru_max m \<and> lru_max m < length es then take (length es - lru_clear m) es else es)\<rparr>)"

definition lru_find :: "u64 \<Rightarrow> lru \<Rightarrow> bytes option \<times> lru" where
  "lru_find k m =
     (case map_of (lru_entries m) k of
        None \<Rightarrow> (None, m)
      | Some v \<Rightarrow> (Some v, m\<lparr>lru_entries := (k, v) # AList.delete k (lru_entries m)\<rparr>))"

definition lru_ops :: "lru evicting_map" where
  "lru_ops =
     \<lparr>ecm_new = (\<lambda>n c. \<lparr>lru_max = n, lru_clear = c, lru_entries = []\<rparr>),
      ecm_set = lru_set, ecm_find = lru_find,
      ecm_erase = (\<lambda>k m. m\<lparr>lru_entries := AList.delete k (lru_entries m)\<rparr>)\<rparr>"

definition lru_look :: "lru \<Rightarrow> u64 \<rightharpoonup> bytes" where
  "lru_look m = map_of (lru_entries m)"

definition lru_ok :: "lru \<Rightarrow> bool" where
  "lru_ok m = (distinct (map fst (lru_entries m)) \<and> length (lru_entries m) \<le> lru_max m
     \<and> 0 < lru_clear m \<and> lru_clear m \<le> lru_max m)"

lemma map_of_take_distinct:
  "distinct (map fst es) \<Longrightarrow> map_of (take n es) j = map_of es j \<or> map_of (take n es) j = None"
proof (induction es arbitrary: n)
  case (Cons e es)
  then show ?case by (cases n) auto
qed simp

text \<open>An insertion keeps a non-empty prefix of the new entry and the others.\<close>

lemma lru_set_entries:
  assumes "lru_ok m"
  obtains n where "0 < n" and "n \<le> lru_max m"
    and "lru_set k v m = m\<lparr>lru_entries := take n ((k, v) # AList.delete k (lru_entries m))\<rparr>"
    and "length (AList.delete k (lru_entries m)) < lru_max m \<Longrightarrow> n = lru_max m"
proof (cases "lru_max m < Suc (length (AList.delete k (lru_entries m)))")
  case True
  let ?l = "Suc (length (AList.delete k (lru_entries m)))"
  from assms length_delete_le [of k "lru_entries m"] have
    "?l \<le> Suc (lru_max m)" "0 < lru_clear m" "lru_clear m \<le> lru_max m"
    by (auto simp: lru_ok_def)
  with True assms show ?thesis
    by (intro that [of "?l - lru_clear m"]) (auto simp: lru_set_def lru_ok_def)
next
  case False
  with assms show ?thesis
    by (intro that [of "lru_max m"]) (auto simp: lru_set_def lru_ok_def Let_def)
qed

lemma distinct_lru_new:
  "lru_ok m \<Longrightarrow> distinct (map fst ((k, v) # AList.delete k (lru_entries m)))"
  using distinct_delete [of "lru_entries m" k] delete_notin_dom [of k "lru_entries m"]
  by (simp add: lru_ok_def)

lemma lru_set_ok: "lru_ok m \<Longrightarrow> lru_ok (lru_set k v m)"
proof -
  assume ok: "lru_ok m"
  then obtain n where n: "0 < n" "n \<le> lru_max m"
    "lru_set k v m = m\<lparr>lru_entries := take n ((k, v) # AList.delete k (lru_entries m))\<rparr>"
    by (rule lru_set_entries)
  have "distinct (map fst (take n ((k, v) # AList.delete k (lru_entries m))))"
    using distinct_lru_new [OF ok, of k v] unfolding take_map [symmetric] by (rule distinct_take)
  with ok n show ?thesis by (simp add: lru_ok_def)
qed

lemma lru_set_look:
  assumes "lru_ok m"
  shows "lru_look (lru_set k v m) k = Some v"
    and "j \<noteq> k \<Longrightarrow> lru_look (lru_set k v m) j = lru_look m j \<or> lru_look (lru_set k v m) j = None"
proof -
  from assms obtain n where n: "0 < n"
    "lru_set k v m = m\<lparr>lru_entries := take n ((k, v) # AList.delete k (lru_entries m))\<rparr>"
    by (rule lru_set_entries)
  then show "lru_look (lru_set k v m) k = Some v"
    by (cases n) (simp_all add: lru_look_def)
  show "lru_look (lru_set k v m) j = lru_look m j \<or> lru_look (lru_set k v m) j = None" if "j \<noteq> k"
    using map_of_take_distinct [OF distinct_lru_new [OF assms], of n k v j] n that
    by (auto simp: lru_look_def)
qed

lemma lru_size: "lru_ok m \<Longrightarrow> card (dom (lru_look m)) = length (lru_entries m)"
  using distinct_card [of "map fst (lru_entries m)"]
  by (simp add: lru_ok_def lru_look_def dom_map_of_conv_image_fst)

lemma lru_look_finite: "finite (dom (lru_look m))"
  by (simp add: lru_look_def finite_dom_map_of)

lemma lru_set_room:
  assumes ok: "lru_ok m" and room: "card (insert k (dom (lru_look m))) \<le> lru_max m"
  shows "lru_look (lru_set k v m) = (lru_look m)(k \<mapsto> v)"
proof -
  let ?es = "AList.delete k (lru_entries m)"
  have "distinct (map fst ((k, v) # ?es))" by (rule distinct_lru_new [OF ok])
  then have "length ((k, v) # ?es) = card (fst ` set ((k, v) # ?es))"
    by (metis distinct_card length_map list.set_map)
  also have "\<dots> \<le> card (insert k (dom (lru_look m)))"
    using dom_delete_subset [of k "lru_entries m"]
    by (intro card_mono) (auto simp: lru_look_def dom_map_of_conv_image_fst)
  finally have "length ?es < lru_max m" using room by simp
  with ok have "lru_set k v m = m\<lparr>lru_entries := take (lru_max m) ((k, v) # ?es)\<rparr>"
    by (metis lru_set_entries)
  with \<open>length ?es < lru_max m\<close> show ?thesis
    by (simp add: lru_look_def delete_conv')
qed

lemma lru_find_ok: "lru_ok m \<Longrightarrow> lru_ok (snd (lru_find k m))"
proof -
  assume ok: "lru_ok m"
  have "length (AList.delete k (lru_entries m)) < length (lru_entries m)"
    if "map_of (lru_entries m) k = Some v" for v
    using map_of_SomeD [OF that] unfolding AList.delete_eq by (auto intro: length_filter_less)
  with ok distinct_lru_new [OF ok] show ?thesis
    by (fastforce simp: lru_find_def lru_ok_def split: option.splits)
qed

lemma lru_find_look: "lru_look (snd (lru_find k m)) = lru_look m"
  by (auto simp: lru_find_def lru_look_def delete_conv' split: option.splits)

lemma lru_parts:
  "0 < c \<Longrightarrow> c \<le> n \<Longrightarrow> lru_ok \<lparr>lru_max = n, lru_clear = c, lru_entries = []\<rparr>"
  "lru_look \<lparr>lru_max = n, lru_clear = c, lru_entries = []\<rparr> = Map.empty"
  "lru_max (snd (lru_find k m)) = lru_max m"
  "fst (lru_find k m) = lru_look m k"
  "lru_look (m\<lparr>lru_entries := AList.delete k (lru_entries m)\<rparr>) = (lru_look m)(k := None)"
  "lru_ok m \<Longrightarrow> card (dom (lru_look m)) \<le> lru_max m"
  by (auto simp: lru_size lru_find_def split: option.splits)
    (auto simp: lru_ok_def lru_look_def delete_conv')

interpretation lru_cache: evicting_cache lru_ops lru_look lru_max lru_ok
proof unfold_locales
  show "lru_max (ecm_set lru_ops k v m) = lru_max m" for k v m
    by (simp add: lru_ops_def lru_set_def Let_def)
  show "lru_ok m \<Longrightarrow> lru_ok (ecm_erase lru_ops k m)" for m k
    using length_delete_le [of k "lru_entries m"]
    by (simp add: lru_ops_def lru_ok_def distinct_delete)
qed (simp_all add: lru_ops_def lru_set_ok lru_set_look lru_set_room lru_find_ok lru_find_look
    lru_look_finite lru_parts)

section \<open>Properties\<close>

text \<open>
  C12. The cache refines a map with forgetting. After any history of sets, gets and deletes on the
  singleton it holds only values that were set last for their key and not deleted since, at most a
  hundred of them, and exactly those when the history has set at most a hundred different keys; a read
  answers with the value that the cache holds for the key, and with the empty string when it holds none;
  and a value that has just been set is there.
\<close>

theorem cache_refines_history:
  assumes "evicting_cache ops look cap ok"
  shows "look (cacheMap (cache_run ops h)) \<subseteq>\<^sub>m map_run h
    \<and> card (dom (look (cacheMap (cache_run ops h)))) \<le> 100
    \<and> (card (set_keys h) \<le> 100 \<longrightarrow> look (cacheMap (cache_run ops h)) = map_run h)
    \<and> fst (CacheSpace_get ops k (cache_run ops h))
        = (case look (cacheMap (cache_run ops h)) k of Some v \<Rightarrow> v | None \<Rightarrow> [])
    \<and> fst (CacheSpace_get ops k (cache_run ops (h @ [SetOp k v]))) = v"
proof -
  note cdefs = evicting_cache.clook_def [OF assms] and get = evicting_cache.get_value [OF assms]
  note inv = evicting_cache.cache_run_invariant [OF assms, of h]
  have "cache_run ops (h @ [SetOp k v]) = snd (CacheSpace_set ops k v (cache_run ops h))"
    by (simp add: cache_run_def)
  with inv evicting_cache.set_state [OF assms, of "cache_run ops h" k v] have
    "fst (CacheSpace_get ops k (cache_run ops (h @ [SetOp k v]))) = v"
    by (simp add: get)
  moreover have "card (set_keys h) \<le> 100 \<Longrightarrow> look (cacheMap (cache_run ops h)) = map_run h"
    using evicting_cache.cache_run_exact [OF assms, of h] by (simp add: cdefs)
  ultimately show ?thesis
    using inv evicting_cache.clook_size [OF assms, of "cache_run ops h"] get [of "cache_run ops h" k]
    by (simp add: cdefs)
qed

theorem cache_refines_history_witness:
  "\<exists>h. h = [SetOp 1 [7], SetOp 1 [8], GetOp 1, SetOp 2 [9], DelOp 2]
   \<and> lru_look (cacheMap (cache_run lru_ops h)) = [1 \<mapsto> [8]]
   \<and> fst (CacheSpace_get lru_ops 1 (cache_run lru_ops h)) = [8]
   \<and> fst (CacheSpace_get lru_ops 2 (cache_run lru_ops h)) = []
   \<and> fst (CacheSpace_get lru_ops 2 (cache_run lru_ops (h @ [SetOp 2 [5]]))) = [5]"
proof -
  let ?h = "[SetOp 1 [7], SetOp 1 [8], GetOp 1, SetOp 2 [9], DelOp 2]"
  note p = cache_refines_history [OF lru_cache.evicting_cache_axioms, of ?h]
  have "card (set_keys ?h) \<le> 100" by (simp add: card_insert_if)
  moreover have "map_run ?h = [1 \<mapsto> [8]]" by (auto simp: map_run_def)
  ultimately have "lru_look (cacheMap (cache_run lru_ops ?h)) = [1 \<mapsto> [8]]"
    using p by metis
  then show ?thesis using p [of 1 "[]"] p [of 2 "[5]"] by (intro exI [of _ ?h]) simp
qed

text \<open>
  Nothing is forgotten before the hundred entries are used up: when a history sets at most a
  hundred different keys, every read returns exactly what was set last and not deleted since.
\<close>

theorem cache_exact_within_capacity:
  assumes "evicting_cache ops look cap ok" and "card (set_keys h) \<le> 100"
  shows "fst (CacheSpace_get ops k (cache_run ops h)) = (case map_run h k of Some v \<Rightarrow> v | None \<Rightarrow> [])"
  using evicting_cache.cache_run_exact [OF assms] evicting_cache.cache_run_invariant [OF assms(1)]
    evicting_cache.get_value [OF assms(1), of "cache_run ops h" k]
  by simp

theorem cache_exact_within_capacity_witness:
  "fst (CacheSpace_get lru_ops 2 (cache_run lru_ops [SetOp 2 [7], SetOp 1 [8], SetOp 2 [9], DelOp 1]))
     = (case map_run [SetOp 2 [7], SetOp 1 [8], SetOp 2 [9], DelOp 1] 2 of
          Some v \<Rightarrow> v | None \<Rightarrow> [])"
  by (rule cache_exact_within_capacity [OF lru_cache.evicting_cache_axioms])
    (simp add: card_insert_if)

end
