(* ===== verification/RedisDB.thy ===== *)
theory RedisDB
  imports Prelude
begin

text \<open>
  The feature store (feature-server/db/RedisDB.h and RedisDB.cpp): an object around one hiredis
  connection, which keeps the versions of a feature as the fields of a redis hash. hiredis, the
  server and \<open>folly::to\<close> are not in the repository: they are the fields of \<open>host_api\<close>. The locale
  \<open>redis_hashes\<close> states what a server and a connection may answer, failures included; \<open>ref_host\<close> is an
  executable one, and \<open>failing_host\<close> one whose commands all fail.

  Two parameters need a word. A \<open>%d\<close> conversion reads an \<open>int\<close> from the argument list, so of the
  64-bit key and version it reads the low 32 bits. And \<open>set\<close> hands an \<open>fbstring\<close> object to \<open>%s\<close>: the
  compilers that accept that pass the object by reference, so the conversion reads the object's own
  memory as a C string. A string of up to 23 bytes is kept in the object itself, from its first byte
  on and with a NUL behind it, and is read as it is; the object of a longer one begins with a pointer,
  and what is read then depends on where the heap happens to be. That is \<open>vararg_fbstring\<close>: a function
  of the string and of the environment, without a value when the read leaves the memory of the process.
\<close>

section \<open>hiredis\<close>

type_synonym dbcon = nat

datatype redis_arg = IntArg i32 | StrArg bytes

datatype redisReply =
    ReplyString bytes
  | ReplyArray "redisReply list"
  | ReplyInteger int
  | ReplyNil
  | ReplyStatus bytes
  | ReplyError bytes

record 'e host_api =
  redisConnectWithTimeout :: "string \<Rightarrow> nat \<Rightarrow> nat \<times> nat \<Rightarrow> 'e \<Rightarrow> dbcon \<times> 'e"
  redisCommand :: "dbcon \<Rightarrow> string \<Rightarrow> redis_arg list \<Rightarrow> 'e \<Rightarrow> redisReply option \<times> 'e"
  redisFree :: "dbcon \<Rightarrow> 'e \<Rightarrow> 'e"
  to_int64 :: "bytes \<Rightarrow> i64 option"
  vararg_fbstring :: "bytes \<Rightarrow> 'e \<Rightarrow> bytes option"
  c_rand :: "'e \<Rightarrow> nat \<times> 'e"

text \<open>The environment outside the process, and the connections that were freed.\<close>

record 'e db_world =
  env :: 'e
  freed :: "dbcon list"

text \<open>\<open>reply->str\<close> is null for the reply types without text.\<close>

fun reply_str :: "redisReply \<Rightarrow> bytes option" where
  "reply_str (ReplyString s) = Some s"
| "reply_str (ReplyStatus s) = Some s"
| "reply_str (ReplyError s) = Some s"
| "reply_str (ReplyArray es) = None"
| "reply_str (ReplyInteger i) = None"
| "reply_str ReplyNil = None"

section \<open>DBInst\<close>

record DBInst =
  dbCon :: dbcon

definition DBInst_ctor :: "'e host_api \<Rightarrow> 'e db_world \<Rightarrow> DBInst \<times> 'e db_world" where
  "DBInst_ctor api w =
     (let timeout = (1, 500000);
          (con, e) = redisConnectWithTimeout api ''127.0.0.1'' 6379 timeout (env w);
          (reply, e) = redisCommand api con ''AUTH %s'' [StrArg (ascii ''test'')] e
      in (\<lparr>dbCon = con\<rparr>, w\<lparr>env := e\<rparr>))"

text \<open>The destructor frees the connection; a second free, or any use after it, is a fault.\<close>

definition DBInst_dtor :: "'e host_api \<Rightarrow> DBInst \<Rightarrow> 'e db_world \<Rightarrow> 'e db_world res" where
  "DBInst_dtor api d w =
     (if dbCon d \<in> set (freed w) then Inl UseAfterFree
      else Inr (w\<lparr>env := redisFree api (dbCon d) (env w), freed := dbCon d # freed w\<rparr>))"

definition DBInst_command ::
  "'e host_api \<Rightarrow> DBInst \<Rightarrow> string \<Rightarrow> redis_arg list \<Rightarrow> 'e db_world \<Rightarrow> (redisReply \<times> 'e db_world) res"
where
  "DBInst_command api d fmt args w =
     (if dbCon d \<in> set (freed w) then Inl UseAfterFree
      else case redisCommand api (dbCon d) fmt args (env w) of
        (None, e) \<Rightarrow> Inl NullDeref
      | (Some reply, e) \<Rightarrow> Inr (reply, w\<lparr>env := e\<rparr>))"

text \<open>
  The loop over the field/value pairs: \<open>i\<close> is the index of the next field. A field that is not a
  number makes \<open>folly::to\<close> throw, and every caller is \<open>noexcept\<close>.
\<close>

fun max_version :: "'e host_api \<Rightarrow> nat \<Rightarrow> redisReply list \<Rightarrow> i64 \<Rightarrow> nat \<Rightarrow> (i64 \<times> nat) res" where
  "max_version api i [] maxv maxi = Inr (maxv, maxi)"
| "max_version api i (f # rest) maxv maxi =
     (case reply_str f of
        None \<Rightarrow> Inl NullDeref
      | Some s \<Rightarrow>
          (case to_int64 api (c_str s) of
             None \<Rightarrow> Inl Terminate
           | Some tmpv \<Rightarrow>
               (if sint tmpv > sint maxv then max_version api (i + 2) (drop 1 rest) tmpv i
                else max_version api (i + 2) (drop 1 rest) maxv maxi)))"

definition DBInst_get ::
  "'e host_api \<Rightarrow> u64 \<Rightarrow> i64 \<Rightarrow> DBInst \<Rightarrow> 'e db_world \<Rightarrow> (bytes \<times> i64 \<times> 'e db_world) res" where
  "DBInst_get api k currv d w =
     res_bind (DBInst_command api d ''HGETALL %d'' [IntArg (ucast k)] w) (\<lambda>(reply, w).
       case reply of
         ReplyArray elements \<Rightarrow>
           (if length elements > 1 \<and> length elements mod 2 = 0 then
              res_bind (max_version api 0 elements 0 0) (\<lambda>(maxv, maxi).
                case reply_str (elements ! (maxi + 1)) of
                  None \<Rightarrow> Inl NullDeref
                | Some s \<Rightarrow> Inr (c_str s, maxv, w))
            else Inr ([], currv, w))
       | _ \<Rightarrow> Inr ([], currv, w))"

definition DBInst_set ::
  "'e host_api \<Rightarrow> u64 \<Rightarrow> bytes \<Rightarrow> i64 \<Rightarrow> DBInst \<Rightarrow> 'e db_world \<Rightarrow> (bool \<times> 'e db_world) res" where
  "DBInst_set api k v currv d w =
     (case vararg_fbstring api v (env w) of
        None \<Rightarrow> Inl WildPointer
      | Some s \<Rightarrow>
          res_bind (DBInst_command api d ''HSETNX %d %d %s''
              [IntArg (ucast k), IntArg (ucast currv), StrArg s] w) (\<lambda>(reply, w).
            case reply of
              ReplyInteger i \<Rightarrow> Inr (i = 1, w)
            | _ \<Rightarrow> Inr (False, w)))"

text \<open>\<open>reads_as api d s\<close>: in some environment the conversion reads \<open>s\<close> where the string \<open>d\<close> was handed over.\<close>

definition reads_as :: "'e host_api \<Rightarrow> bytes \<Rightarrow> bytes \<Rightarrow> bool" where
  "reads_as api d s \<longleftrightarrow> (\<exists>e. vararg_fbstring api d e = Some s)"

text \<open>What a program that uses the connections has to reckon with: a reply that is null, and a wild read.\<close>

definition mute :: "'e host_api \<Rightarrow> string \<Rightarrow> bool" where
  "mute api fmt \<longleftrightarrow> (\<exists>c args e. fst (redisCommand api c fmt args e) = None)"

definition unreadable :: "'e host_api \<Rightarrow> bool" where
  "unreadable api \<longleftrightarrow> (\<exists>d e. vararg_fbstring api d e = None)"

definition DBInstNum :: nat where
  "DBInstNum = 10"

text \<open>\<open>G_DBInsts\<close>: ten instances, constructed one after the other before \<open>main\<close>.\<close>

fun make_insts :: "'e host_api \<Rightarrow> nat \<Rightarrow> 'e db_world \<Rightarrow> DBInst list \<times> 'e db_world" where
  "make_insts api 0 w = ([], w)"
| "make_insts api (Suc n) w =
     (let (d, w) = DBInst_ctor api w; (ds, w) = make_insts api n w in (d # ds, w))"

definition G_DBInsts :: "'e host_api \<Rightarrow> 'e db_world \<Rightarrow> DBInst list \<times> 'e db_world" where
  "G_DBInsts api w = make_insts api DBInstNum w"

section \<open>What the store holds\<close>

text \<open>
  \<open>is_latest num h v d\<close>: of the fields of the hash \<open>h\<close>, all numbers, \<open>v\<close> is the greatest and \<open>d\<close> the
  value stored under it, read as a C string.
\<close>

definition is_latest ::
  "(bytes \<Rightarrow> i64 option) \<Rightarrow> (bytes \<times> bytes) list \<Rightarrow> i64 \<Rightarrow> bytes \<Rightarrow> bool" where
  "is_latest num h v d =
     (list_ex (\<lambda>(f, x). num (c_str f) = Some v \<and> c_str x = d) h
      \<and> list_all (\<lambda>(f, x). case num (c_str f) of Some u \<Rightarrow> sint u \<le> sint v | None \<Rightarrow> False) h)"

text \<open>A hash as the code writes them: distinct fields, each the text of a non-negative version.\<close>

definition versioned :: "(i32 \<Rightarrow> bytes) \<Rightarrow> (bytes \<times> bytes) list \<Rightarrow> bool" where
  "versioned dec h =
     (distinct (map fst h) \<and> list_all (\<lambda>(f, x). \<exists>n. f = dec n \<and> 0 \<le> sint n) h)"

definition flat :: "(bytes \<times> bytes) list \<Rightarrow> redisReply list" where
  "flat h = concat (map (\<lambda>(f, x). [ReplyString f, ReplyString x]) h)"

lemma flat_simps [simp]:
  "flat [] = []" "flat (p # h) = ReplyString (fst p) # ReplyString (snd p) # flat h"
  by (simp_all add: flat_def split_beta)

lemma length_flat [simp]: "length (flat h) = 2 * length h"
  by (induction h) simp_all

lemma flat_nth: "j < length h \<Longrightarrow> flat h ! (2 * j + 1) = ReplyString (snd (h ! j))"
proof (induction h arbitrary: j)
  case (Cons p h)
  then show ?case by (cases j) simp_all
qed simp

text \<open>
  The loop finds a maximal version and where it is, or leaves what it started with when no field
  exceeds it.
\<close>

definition picked ::
  "(bytes \<Rightarrow> i64 option) \<Rightarrow> (bytes \<times> bytes) list \<Rightarrow> nat \<Rightarrow> i64 \<Rightarrow> nat \<Rightarrow> i64 \<Rightarrow> nat \<Rightarrow> bool"
where
  "picked num h i v0 m0 v m =
     (list_all (\<lambda>(f, x). sint (the (num (c_str f))) \<le> sint v) h \<and> sint v0 \<le> sint v
      \<and> ((v, m) = (v0, m0)
         \<or> (\<exists>j<length h. m = 2 * (i + j) \<and> num (c_str (fst (h ! j))) = Some v \<and> sint v0 < sint v)))"

lemma picked_Cons:
  assumes "num (c_str f) = Some t"
  shows "sint v0 < sint t \<Longrightarrow> picked num h (Suc i) t (2 * i) v m \<Longrightarrow>
      picked num ((f, x) # h) i v0 m0 v m"
    and "sint t \<le> sint v0 \<Longrightarrow> picked num h (Suc i) v0 m0 v m \<Longrightarrow>
      picked num ((f, x) # h) i v0 m0 v m"
  using assms by (auto simp: picked_def Ex_less_Suc2)

lemma max_version_flat:
  assumes "list_all (\<lambda>(f, x). to_int64 api (c_str f) \<noteq> None) h"
  shows "\<exists>v m. max_version api (2 * i) (flat h) v0 m0 = Inr (v, m)
    \<and> picked (to_int64 api) h i v0 m0 v m"
  using assms
proof (induction h arbitrary: i v0 m0)
  case Nil
  then show ?case by (simp add: picked_def)
next
  case (Cons p h)
  obtain f x where p: "p = (f, x)" by (cases p)
  from Cons.prems p obtain t where t: "to_int64 api (c_str f) = Some t" by auto
  have IH: "\<exists>v m. max_version api (2 * Suc i) (flat h) u n = Inr (v, m)
      \<and> picked (to_int64 api) h (Suc i) u n v m" for u n
    using Cons.prems by (intro Cons.IH) simp
  show ?case
    using IH [of t "2 * i"] IH [of v0 m0] picked_Cons [where num = "to_int64 api" and f = f and t = t, OF t] t p
    by (cases "sint v0 < sint t") fastforce+
qed

section \<open>What a server may answer\<close>

text \<open>
  \<open>hash e k\<close> is the hash stored under the key \<open>k\<close>, \<open>dec\<close> the text of an integer conversion, and
  \<open>failed e\<close> says that some command has failed so far. Any command may fail: hiredis then returns a null
  pointer (the connection is lost, in which case the server may have run the command or not), or the
  server an error reply. A command that does not fail answers as redis documents it: \<open>HGETALL\<close> lists the
  pairs in an order of its own; \<open>HSETNX\<close> adds a field that is not there and changes nothing otherwise.
  \<open>folly::to\<close> reads back what a conversion wrote, and no other call touches a hash.
\<close>

locale redis_hashes =
  fixes api :: "'e host_api"
    and hash :: "'e \<Rightarrow> i32 \<Rightarrow> (bytes \<times> bytes) list"
    and dec :: "i32 \<Rightarrow> bytes"
    and failed :: "'e \<Rightarrow> bool"
  assumes hgetall: "\<exists>r e'. redisCommand api c ''HGETALL %d'' [IntArg k] e = (r, e')
      \<and> hash e' = hash e \<and> (failed e \<longrightarrow> failed e')
      \<and> (failed e' \<and> (r = None \<or> (\<exists>t. r = Some (ReplyError t)))
         \<or> (\<exists>h. r = Some (ReplyArray (flat h)) \<and> mset h = mset (hash e k)))"
    and hsetnx: "\<exists>r e'. redisCommand api c ''HSETNX %d %d %s'' [IntArg k, IntArg n, StrArg s] e = (r, e')
      \<and> (failed e \<longrightarrow> failed e')
      \<and> (failed e' \<and> r = None
         \<or> failed e' \<and> (\<exists>t. r = Some (ReplyError t)) \<and> hash e' = hash e
         \<or> r = Some (ReplyInteger (if dec n \<in> fst ` set (hash e k) then 0 else 1))
           \<and> hash e' = (if dec n \<in> fst ` set (hash e k) then hash e
                        else (hash e)(k := hash e k @ [(dec n, s)])))"
    and dec_number: "to_int64 api (dec n) = Some (scast n)"
    and dec_no_nul: "0 \<notin> set (dec n)"
    and short_string: "length d \<le> 23 \<Longrightarrow> vararg_fbstring api d e = Some (c_str d)"
    and free_hash: "hash (redisFree api c e) = hash e"
    and free_failed: "failed e \<Longrightarrow> failed (redisFree api c e)"
    and rand_hash: "hash (snd (c_rand api e)) = hash e"
    and rand_failed: "failed e \<Longrightarrow> failed (snd (c_rand api e))"
    and connect_hash: "hash (snd (redisConnectWithTimeout api ip port timeout e)) = hash e"
    and auth_hash: "hash (snd (redisCommand api c ''AUTH %s'' [StrArg pw] e)) = hash e"
begin

lemma dec_inj: "dec n = dec m \<longleftrightarrow> n = m"
  by (metis dec_number option.inject ucast_scast_i64)

text \<open>The keys of the store are 32 bits wide; \<open>at w k\<close> is the hash that the key \<open>k\<close> reaches.\<close>

definition at :: "'e db_world \<Rightarrow> u64 \<Rightarrow> (bytes \<times> bytes) list" where
  "at w k = hash (env w) (ucast k)"

definition good :: "'e db_world \<Rightarrow> bool" where
  "good w = (\<forall>k. versioned dec (hash (env w) k))"

lemma versioned_numbers:
  "versioned dec h \<Longrightarrow> list_all (\<lambda>(f, x). to_int64 api (c_str f) \<noteq> None) h"
  by (auto simp: versioned_def list_all_iff dec_no_nul dec_number)

lemma make_insts_state:
  "hash (env (snd (make_insts api n w))) = hash (env w)
    \<and> freed (snd (make_insts api n w)) = freed w \<and> length (fst (make_insts api n w)) = n"
proof (induction n arbitrary: w)
  case (Suc n)
  have "hash (env (snd (DBInst_ctor api w))) = hash (env w) \<and> freed (snd (DBInst_ctor api w)) = freed w"
    by (simp add: DBInst_ctor_def split_beta Let_def auth_hash connect_hash)
  with Suc [of "snd (DBInst_ctor api w)"] show ?case by (simp add: split_beta)
qed simp

lemma versioned_mset:
  assumes "mset h = mset g"
  shows "versioned dec h = versioned dec g" and "is_latest num h v d = is_latest num g v d"
proof -
  from assms have "set h = set g" by (rule mset_eq_setD)
  moreover from assms have "distinct (map fst h) = distinct (map fst g)"
    by (metis mset_eq_imp_distinct_iff mset_map)
  ultimately show "versioned dec h = versioned dec g"
    and "is_latest num h v d = is_latest num g v d"
    by (simp_all add: versioned_def is_latest_def list_all_iff list_ex_iff)
qed

text \<open>On a versioned hash the position the loop ends with is that of a maximal version.\<close>

lemma picked_versioned:
  assumes "versioned dec h" and "h \<noteq> []" and "picked (to_int64 api) h 0 0 0 v m"
  obtains j where "j < length h" and "m = 2 * j" and "is_latest (to_int64 api) h v (c_str (snd (h ! j)))"
proof -
  have le: "list_all (\<lambda>(f, x). case to_int64 api (c_str f) of
      Some u \<Rightarrow> sint u \<le> sint v | None \<Rightarrow> False) h"
    using assms(3) versioned_numbers [OF assms(1)]
    by (force simp: picked_def list_all_iff split: option.splits)
  have "\<exists>j<length h. m = 2 * j \<and> to_int64 api (c_str (fst (h ! j))) = Some v"
  proof (cases "v = 0 \<and> m = 0")
    case True
    obtain n where n: "fst (hd h) = dec n" "0 \<le> sint n"
      using assms(1,2) by (cases h) (auto simp: versioned_def)
    moreover have "sint n \<le> 0"
      using le n True assms(2) by (cases h) (auto simp: dec_number dec_no_nul)
    ultimately have "scast n = (0 :: i64)"
      by (metis antisym scast_0 sint_0 signed_eq_0_iff)
    with n True assms(2) show ?thesis
      by (intro exI [of _ 0]) (auto simp: hd_conv_nth dec_number dec_no_nul)
  next
    case False
    with assms(3) show ?thesis by (auto simp: picked_def)
  qed
  then obtain j where j: "j < length h" "m = 2 * j" "to_int64 api (c_str (fst (h ! j))) = Some v"
    by blast
  then have "list_ex (\<lambda>(f, x). to_int64 api (c_str f) = Some v \<and> c_str x = c_str (snd (h ! j))) h"
    by (force simp: list_ex_iff in_set_conv_nth)
  with j le show ?thesis by (intro that [of j]) (simp_all add: is_latest_def)
qed

text \<open>
  A read on a live connection: a null reply is dereferenced; otherwise nothing changes in the store, an
  empty hash leaves the version as it was, and any other gives its latest value unless the server has
  answered with an error.
\<close>

lemma get_cases:
  assumes "dbCon d \<notin> set (freed w)" and "versioned dec (at w k)"
  shows "DBInst_get api k currv d w = Inl NullDeref
      \<and> fst (redisCommand api (dbCon d) ''HGETALL %d'' [IntArg (ucast k)] (env w)) = None
    \<or> (\<exists>x v w'. DBInst_get api k currv d w = Inr (x, v, w')
      \<and> hash (env w') = hash (env w) \<and> freed w' = freed w \<and> (failed (env w) \<longrightarrow> failed (env w'))
      \<and> env w' = snd (redisCommand api (dbCon d) ''HGETALL %d'' [IntArg (ucast k)] (env w))
      \<and> (if at w k = [] then x = [] \<and> v = currv
         else is_latest (to_int64 api) (at w k) v x \<or> failed (env w') \<and> x = [] \<and> v = currv))"
proof -
  let ?cmd = "redisCommand api (dbCon d) ''HGETALL %d'' [IntArg (ucast k)] (env w)"
  from hgetall [of "dbCon d" "ucast k" "env w"] obtain r e' where cmd: "?cmd = (r, e')"
    and e': "hash e' = hash (env w)" "failed (env w) \<longrightarrow> failed e'"
    and r: "failed e' \<and> (r = None \<or> (\<exists>t. r = Some (ReplyError t)))
      \<or> (\<exists>h. r = Some (ReplyArray (flat h)) \<and> mset h = mset (at w k))"
    by (auto simp: at_def)
  from r consider "r = None" | t where "failed e'" "r = Some (ReplyError t)"
    | "r = Some (ReplyArray [])" "at w k = []"
    | h where "r = Some (ReplyArray (flat h))" "mset h = mset (at w k)" "h \<noteq> []"
    by (cases "at w k = []") fastforce+
  then show ?thesis
  proof cases
    case (4 h)
    have ver: "versioned dec h" using versioned_mset(1) [OF 4(2)] assms(2) by simp
    obtain v m where mv: "max_version api 0 (flat h) 0 0 = Inr (v, m)"
      and "picked (to_int64 api) h 0 0 0 v m"
      using max_version_flat [OF versioned_numbers [OF ver], of 0 0 0] by auto
    with ver 4(3) obtain j where j: "j < length h" "m = 2 * j"
      "is_latest (to_int64 api) h v (c_str (snd (h ! j)))"
      by (elim picked_versioned)
    have "1 < 2 * length h" using 4(3) by (cases h) simp_all
    then have "DBInst_get api k currv d w = Inr (c_str (snd (h ! j)), v, w\<lparr>env := e'\<rparr>)"
      using assms(1) cmd 4(1) mv j flat_nth [OF j(1)] by (simp add: DBInst_get_def DBInst_command_def)
    moreover have "at w k \<noteq> []" using 4(2,3) by auto
    ultimately show ?thesis using j(3) versioned_mset(2) [OF 4(2)] e' cmd by auto
  qed (use assms(1) cmd e' in \<open>simp_all add: DBInst_get_def DBInst_command_def\<close>)
qed

text \<open>Where the latest version is one that is stored, setting it again changes nothing.\<close>

lemma latest_stored:
  assumes "versioned dec h" and "is_latest (to_int64 api) h v x"
  shows "dec (ucast v) \<in> fst ` set h" and "0 \<le> sint v"
proof -
  from assms(2) obtain f y where f: "(f, y) \<in> set h" "to_int64 api (c_str f) = Some v"
    by (auto simp: is_latest_def list_ex_iff)
  with assms(1) obtain n where "f = dec n" "0 \<le> sint n"
    by (auto simp: versioned_def list_all_iff)
  with f have "v = scast n" "dec n \<in> fst ` set h" "0 \<le> sint n"
    by (auto simp: dec_number dec_no_nul intro: rev_image_eqI)
  then show "dec (ucast v) \<in> fst ` set h" and "0 \<le> sint v" by simp_all
qed

text \<open>A write on a live connection.\<close>

lemma set_cases:
  assumes "dbCon d \<notin> set (freed w)"
  shows "DBInst_set api k x v d w = Inl WildPointer \<and> vararg_fbstring api x (env w) = None
    \<or> (\<exists>s. vararg_fbstring api x (env w) = Some s
      \<and> (DBInst_set api k x v d w = Inl NullDeref
          \<and> fst (redisCommand api (dbCon d) ''HSETNX %d %d %s''
              [IntArg (ucast k), IntArg (ucast v), StrArg s] (env w)) = None
        \<or> (\<exists>b w'. DBInst_set api k x v d w = Inr (b, w')
          \<and> freed w' = freed w \<and> (failed (env w) \<longrightarrow> failed (env w'))
          \<and> (failed (env w') \<and> \<not> b \<and> hash (env w') = hash (env w)
            \<or> b = (dec (ucast v) \<notin> fst ` set (at w k))
              \<and> hash (env w') = (if dec (ucast v) \<in> fst ` set (at w k) then hash (env w)
                  else (hash (env w))(ucast k := at w k @ [(dec (ucast v), s)]))))))"
proof (cases "vararg_fbstring api x (env w)")
  case (Some s)
  from hsetnx [of "dbCon d" "ucast k" "ucast v" s "env w"] obtain r e' where cmd:
    "redisCommand api (dbCon d) ''HSETNX %d %d %s'' [IntArg (ucast k), IntArg (ucast v), StrArg s] (env w)
       = (r, e')"
    and e': "failed (env w) \<longrightarrow> failed e'"
    and r: "failed e' \<and> r = None \<or> failed e' \<and> (\<exists>t. r = Some (ReplyError t)) \<and> hash e' = hash (env w)
      \<or> r = Some (ReplyInteger (if dec (ucast v) \<in> fst ` set (at w k) then 0 else 1))
        \<and> hash e' = (if dec (ucast v) \<in> fst ` set (at w k) then hash (env w)
             else (hash (env w))(ucast k := at w k @ [(dec (ucast v), s)]))"
    unfolding at_def by blast
  from r show ?thesis
    using Some assms cmd e' by (elim disjE conjE exE) (simp_all add: DBInst_set_def DBInst_command_def ex_bool_eq)
qed (simp add: DBInst_set_def)

end

section \<open>A concrete server\<close>

record ref_env =
  hashes :: "(i32 \<times> (bytes \<times> bytes) list) list"
  next_con :: nat
  rands :: "nat list"

definition ref_hash :: "ref_env \<Rightarrow> i32 \<Rightarrow> (bytes \<times> bytes) list" where
  "ref_hash e k = (case map_of (hashes e) k of Some h \<Rightarrow> h | None \<Rightarrow> [])"

definition ref_dec :: "i32 \<Rightarrow> bytes" where
  "ref_dec n = dec_int (sint n)"

definition ref_command ::
  "dbcon \<Rightarrow> string \<Rightarrow> redis_arg list \<Rightarrow> ref_env \<Rightarrow> redisReply option \<times> ref_env" where
  "ref_command c fmt args e =
     (case args of
        [IntArg k] \<Rightarrow> (Some (ReplyArray (flat (ref_hash e k))), e)
      | [IntArg k, IntArg n, StrArg s] \<Rightarrow>
          (if ref_dec n \<in> fst ` set (ref_hash e k) then (Some (ReplyInteger 0), e)
           else (Some (ReplyInteger 1),
                 e\<lparr>hashes := (k, ref_hash e k @ [(ref_dec n, s)]) # hashes e\<rparr>))
      | _ \<Rightarrow> (Some (ReplyStatus (ascii ''OK'')), e))"

text \<open>The object of a long string begins with an address, here always the same.\<close>

definition ref_host :: "ref_env host_api" where
  "ref_host =
     \<lparr>redisConnectWithTimeout = (\<lambda>ip port timeout e. (next_con e, e\<lparr>next_con := Suc (next_con e)\<rparr>)),
      redisCommand = ref_command,
      redisFree = (\<lambda>c e. e),
      to_int64 = (\<lambda>s. map_option of_int (undec_int s)),
      vararg_fbstring = (\<lambda>s e. Some (if length s \<le> 23 then c_str s else [160, 92, 1])),
      c_rand = (\<lambda>e. case rands e of [] \<Rightarrow> (0, e) | r # rs \<Rightarrow> (r, e\<lparr>rands := rs\<rparr>))\<rparr>"

lemma ref_hash_cons [simp]:
  "ref_hash (e\<lparr>hashes := (k, h) # hashes e\<rparr>) = (ref_hash e)(k := h)"
  by (rule ext) (simp add: ref_hash_def)

lemma ref_hash_other [simp]:
  "ref_hash (e\<lparr>rands := rs\<rparr>) = ref_hash e" "ref_hash (e\<lparr>next_con := n\<rparr>) = ref_hash e"
  by (simp_all add: ref_hash_def fun_eq_iff)

interpretation ref_redis: redis_hashes ref_host ref_hash ref_dec "\<lambda>e. False"
proof
  show "to_int64 ref_host (ref_dec n) = Some (scast n)" for n
    by (simp add: ref_host_def ref_dec_def undec_dec_int)
  show "0 \<notin> set (ref_dec n)" for n
    by (simp add: ref_dec_def dec_int_no_nul)
qed (auto simp: ref_host_def ref_command_def split: list.splits)

text \<open>The same store behind connections on which every command fails, in one of the two ways.\<close>

definition failing_host :: "redisReply option \<Rightarrow> ref_env host_api" where
  "failing_host r = ref_host\<lparr>redisCommand := (\<lambda>c fmt args e. (r, e))\<rparr>"

lemma failing_conforms:
  assumes "r = None \<or> (\<exists>t. r = Some (ReplyError t))"
  shows "redis_hashes (failing_host r) ref_hash ref_dec (\<lambda>e. True)"
proof
  show "to_int64 (failing_host r) (ref_dec n) = Some (scast n)" for n
    using ref_redis.dec_number by (simp add: failing_host_def)
  show "0 \<notin> set (ref_dec n)" for n by (rule ref_redis.dec_no_nul)
qed (use assms in \<open>auto simp: failing_host_def ref_host_def split: list.splits\<close>)

section \<open>Properties\<close>

text \<open>
  C11. A read returns the greatest version of a versioned hash and the value stored under it,
  whatever the order in which the server lists the fields, and changes nothing in the store, unless
  the command fails.
\<close>

theorem redis_get_returns_latest:
  assumes "redis_hashes api hash dec failed" and "dbCon d \<notin> set (freed w)"
    and "hash (env w) (ucast k) \<noteq> []" and "versioned dec (hash (env w) (ucast k))"
    and "\<not> failed (snd (redisCommand api (dbCon d) ''HGETALL %d'' [IntArg (ucast k)] (env w)))"
  shows "\<exists>x v w'. DBInst_get api k currv d w = Inr (x, v, w')
    \<and> is_latest (to_int64 api) (hash (env w) (ucast k)) v x
    \<and> hash (env w') = hash (env w) \<and> freed w' = freed w"
proof -
  from redis_hashes.hgetall [OF assms(1), of "dbCon d" "ucast k" "env w"] assms(5)
  have "fst (redisCommand api (dbCon d) ''HGETALL %d'' [IntArg (ucast k)] (env w)) \<noteq> None" by auto
  with redis_hashes.get_cases [OF assms(1,2), of k currv] assms(3-5) show ?thesis
    by (auto simp: redis_hashes.at_def [OF assms(1)])
qed

definition ex_db :: "ref_env db_world" where
  "ex_db = \<lparr>env = \<lparr>hashes = [(11, [(ref_dec 4, [97]), (ref_dec 9, [98]), (ref_dec 0, [99])])],
     next_con = 10, rands = []\<rparr>, freed = [3]\<rparr>"

lemma ex_db_versioned: "versioned ref_dec (ref_hash (env ex_db) 11)"
  by (auto simp: ex_db_def ref_hash_def versioned_def ref_redis.dec_inj)

theorem redis_get_returns_latest_witness:
  "\<exists>x v w'. DBInst_get ref_host 11 0 \<lparr>dbCon = 2\<rparr> ex_db = Inr (x, v, w')
    \<and> is_latest (to_int64 ref_host) (ref_hash (env ex_db) (ucast (11 :: u64))) v x
    \<and> ref_hash (env w') = ref_hash (env ex_db) \<and> freed w' = freed ex_db"
  by (rule redis_get_returns_latest [OF ref_redis.redis_hashes_axioms])
    (use ex_db_versioned in \<open>simp_all add: ex_db_def ref_hash_def\<close>)

text \<open>
  A version above all stored ones can be set, and when neither command fails the next read returns it
  with its value, up to the first NUL, as long as the value fits into the string object.
\<close>

theorem redis_get_after_set:
  assumes "redis_hashes api hash dec failed" and "dbCon d \<notin> set (freed w)"
    and "versioned dec (hash (env w) (ucast k))"
    and "v = scast (n :: i32)" and "0 \<le> sint v"
    and "list_all (\<lambda>(f, y). \<forall>m. f = dec m \<longrightarrow> sint m < sint n) (hash (env w) (ucast k))"
    and "length x \<le> 23" and "DBInst_set api k x v d w = Inr (b, w')"
    and "DBInst_get api k currv d w' = Inr (y, u, w'')" and "\<not> failed (env w'')"
  shows "b \<and> y = c_str x \<and> u = v"
proof -
  note rh = assms(1) and at = redis_hashes.at_def [OF assms(1)]
  let ?h = "hash (env w) (ucast k)" and ?p = "(dec n, c_str x)"
  have un: "ucast v = n" using assms(4) by simp
  have new: "dec n \<notin> fst ` set ?h" using assms(6) by (fastforce simp: list_all_iff)
  have ver: "versioned dec (?h @ [?p])"
    using assms(3-5) new by (auto simp: versioned_def)
  from redis_hashes.set_cases [OF rh assms(2), of k x v] assms(8) un new
    redis_hashes.short_string [OF rh assms(7), of "env w"]
  have w': "freed w' = freed w" and b: "\<not> failed (env w') \<Longrightarrow> b \<and> hash (env w') = (hash (env w))(ucast k := ?h @ [?p])"
    and ver': "versioned dec (hash (env w') (ucast k))"
    using assms(3) ver by (auto simp: at)
  from redis_hashes.get_cases [OF rh, of d w' k currv] assms(2,9,10) w' ver'
  have live: "\<not> failed (env w')" and g: "hash (env w') (ucast k) \<noteq> [] \<Longrightarrow>
      is_latest (to_int64 api) (hash (env w') (ucast k)) u y"
    by (auto simp: at split: if_splits)
  have g: "is_latest (to_int64 api) (?h @ [?p]) u y" and b using b [OF live] g by simp_all
  have "f = dec m \<Longrightarrow> to_int64 api (c_str f) = Some (scast m)" for f m
    by (simp add: redis_hashes.dec_number [OF rh] redis_hashes.dec_no_nul [OF rh])
  moreover have "\<exists>m. f = dec m \<and> sint m < sint n" if "(f, z) \<in> set ?h" for f z
    using that assms(3,6) by (fastforce simp: versioned_def list_all_iff)
  ultimately have "u = v \<and> y = c_str (c_str x)"
    using g assms(4) by (fastforce simp: is_latest_def list_ex_iff list_all_iff)
  with \<open>b\<close> show ?thesis by (simp add: c_str_no_nul)
qed

text \<open>
  The store tells keys apart by their low 32 bits only: a key and the key \<open>2 ^ 32\<close> above it read
  and write the same hash, whatever the server.
\<close>

theorem redis_keys_alias:
  "DBInst_get api (k + 2 ^ 32) currv d w = DBInst_get api k currv d w
   \<and> DBInst_set api (k + 2 ^ 32) x currv d w = DBInst_set api k x currv d w"
proof -
  have "(ucast (k + 2 ^ 32) :: i32) = ucast k"
    by (rule word_unat_eq_iff [THEN iffD2])
      (simp add: unsigned_ucast_eq take_bit_eq_mod unat_word_ariths mod_mod_cancel)
  then show ?thesis by (simp add: DBInst_get_def DBInst_set_def cong: option.case_cong)
qed

end
