(* ===== verification/Http.thy ===== *)
theory Http
  imports Prelude
begin

text \<open>
  What the request handlers of the repository see of proxygen: the request message, the body as a
  chain of buffers, the responses handed to the downstream through a \<open>ResponseBuilder\<close>, and the
  order of the callbacks. The locale \<open>request_handler\<close> is that interface; each handler class of
  the repository interprets it.
\<close>

section \<open>Messages\<close>

record HTTPMessage =
  http_method :: string
  http_url :: string
  http_headers :: "(string \<times> string) list"

text \<open>An \<open>IOBuf\<close>: the bytes of its first buffer, then those of the rest of the chain.\<close>

type_synonym IOBuf = "bytes \<times> bytes list"

definition iobuf_bytes :: "IOBuf \<Rightarrow> bytes" where
  "iobuf_bytes b = fst b @ concat (snd b)"

text \<open>
  What a \<open>ResponseBuilder\<close> has gathered when it is sent: a status line if one was given, headers, a
  body if one was given, and whether the message ends there.
\<close>

record Response =
  rb_status :: "(nat \<times> string) option"
  rb_headers :: "(string \<times> string) list"
  rb_body :: "IOBuf option"
  rb_eom :: bool

definition ResponseBuilder :: Response where
  "ResponseBuilder = \<lparr>rb_status = None, rb_headers = [], rb_body = None, rb_eom = False\<rparr>"

definition response_body :: "Response list \<Rightarrow> bytes" where
  "response_body rs =
     concat (map (\<lambda>r. case rb_body r of None \<Rightarrow> [] | Some b \<Rightarrow> iobuf_bytes b) rs)"

lemma response_body_simps [simp]:
  "response_body [] = []"
  "response_body (r # rs) = (case rb_body r of None \<Rightarrow> [] | Some b \<Rightarrow> iobuf_bytes b) @ response_body rs"
  "response_body (rs @ rs') = response_body rs @ response_body rs'"
  by (simp_all add: response_body_def)

text \<open>The loop of the handlers that copies the request's headers into the builder.\<close>

lemma echo_headers:
  "foldl (\<lambda>b (name, value). b\<lparr>rb_headers := rb_headers b @ [(''x-echo-'' @ name, value)]\<rparr>) b hs
   = b\<lparr>rb_headers := rb_headers b @ map (\<lambda>(name, value). (''x-echo-'' @ name, value)) hs\<rparr>"
  by (induction hs arbitrary: b) (simp_all add: split_beta)

text \<open>A well-formed answer: one status line, at the start, and one end of message, at the end.\<close>

definition well_formed :: "Response list \<Rightarrow> bool" where
  "well_formed rs =
     (2 \<le> length rs
      \<and> rb_status (hd rs) \<noteq> None \<and> list_all (\<lambda>r. rb_status r = None) (tl rs)
      \<and> rb_eom (last rs) \<and> list_all (\<lambda>r. \<not> rb_eom r) (butlast rs))"

section \<open>The handler interface\<close>

text \<open>
  A handler has a state \<open>'h\<close> and shares a state \<open>'s\<close> with the rest of the process; every callback
  returns what it sends downstream. proxygen calls \<open>onRequest\<close>, \<open>onBody\<close> for each part of the
  body, \<open>onEOM\<close>, and \<open>requestComplete\<close>, which ends the handler's life.
\<close>

record ('h, 's) handler_ops =
  h_onRequest :: "HTTPMessage \<Rightarrow> 'h \<Rightarrow> 's \<Rightarrow> (Response list \<times> 'h \<times> 's) res"
  h_onBody :: "IOBuf \<Rightarrow> 'h \<Rightarrow> 's \<Rightarrow> (Response list \<times> 'h \<times> 's) res"
  h_onEOM :: "'h \<Rightarrow> 's \<Rightarrow> (Response list \<times> 'h \<times> 's) res"

fun run_bodies ::
  "('h, 's) handler_ops \<Rightarrow> IOBuf list \<Rightarrow> 'h \<Rightarrow> 's \<Rightarrow> (Response list \<times> 'h \<times> 's) res" where
  "run_bodies ops [] h s = Inr ([], h, s)"
| "run_bodies ops (b # bs) h s =
     res_bind (h_onBody ops b h s) (\<lambda>(r, h, s).
       res_bind (run_bodies ops bs h s) (\<lambda>(r', h, s). Inr (r @ r', h, s)))"

definition run_request ::
  "('h, 's) handler_ops \<Rightarrow> HTTPMessage \<Rightarrow> IOBuf list \<Rightarrow> 'h \<Rightarrow> 's \<Rightarrow> (Response list \<times> 's) res" where
  "run_request ops req body h s =
     res_bind (h_onRequest ops req h s) (\<lambda>(r1, h, s).
       res_bind (run_bodies ops body h s) (\<lambda>(r2, h, s).
         res_bind (h_onEOM ops h s) (\<lambda>(r3, h, s). Inr (r1 @ r2 @ r3, s))))"

text \<open>
  The contract: a header opens the answer, the parts of the body neither open nor close it, the
  end of the request closes it.
\<close>

locale request_handler =
  fixes ops :: "('h, 's) handler_ops"
  assumes opens: "h_onRequest ops req h s = Inr (r, h', s') \<Longrightarrow>
      \<exists>x. r = [x] \<and> rb_status x \<noteq> None \<and> \<not> rb_eom x"
    and goes_on: "h_onBody ops b h s = Inr (r, h', s') \<Longrightarrow>
      list_all (\<lambda>x. rb_status x = None \<and> \<not> rb_eom x) r"
    and closes: "h_onEOM ops h s = Inr (r, h', s') \<Longrightarrow>
      \<exists>x. r = [x] \<and> rb_status x = None \<and> rb_eom x"
begin

lemma run_bodies_go_on:
  "run_bodies ops bs h s = Inr (r, h', s') \<Longrightarrow> list_all (\<lambda>x. rb_status x = None \<and> \<not> rb_eom x) r"
proof (induction bs arbitrary: h s r)
  case (Cons b bs)
  then show ?case by (fastforce simp: res_bind_Inr split_beta dest: goes_on)
qed simp

lemma run_request_well_formed:
  assumes "run_request ops req body h s = Inr (r, s')"
  shows "well_formed r"
proof -
  from assms obtain r1 h1 s1 r2 h2 s2 r3 h3 where
    p: "h_onRequest ops req h s = Inr (r1, h1, s1)" "run_bodies ops body h1 s1 = Inr (r2, h2, s2)"
    "h_onEOM ops h2 s2 = Inr (r3, h3, s')" and r: "r = r1 @ r2 @ r3"
    by (auto simp: run_request_def res_bind_Inr)
  obtain x y where "r1 = [x]" "rb_status x \<noteq> None" "\<not> rb_eom x"
    "r3 = [y]" "rb_status y = None" "rb_eom y"
    using opens [OF p(1)] closes [OF p(3)] by blast
  with run_bodies_go_on [OF p(2)] r show ?thesis
    by (auto simp: well_formed_def list_all_iff butlast_append)
qed

end

text \<open>
  A handler that answers each part of the body with one part of its own, a function of the handler
  and the part alone, and sends no body elsewhere.
\<close>

locale body_handler = request_handler ops for ops :: "('h, 's) handler_ops" +
  fixes answer :: "'h \<Rightarrow> IOBuf \<Rightarrow> IOBuf"
  assumes header_only: "h_onRequest ops req h s = Inr (r, h', s') \<Longrightarrow>
      h' = h \<and> list_all (\<lambda>x. rb_body x = None) r"
    and part: "h_onBody ops b h s = Inr ([ResponseBuilder\<lparr>rb_body := Some (answer h b)\<rparr>], h, s)"
    and end_only: "\<exists>r. h_onEOM ops h s = Inr (r, h, s) \<and> list_all (\<lambda>x. rb_body x = None) r"
begin

lemma run_bodies_answer:
  "\<exists>r. run_bodies ops bs h s = Inr (r, h, s)
     \<and> response_body r = concat (map (\<lambda>b. iobuf_bytes (answer h b)) bs)"
  by (induction bs) (auto simp: part ResponseBuilder_def)

lemma no_body: "list_all (\<lambda>x. rb_body x = None) r \<Longrightarrow> response_body r = []"
  by (induction r) auto

text \<open>Once the header is sent, the request runs to its end and touches the shared state no more.\<close>

lemma run_request_answer:
  assumes "h_onRequest ops req h s = Inr (r1, h', s')"
  obtains r where "run_request ops req body h s = Inr (r1 @ r, s')"
    and "well_formed (r1 @ r)"
    and "response_body (r1 @ r) = concat (map (\<lambda>b. iobuf_bytes (answer h b)) body)"
proof -
  have h: "h' = h" "response_body r1 = []"
    using header_only [OF assms] no_body by auto
  obtain r2 where r2: "run_bodies ops body h s' = Inr (r2, h, s')"
    "response_body r2 = concat (map (\<lambda>b. iobuf_bytes (answer h b)) body)"
    using run_bodies_answer by blast
  obtain r3 where r3: "h_onEOM ops h s' = Inr (r3, h, s')" "response_body r3 = []"
    using end_only no_body by blast
  have run: "run_request ops req body h s = Inr (r1 @ r2 @ r3, s')"
    using assms h r2 r3 by (simp add: run_request_def)
  show thesis
    using run run_request_well_formed [OF run] h r2 r3 by (intro that [of "r2 @ r3"]) auto
qed

end

end
