(* ===== verification/Service.thy ===== *)
theory Service
  imports Msg CacheSpace RedisDB Http
begin

text \<open>
  The feature service (feature-server/service/Service.h and Service.cpp): the factory that routes
  a URL to a handler type and the handler that answers pull, push and delete-from-cache requests
  from the cache and the store. One record holds what the requests share: the cache singleton, the
  ten store connections and the world outside.
\<close>

section \<open>State\<close>

record ('c, 'e, 'u) libs =
  lib_cache :: "'c evicting_map"
  lib_host :: "'e host_api"
  lib_pb :: "'u pb_api"
  uninit_int64 :: i64

record ('c, 'e) server =
  static_cache :: "'c CacheSpace option"
  insts :: "DBInst list"
  db :: "'e db_world"

record FsHandler =
  reqType :: MsgType

text \<open>Process start: the connections are made before \<open>main\<close>; the cache waits for its first use.\<close>

definition server_start :: "('c, 'e, 'u) libs \<Rightarrow> 'e \<Rightarrow> ('c, 'e) server" where
  "server_start libs e =
     (let (ds, w) = G_DBInsts (lib_host libs) \<lparr>env = e, freed = []\<rparr>
      in \<lparr>static_cache = None, insts = ds, db = w\<rparr>)"

section \<open>Routing and the simple callbacks\<close>

definition FsHandlerFactory_onRequest :: "HTTPMessage \<Rightarrow> FsHandler" where
  "FsHandlerFactory_onRequest head =
     (if http_url head = ''/pull'' then \<lparr>reqType = Pull\<rparr>
      else if http_url head = ''/push'' then \<lparr>reqType = Push\<rparr>
      else if http_url head = ''/delcache'' then \<lparr>reqType = DelCache\<rparr>
      else \<lparr>reqType = Unknow\<rparr>)"

definition FsHandler_onRequest ::
  "HTTPMessage \<Rightarrow> FsHandler \<Rightarrow> ('c, 'e) server \<Rightarrow> (Response list \<times> FsHandler \<times> ('c, 'e) server) res"
where
  "FsHandler_onRequest req h s =
     (let builder = ResponseBuilder\<lparr>rb_status := Some (200, ''OK'')\<rparr>;
          builder = foldl (\<lambda>b (name, value). b\<lparr>rb_headers := rb_headers b @ [(''x-echo-'' @ name, value)]\<rparr>)
                      builder (http_headers req)
      in Inr ([builder], h, s))"

definition FsHandler_onEOM ::
  "FsHandler \<Rightarrow> ('c, 'e) server \<Rightarrow> (Response list \<times> FsHandler \<times> ('c, 'e) server) res" where
  "FsHandler_onEOM h s = Inr ([ResponseBuilder\<lparr>rb_eom := True\<rparr>], h, s)"

definition send_body :: "bytes \<Rightarrow> Response" where
  "send_body b = ResponseBuilder\<lparr>rb_body := Some (b, [])\<rparr>"

section \<open>The body of a request\<close>

text \<open>\<open>G_DBInsts[rand() % DBInstNum]\<close>.\<close>

definition pick_inst ::
  "('c, 'e, 'u) libs \<Rightarrow> ('c, 'e) server \<Rightarrow> (DBInst \<times> ('c, 'e) server) res" where
  "pick_inst libs s =
     (let (r, e) = c_rand (lib_host libs) (env (db s));
          i = r mod DBInstNum
      in if i < length (insts s) then Inr (insts s ! i, s\<lparr>db := (db s)\<lparr>env := e\<rparr>\<rparr>)
         else Inl OutOfRange)"

text \<open>
  One key of a pull: from the cache, or, when that gives the empty string, from a random store
  connection and into the cache.
\<close>

definition pull_key ::
  "('c, 'e, 'u) libs \<Rightarrow> u64 \<Rightarrow> i64 \<Rightarrow> ('c, 'e) server \<Rightarrow> (bytes \<times> i64 \<times> ('c, 'e) server) res" where
  "pull_key libs k currv s =
     (let (d, c) = CacheSpace_get (lib_cache libs) k
                     (CacheSpace_singleton (lib_cache libs) (static_cache s));
          s = s\<lparr>static_cache := Some c\<rparr>
      in if d = [] then
           res_bind (pick_inst libs s) (\<lambda>(inst, s).
           res_bind (DBInst_get (lib_host libs) k currv inst (db s)) (\<lambda>(d, currv, w).
             let c = CacheSpace_singleton (lib_cache libs) (static_cache s);
                 (ret, c) = CacheSpace_set (lib_cache libs) k d c
             in Inr (d, currv, s\<lparr>static_cache := Some c, db := w\<rparr>)))
         else Inr (d, currv, s))"

text \<open>The loop of a pull over the keys; \<open>i\<close> is the index of the next one.\<close>

fun pull_loop ::
  "('c, 'e, 'u) libs \<Rightarrow> nat \<Rightarrow> u64 list \<Rightarrow> i64 \<Rightarrow> InOutMsg \<Rightarrow> ('c, 'e) server
   \<Rightarrow> (InOutMsg \<times> ('c, 'e) server) res" where
  "pull_loop libs i [] currv msg s = Inr (msg, s)"
| "pull_loop libs i (k # ks) currv msg s =
     res_bind (pull_key libs k currv s) (\<lambda>(d, currv, s).
     res_bind (InOutMsg_setPullData i d msg) (\<lambda>msg.
       pull_loop libs (Suc i) ks currv msg s))"

text \<open>
  The loop of a push: read, append, write under the version just read. The version is carried
  from one key to the next when a key has no value yet.
\<close>

fun push_loop ::
  "('c, 'e, 'u) libs \<Rightarrow> DataInfo list \<Rightarrow> i64 \<Rightarrow> DBInst \<Rightarrow> ('c, 'e) server \<Rightarrow> ('c, 'e) server res" where
  "push_loop libs [] currv dbinst s = Inr s"
| "push_loop libs (kv # kvs) currv dbinst s =
     res_bind (DBInst_get (lib_host libs) (info_id kv) currv dbinst (db s)) (\<lambda>(d, currv, w).
     res_bind (DBInst_set (lib_host libs) (info_id kv) (d @ info_d kv) currv dbinst w) (\<lambda>(setRet, w).
       push_loop libs kvs currv dbinst (s\<lparr>db := w\<rparr>)))"

fun del_loop :: "('c, 'e, 'u) libs \<Rightarrow> u64 list \<Rightarrow> ('c, 'e) server \<Rightarrow> ('c, 'e) server" where
  "del_loop libs [] s = s"
| "del_loop libs (k # ks) s =
     del_loop libs ks (s\<lparr>static_cache := Some (CacheSpace_del (lib_cache libs) k
       (CacheSpace_singleton (lib_cache libs) (static_cache s)))\<rparr>)"

definition handle_pull ::
  "('c, 'e, 'u) libs \<Rightarrow> InOutMsg \<Rightarrow> ('c, 'e) server \<Rightarrow> (Response list \<times> ('c, 'e) server) res" where
  "handle_pull libs msg s =
     res_bind (pull_loop libs 0 (InOutMsg_getPullIds msg) (uninit_int64 libs) msg s) (\<lambda>(msg, s).
       Inr ([send_body (InOutMsg_EncodeRsp (lib_pb libs) 0 msg)], s))"

definition handle_delcache ::
  "('c, 'e, 'u) libs \<Rightarrow> InOutMsg \<Rightarrow> ('c, 'e) server \<Rightarrow> (Response list \<times> ('c, 'e) server) res" where
  "handle_delcache libs msg s =
     (let s = del_loop libs (InOutMsg_getPullIds msg) s
      in Inr ([send_body (InOutMsg_EncodeRsp (lib_pb libs) 0 msg)], s))"

text \<open>
  The \<open>Push\<close> case copies the connection object; the copy is destroyed, and the shared connection
  freed, at the end of the case's block. No \<open>break\<close> follows, so the \<open>DelCache\<close> case runs next.
\<close>

definition handle_push ::
  "('c, 'e, 'u) libs \<Rightarrow> InOutMsg \<Rightarrow> ('c, 'e) server \<Rightarrow> (Response list \<times> ('c, 'e) server) res" where
  "handle_push libs msg s =
     res_bind (pick_inst libs s) (\<lambda>(dbinst, s).
     res_bind (push_loop libs (InOutMsg_getInfos msg) 0 dbinst s) (\<lambda>s.
     res_bind (DBInst_dtor (lib_host libs) dbinst (db s)) (\<lambda>w.
     res_bind (handle_delcache libs msg (s\<lparr>db := w\<rparr>)) (\<lambda>(r, s).
       Inr (send_body (InOutMsg_EncodeRsp (lib_pb libs) 0 msg) # r, s)))))"

text \<open>Only the first buffer of the body's chain is decoded.\<close>

definition FsHandler_onBody ::
  "('c, 'e, 'u) libs \<Rightarrow> IOBuf \<Rightarrow> FsHandler \<Rightarrow> ('c, 'e) server
   \<Rightarrow> (Response list \<times> FsHandler \<times> ('c, 'e) server) res" where
  "FsHandler_onBody libs body h s =
     (let msg = InOutMsg_ctor (lib_pb libs) (fst body) (reqType h)
      in res_bind
        (case reqType h of
           Unknow \<Rightarrow> Inr ([send_body (InOutMsg_EncodeRsp (lib_pb libs) 1 msg)], s)
         | Pull \<Rightarrow> handle_pull libs msg s
         | Push \<Rightarrow> handle_push libs msg s
         | DelCache \<Rightarrow> handle_delcache libs msg s) (\<lambda>(r, s). Inr (r, h, s)))"

definition FsHandler_ops :: "('c, 'e, 'u) libs \<Rightarrow> (FsHandler, ('c, 'e) server) handler_ops" where
  "FsHandler_ops libs =
     \<lparr>h_onRequest = FsHandler_onRequest, h_onBody = FsHandler_onBody libs, h_onEOM = FsHandler_onEOM\<rparr>"

text \<open>One request, and a history of requests served one after the other.\<close>

definition serve ::
  "('c, 'e, 'u) libs \<Rightarrow> HTTPMessage \<times> IOBuf list \<Rightarrow> ('c, 'e) server
   \<Rightarrow> (Response list \<times> ('c, 'e) server) res" where
  "serve libs rq s =
     run_request (FsHandler_ops libs) (fst rq) (snd rq) (FsHandlerFactory_onRequest (fst rq)) s"

fun serve_all ::
  "('c, 'e, 'u) libs \<Rightarrow> (HTTPMessage \<times> IOBuf list) list \<Rightarrow> ('c, 'e) server
   \<Rightarrow> (Response list list \<times> ('c, 'e) server) res" where
  "serve_all libs [] s = Inr ([], s)"
| "serve_all libs (rq # rqs) s =
     res_bind (serve libs rq s) (\<lambda>(r, s).
       res_bind (serve_all libs rqs s) (\<lambda>(rs, s). Inr (r # rs, s)))"

section \<open>The handler meets the interface\<close>

lemma send_body_plain [simp]:
  "rb_status (send_body b) = None" "\<not> rb_eom (send_body b)" "rb_body (send_body b) = Some (b, [])"
  by (simp_all add: send_body_def ResponseBuilder_def)

lemma FsHandler_onRequest_eq:
  "FsHandler_onRequest req h s =
     Inr ([ResponseBuilder\<lparr>rb_status := Some (200, ''OK''),
       rb_headers := map (\<lambda>(name, value). (''x-echo-'' @ name, value)) (http_headers req)\<rparr>], h, s)"
  unfolding FsHandler_onRequest_def Let_def echo_headers by (simp add: ResponseBuilder_def)

lemma FsHandler_onBody_sends:
  assumes "FsHandler_onBody libs b h s = Inr (r, h', s')"
  shows "h' = h" and "list_all (\<lambda>x. rb_status x = None \<and> \<not> rb_eom x) r"
  using assms
  by (auto simp: FsHandler_onBody_def handle_pull_def handle_push_def handle_delcache_def
      res_bind_Inr Let_def split: MsgType.splits)

interpretation fs_handler: request_handler "FsHandler_ops libs" for libs :: "('c, 'e, 'u) libs"
proof
  fix req h s r h' s'
  assume "h_onRequest (FsHandler_ops libs) req h s = Inr (r, h', s')"
  then show "\<exists>x. r = [x] \<and> rb_status x \<noteq> None \<and> \<not> rb_eom x"
    by (auto simp: FsHandler_ops_def FsHandler_onRequest_eq ResponseBuilder_def)
next
  fix b h s r h' s'
  assume "h_onBody (FsHandler_ops libs) b h s = Inr (r, h', s')"
  then show "list_all (\<lambda>x. rb_status x = None \<and> \<not> rb_eom x) r"
    using FsHandler_onBody_sends(2) [of libs b h s r h' s'] by (simp add: FsHandler_ops_def)
next
  fix h s r h' s'
  assume "h_onEOM (FsHandler_ops libs) h s = Inr (r, h', s')"
  then show "\<exists>x. r = [x] \<and> rb_status x = None \<and> rb_eom x"
    by (auto simp: FsHandler_ops_def FsHandler_onEOM_def ResponseBuilder_def)
qed

end
