(* ===== verification/ServiceFacts.thy ===== *)
theory ServiceFacts
  imports Service
begin

text \<open>
  The service over a cache and a store that keep their contracts (the locales of \<open>CacheSpace\<close> and
  \<open>RedisDB\<close>): the invariant that every request preserves, what a pull answers, what a push stores,
  how connections are used up, and the faults that can end a request. A command of redis may fail at
  any time; what a request answers and stores is stated for the time until one has failed, the rest
  for all times.
\<close>

section \<open>The service over its contracts\<close>

text \<open>
  What the store answers for a hash: the empty string when there is none, else the value of the
  latest version.
\<close>

definition value_of :: "(bytes \<Rightarrow> i64 option) \<Rightarrow> (bytes \<times> bytes) list \<Rightarrow> bytes \<Rightarrow> bool" where
  "value_of num h x = (if h = [] then x = [] else list_ex (\<lambda>(f, y). case num (c_str f) of
     Some v \<Rightarrow> is_latest num h v x | None \<Rightarrow> False) h)"

lemma value_of_latest: "h \<noteq> [] \<Longrightarrow> is_latest num h v x \<Longrightarrow> value_of num h x"
proof -
  assume "h \<noteq> []" and l: "is_latest num h v x"
  from l obtain f y where "(f, y) \<in> set h" "num (c_str f) = Some v"
    by (auto simp: is_latest_def list_ex_iff)
  with l \<open>h \<noteq> []\<close> show ?thesis
    unfolding value_of_def list_ex_iff by (auto intro!: bexI [of _ "(f, y)"])
qed

locale feature_store =
  cache: evicting_cache "lib_cache libs" look cap ok + redis: redis_hashes "lib_host libs" hash dec failed
  for libs :: "('c, 'e, 'u) libs" and look cap ok hash dec failed
begin

text \<open>No command of redis has failed yet.\<close>

abbreviation fine :: "('c, 'e) server \<Rightarrow> bool" where
  "fine s \<equiv> \<not> failed (env (db s))"

definition the_cache :: "('c, 'e) server \<Rightarrow> 'c CacheSpace" where
  "the_cache s = CacheSpace_singleton (lib_cache libs) (static_cache s)"

definition stored :: "('c, 'e) server \<Rightarrow> u64 \<Rightarrow> (bytes \<times> bytes) list" where
  "stored s k = redis.at (db s) k"

text \<open>The cache holds nothing but the empty string or what the store answers.\<close>

definition coherent :: "('c, 'e) server \<Rightarrow> bool" where
  "coherent s = (\<forall>k v. cache.clook (the_cache s) k = Some v \<longrightarrow> v \<noteq> [] \<longrightarrow>
     value_of (to_int64 (lib_host libs)) (stored s k) v)"

definition inv :: "('c, 'e) server \<Rightarrow> bool" where
  "inv s = (cache.cok (the_cache s) \<and> redis.good (db s) \<and> (fine s \<longrightarrow> coherent s)
     \<and> length (insts s) = DBInstNum)"

text \<open>No connection of the pool has been freed.\<close>

definition live :: "('c, 'e) server \<Rightarrow> bool" where
  "live s = list_all (\<lambda>d. dbCon d \<notin> set (freed (db s))) (insts s)"

text \<open>
  The faults that can end a request: a connection that a push has freed, a command without a reply, and,
  in a push, a wild read of the string to be stored.
\<close>

definition ends :: "bool \<Rightarrow> fault \<Rightarrow> ('c, 'e) server \<Rightarrow> bool" where
  "ends push f s \<longleftrightarrow> f = UseAfterFree \<and> (push \<or> \<not> live s)
     \<or> f = NullDeref \<and> (mute (lib_host libs) ''HGETALL %d'' \<or> push \<and> mute (lib_host libs) ''HSETNX %d %d %s'')
     \<or> f = WildPointer \<and> push \<and> unreadable (lib_host libs)"

lemma ends_mono: "ends p f s \<Longrightarrow> (p \<Longrightarrow> q) \<Longrightarrow> (live t \<Longrightarrow> q \<or> live s) \<Longrightarrow> ends q f t"
  by (auto simp: ends_def)

text \<open>Nothing a client can see of the store or of the pool has changed.\<close>

definition same :: "('c, 'e) server \<Rightarrow> ('c, 'e) server \<Rightarrow> bool" where
  "same s s' = (hash (env (db s')) = hash (env (db s)) \<and> freed (db s') = freed (db s)
     \<and> insts s' = insts s \<and> (fine s' \<longrightarrow> fine s))"

lemma same_refl [simp]: "same s s"
  by (simp add: same_def)

lemma same_trans: "same s t \<Longrightarrow> same t u \<Longrightarrow> same s u"
  by (simp add: same_def)

lemma same_facts:
  assumes "same s s'"
  shows "stored s' = stored s" and "live s' = live s"
    and "redis.good (db s') = redis.good (db s)"
  using assms by (auto simp: same_def stored_def live_def redis.at_def redis.good_def fun_eq_iff)

lemma stored_versioned: "inv s \<Longrightarrow> versioned dec (stored s k)"
  by (simp add: inv_def redis.good_def stored_def redis.at_def)

lemma pick_inst_same:
  assumes "length (insts s) = DBInstNum"
  shows "\<exists>i < DBInstNum. \<exists>s'. pick_inst libs s = Inr (insts s ! i, s') \<and> same s s'
    \<and> static_cache s' = static_cache s"
  using assms redis.rand_hash [of "env (db s)"] redis.rand_failed [of "env (db s)"]
  by (intro exI [of _ "fst (c_rand (lib_host libs) (env (db s))) mod DBInstNum"])
    (auto simp: pick_inst_def split_beta Let_def same_def DBInstNum_def)

text \<open>A store read, on a live connection, changes nothing and, unless it fails, answers with the value.\<close>

lemma store_get:
  assumes "dbCon d \<notin> set (freed (db s))" and "versioned dec (stored s k)"
  shows "DBInst_get (lib_host libs) k currv d (db s) = Inl NullDeref \<and> mute (lib_host libs) ''HGETALL %d''
    \<or> (\<exists>x v w. DBInst_get (lib_host libs) k currv d (db s) = Inr (x, v, w)
    \<and> (\<not> failed (env w) \<longrightarrow> value_of (to_int64 (lib_host libs)) (stored s k) x)
    \<and> hash (env w) = hash (env (db s)) \<and> freed w = freed (db s) \<and> (\<not> failed (env w) \<longrightarrow> fine s))"
proof -
  have "value_of (to_int64 (lib_host libs)) (stored s k) x"
    if "if stored s k = [] then x = [] \<and> v = currv
      else is_latest (to_int64 (lib_host libs)) (stored s k) v x" for x v
    using that value_of_latest [of "stored s k"] by (auto simp: value_of_def split: if_splits)
  with redis.get_cases [OF assms(1), of k currv] assms(2) show ?thesis
    unfolding stored_def mute_def by (fastforce split: if_splits)
qed

lemma cache_map_leD: "m \<subseteq>\<^sub>m n(k \<mapsto> v) \<Longrightarrow> m j = Some x \<Longrightarrow> (j = k \<and> x = v) \<or> n j = Some x"
  unfolding map_le_def by (drule bspec [of _ _ j]) (auto split: if_splits)

lemma get_freed: "dbCon d \<in> set (freed w) \<Longrightarrow> DBInst_get api k currv d w = Inl UseAfterFree"
  by (simp add: DBInst_get_def DBInst_command_def)

text \<open>Each key is answered with what the store holds, unless a command fails or a freed connection is picked.\<close>

lemma pull_key_answers:
  assumes "inv s"
  shows "(\<exists>f. pull_key libs k currv s = Inl f \<and> ends False f s)
    \<or> (\<exists>x v s'. pull_key libs k currv s = Inr (x, v, s')
      \<and> (fine s' \<longrightarrow> value_of (to_int64 (lib_host libs)) (stored s k) x) \<and> inv s' \<and> same s s')"
proof -
  let ?num = "to_int64 (lib_host libs)"
  let ?g = "CacheSpace_get (lib_cache libs) k (the_cache s)"
  let ?s1 = "s\<lparr>static_cache := Some (snd ?g)\<rparr>"
  have cok: "cache.cok (the_cache s)" and len: "length (insts s) = DBInstNum"
    using assms by (simp_all add: inv_def)
  have c1: "cache.cok (snd ?g)" "cache.clook (snd ?g) = cache.clook (the_cache s)"
    using cok by simp_all
  have tc1: "the_cache ?s1 = snd ?g" by (simp add: the_cache_def CacheSpace_singleton_def)
  have same1: "same s ?s1" by (simp add: same_def)
  have inv1: "inv ?s1"
    using assms c1 same_facts [OF same1] by (simp add: inv_def coherent_def tc1)
  show ?thesis
  proof (cases "fst ?g = []")
    case False
    then have "cache.clook (the_cache s) k = Some (fst ?g)"
      using cache.get_value [OF cok, of k] by (auto split: option.splits)
    with False assms have "fine s \<longrightarrow> value_of ?num (stored s k) (fst ?g)"
      by (auto simp: inv_def coherent_def)
    with False inv1 same1 show ?thesis
      by (simp add: pull_key_def split_beta Let_def flip: the_cache_def)
  next
    case True
    obtain i s2 where i: "i < DBInstNum" and p: "pick_inst libs ?s1 = Inr (insts s ! i, s2)"
      and same2: "same ?s1 s2" and sc2: "static_cache s2 = Some (snd ?g)"
      using pick_inst_same [of ?s1] len by auto
    have tc2: "the_cache s2 = snd ?g" using sc2 by (simp add: the_cache_def)
    have same: "same s s2" using same1 same2 by (rule same_trans)
    have eq: "pull_key libs k currv s = res_bind
        (DBInst_get (lib_host libs) k currv (insts s ! i) (db s2)) (\<lambda>(x, v, w).
          Inr (x, v, s2\<lparr>static_cache := Some (snd (CacheSpace_set (lib_cache libs) k x (snd ?g))),
            db := w\<rparr>))"
      using True p sc2 tc2 by (simp add: pull_key_def split_beta Let_def flip: the_cache_def)
    show ?thesis
    proof (cases "dbCon (insts s ! i) \<in> set (freed (db s2))")
      case True
      then have "\<not> live s"
        using same i len by (auto simp: live_def same_def list_all_length)
      with True eq show ?thesis by (simp add: get_freed ends_def)
    next
      case False
      have "versioned dec (stored s2 k)"
        using stored_versioned [OF assms] same_facts(1) [OF same] by simp
      note read = store_get [OF False this, of currv]
      show ?thesis
      proof (cases "DBInst_get (lib_host libs) k currv (insts s ! i) (db s2)")
        case (Inl f)
        with read have "f = NullDeref" "mute (lib_host libs) ''HGETALL %d''" by auto
        with Inl eq show ?thesis by (simp add: ends_def)
      next
        case (Inr y)
        then obtain x v w where y: "y = (x, v, w)" by (cases y)
        with read Inr same_facts(1) [OF same] have
          g: "DBInst_get (lib_host libs) k currv (insts s ! i) (db s2) = Inr (x, v, w)"
          and val: "\<not> failed (env w) \<Longrightarrow> value_of ?num (stored s k) x"
          and w: "hash (env w) = hash (env (db s2))" "freed w = freed (db s2)" "\<not> failed (env w) \<Longrightarrow> fine s2"
          by auto
        let ?c = "snd (CacheSpace_set (lib_cache libs) k x (snd ?g))"
        let ?s3 = "s2\<lparr>static_cache := Some ?c, db := w\<rparr>"
        have same3: "same s ?s3" using same w by (simp add: same_def)
        have tc3: "the_cache ?s3 = ?c" by (simp add: the_cache_def CacheSpace_singleton_def)
        have "cache.clook ?c \<subseteq>\<^sub>m (cache.clook (the_cache s))(k \<mapsto> x)"
          using cache.set_le [OF c1(1), of "cache.clook (the_cache s)" k x] c1(2) by simp
        then have "fine ?s3 \<longrightarrow> coherent ?s3"
          using assms val same3 same_facts(1) [OF same3]
          by (auto simp: coherent_def tc3 inv_def same_def dest!: cache_map_leD)
        then have "inv ?s3"
          using assms c1 same3 same_facts(3) [OF same3] by (simp add: inv_def tc3 same_def)
        moreover have "pull_key libs k currv s = Inr (x, v, ?s3)"
          unfolding eq g by simp
        ultimately show ?thesis using val same3 by auto
      qed
    qed
  qed
qed

text \<open>
  A pull fills in, for each key, what the store answers, and leaves the rest of the message.
\<close>

definition filled ::
  "nat \<Rightarrow> u64 list \<Rightarrow> InOutMsg \<Rightarrow> ('c, 'e) server \<Rightarrow> InOutMsg \<Rightarrow> ('c, 'e) server \<Rightarrow> bool" where
  "filled i ks msg s msg' s' =
     (inv s' \<and> same s s' \<and> msg_t msg' = msg_t msg \<and> msg_fields msg' = msg_fields msg
      \<and> map info_id (msg_infos msg') = map info_id (msg_infos msg)
      \<and> (\<exists>xs. list_all2 (\<lambda>k x. fine s' \<longrightarrow> value_of (to_int64 (lib_host libs)) (stored s k) x) ks xs
          \<and> map info_d (msg_infos msg') = take i (map info_d (msg_infos msg)) @ xs
              @ drop (i + length ks) (map info_d (msg_infos msg))))"

lemma filled_Cons:
  assumes "i < length (msg_infos msg)" and "same s t"
    and val: "fine t \<longrightarrow> value_of (to_int64 (lib_host libs)) (stored s k) x"
    and f: "filled (Suc i) ks (msg\<lparr>msg_infos := (msg_infos msg)[i := (msg_infos msg ! i)\<lparr>info_d := x\<rparr>]\<rparr>)
      t msg' s'"
  shows "filled i (k # ks) msg s msg' s'"
proof -
  let ?ds = "map info_d (msg_infos msg)"
  let ?val = "\<lambda>k x. fine s' \<longrightarrow> value_of (to_int64 (lib_host libs)) (stored s k) x"
  have st: "stored t = stored s" by (rule same_facts(1) [OF assms(2)])
  from f obtain xs where xs:
    "list_all2 ?val ks xs"
    "map info_d (msg_infos msg') = take (Suc i) (?ds[i := x]) @ xs
       @ drop (Suc i + length ks) (?ds[i := x])"
    by (auto simp: filled_def map_update st)
  moreover have "take (Suc i) (?ds[i := x]) = take i ?ds @ [x]"
    using assms(1) by (simp add: take_Suc_conv_app_nth take_update_cancel)
  moreover have "?val k x" using val f by (auto simp: filled_def same_def)
  ultimately have "list_all2 ?val (k # ks) (x # xs)
    \<and> map info_d (msg_infos msg') = take i ?ds @ (x # xs) @ drop (i + length (k # ks)) ?ds"
    by (simp add: drop_update_cancel)
  moreover have "map info_id (msg_infos msg') = map info_id (msg_infos msg)"
    using f assms(1) by (simp add: filled_def map_update list_update_same_conv)
  ultimately show ?thesis
    using f same_trans [OF assms(2)] unfolding filled_def by (intro conjI exI [of _ "x # xs"]) simp_all
qed

lemma pull_loop_answers:
  assumes "inv s" and "i + length ks \<le> length (msg_infos msg)"
  shows "(\<exists>f. pull_loop libs i ks currv msg s = Inl f \<and> ends False f s)
    \<or> (\<exists>msg' s'. pull_loop libs i ks currv msg s = Inr (msg', s') \<and> filled i ks msg s msg' s')"
  using assms
proof (induction ks arbitrary: i currv msg s)
  case Nil
  then show ?case by (auto simp: filled_def)
next
  case (Cons k ks)
  consider f where "pull_key libs k currv s = Inl f" "ends False f s"
    | x v t where "pull_key libs k currv s = Inr (x, v, t)"
        "fine t \<longrightarrow> value_of (to_int64 (lib_host libs)) (stored s k) x" "inv t" "same s t"
    using pull_key_answers [OF Cons.prems(1), of k currv] by blast
  then show ?case
  proof cases
    case (2 x v t)
    let ?m = "msg\<lparr>msg_infos := (msg_infos msg)[i := (msg_infos msg ! i)\<lparr>info_d := x\<rparr>]\<rparr>"
    have i: "i < length (msg_infos msg)" using Cons.prems(2) by simp
    then have eq: "pull_loop libs i (k # ks) currv msg s = pull_loop libs (Suc i) ks v ?m t"
      using 2(1) by (simp add: InOutMsg_setPullData_def)
    have "live t = live s" by (rule same_facts(2) [OF 2(4)])
    then have "ends False f t \<Longrightarrow> ends False f s" for f by (simp add: ends_def)
    moreover have "filled i (k # ks) msg s m' u" if "filled (Suc i) ks ?m t m' u" for m' u
      using filled_Cons [OF i 2(4,2) that] .
    moreover have "Suc i + length ks \<le> length (msg_infos ?m)" using Cons.prems(2) by simp
    ultimately show ?thesis
      unfolding eq using Cons.IH [OF 2(3), of "Suc i" ?m v] by blast
  qed simp
qed

end

section \<open>Histories\<close>

text \<open>
  What every call of \<open>onBody\<close> preserves, a history preserves: an invariant \<open>P\<close>, and a reflexive and
  transitive relation \<open>R\<close> between the state before and after.
\<close>

lemma run_bodies_preserve:
  assumes step: "\<And>b h s r h' s'. P s \<Longrightarrow> FsHandler_onBody libs b h s = Inr (r, h', s') \<Longrightarrow> P s' \<and> R s s'"
    and "\<And>s. R s s" and trans: "\<And>s t u. R s t \<Longrightarrow> R t u \<Longrightarrow> R s u"
  shows "P s \<Longrightarrow> run_bodies (FsHandler_ops libs) bs h s = Inr (r, h', s') \<Longrightarrow> P s' \<and> R s s'"
proof (induction bs arbitrary: h s r)
  case (Cons b bs)
  from Cons.prems(2) obtain r1 h1 s1 r2 where
    "FsHandler_onBody libs b h s = Inr (r1, h1, s1)"
    "run_bodies (FsHandler_ops libs) bs h1 s1 = Inr (r2, h', s')"
    by (auto simp: res_bind_Inr FsHandler_ops_def)
  with step [OF Cons.prems(1)] Cons.IH [of s1 h1 r2] trans show ?case by blast
qed (use assms(2) in simp)

lemma serve_parts:
  "serve libs rq s = Inr (rs, s') \<longleftrightarrow> (\<exists>r. run_bodies (FsHandler_ops libs) (snd rq)
      (FsHandlerFactory_onRequest (fst rq)) s = Inr (r, FsHandlerFactory_onRequest (fst rq), s')
    \<and> rs = [ResponseBuilder\<lparr>rb_status := Some (200, ''OK''), rb_headers :=
          map (\<lambda>(name, value). (''x-echo-'' @ name, value)) (http_headers (fst rq))\<rparr>]
        @ r @ [ResponseBuilder\<lparr>rb_eom := True\<rparr>])"
proof -
  have "h' = h" if "run_bodies (FsHandler_ops libs) bs h s = Inr (r, h', s')" for bs h s r h' s'
    using that by (induction bs arbitrary: s r)
      (auto simp: res_bind_Inr FsHandler_ops_def dest!: FsHandler_onBody_sends(1))
  then show ?thesis
    by (auto simp: serve_def run_request_def FsHandler_ops_def FsHandler_onRequest_eq
        FsHandler_onEOM_def res_bind_Inr)
qed

lemma serve_all_preserve:
  assumes step: "\<And>b h s r h' s'. P s \<Longrightarrow> FsHandler_onBody libs b h s = Inr (r, h', s') \<Longrightarrow> P s' \<and> R s s'"
    and refl: "\<And>s. R s s" and trans: "\<And>s t u. R s t \<Longrightarrow> R t u \<Longrightarrow> R s u"
  shows "P s \<Longrightarrow> serve_all libs rqs s = Inr (rs, s') \<Longrightarrow> P s' \<and> R s s'"
proof (induction rqs arbitrary: s rs)
  case (Cons rq rqs)
  from Cons.prems(2) obtain r1 s1 r2 where
    "serve libs rq s = Inr (r1, s1)" "serve_all libs rqs s1 = Inr (r2, s')"
    by (auto simp: res_bind_Inr)
  then obtain r where "run_bodies (FsHandler_ops libs) (snd rq)
      (FsHandlerFactory_onRequest (fst rq)) s = Inr (r, FsHandlerFactory_onRequest (fst rq), s1)"
    by (auto simp: serve_parts)
  from run_bodies_preserve [where P = P and R = R, OF step refl trans Cons.prems(1) this]
  have "P s1 \<and> R s s1" .
  with Cons.IH [of s1 r2] trans [of s s1 s'] \<open>serve_all libs rqs s1 = Inr (r2, s')\<close>
  show ?case by blast
qed (use refl in simp)

text \<open>The bodies sent to \<open>/push\<close>.\<close>

definition push_bodies :: "(HTTPMessage \<times> IOBuf list) list \<Rightarrow> nat" where
  "push_bodies rqs = (\<Sum>rq\<leftarrow>rqs. if http_url (fst rq) = ''/push'' then length (snd rq) else 0)"

section \<open>Connections\<close>

text \<open>No call but a push changes the pool or frees a connection, whatever the libraries do.\<close>

lemma get_set_freed:
  "DBInst_get api k currv d w = Inr (x, v, w') \<Longrightarrow> freed w' = freed w"
  "DBInst_set api k y currv d w = Inr (b, w') \<Longrightarrow> freed w' = freed w"
  by (auto simp: DBInst_get_def DBInst_set_def DBInst_command_def res_bind_Inr
      split: if_splits option.splits prod.splits redisReply.splits)

definition pool :: "('c, 'e) server \<Rightarrow> DBInst list \<times> dbcon list" where
  "pool s = (insts s, freed (db s))"

lemma pick_inst_pool:
  "pick_inst libs s = Inr (d, s') \<Longrightarrow> pool s' = pool s \<and> d \<in> set (insts s)"
  by (auto simp: pick_inst_def pool_def split_beta Let_def split: if_splits)

lemma pull_key_pool: "pull_key libs k currv s = Inr (x, v, s') \<Longrightarrow> pool s' = pool s"
  by (auto simp: pull_key_def split_beta Let_def res_bind_Inr pool_def
      dest!: pick_inst_pool get_set_freed split: if_splits)

lemma pull_loop_pool: "pull_loop libs i ks currv msg s = Inr (m, s') \<Longrightarrow> pool s' = pool s"
proof (induction ks arbitrary: i currv msg s)
  case (Cons k ks)
  then show ?case by (fastforce simp: res_bind_Inr dest: pull_key_pool)
qed simp

lemma push_loop_pool: "push_loop libs kvs currv d s = Inr s' \<Longrightarrow> pool s' = pool s"
proof (induction libs kvs currv d s rule: push_loop.induct)
  case (2 libs kv kvs currv d s)
  then show ?case
    by (fastforce simp: res_bind_Inr pool_def dest: get_set_freed)
qed simp

lemma del_loop_pool: "pool (del_loop libs ks s) = pool s"
  by (induction libs ks s rule: del_loop.induct) (simp_all add: pool_def)

lemma onBody_pool:
  assumes "FsHandler_onBody libs b h s = Inr (r, h', s')"
  shows "if reqType h = Push
    then \<exists>d\<in>set (insts s). pool s' = (insts s, dbCon d # freed (db s)) \<and> dbCon d \<notin> set (freed (db s))
    else pool s' = pool s"
proof (cases "reqType h")
  case Push
  with assms obtain d t u where p: "pick_inst libs s = Inr (d, t)"
    "push_loop libs (InOutMsg_getInfos (InOutMsg_ctor (lib_pb libs) (fst b) Push)) 0 d t = Inr u"
    "dbCon d \<notin> set (freed (db u))"
    and s': "pool s' = (insts u, dbCon d # freed (db u))"
    by (auto simp: FsHandler_onBody_def handle_push_def handle_delcache_def DBInst_dtor_def
        res_bind_Inr Let_def del_loop_pool split: if_splits) (simp add: pool_def)
  have "pool u = pool s" "d \<in> set (insts s)"
    using push_loop_pool [OF p(2)] pick_inst_pool [OF p(1)] by simp_all
  with Push p(3) s' show ?thesis by (auto simp: pool_def)
next
  case Pull
  with assms show ?thesis
    by (auto simp: FsHandler_onBody_def handle_pull_def res_bind_Inr Let_def dest: pull_loop_pool)
qed (use assms in \<open>auto simp: FsHandler_onBody_def handle_delcache_def Let_def del_loop_pool\<close>)

section \<open>What a push stores\<close>

text \<open>
  \<open>fresh_data kvs j\<close>: the data of the first element whose key reaches the hash \<open>j\<close>, the one that
  is kept when the hash was empty.
\<close>

definition fresh_data :: "DataInfo list \<Rightarrow> i32 \<Rightarrow> bytes option" where
  "fresh_data kvs j = map_option info_d (find (\<lambda>kv. ucast (info_id kv) = j) kvs)"

text \<open>
  The store after a push: a hash that had a value keeps it; one that was empty holds the data of
  the first element for it, as \<open>T\<close> allows it to be written, under some version.
\<close>

definition pushed ::
  "(i32 \<Rightarrow> bytes) \<Rightarrow> (bytes \<Rightarrow> bytes \<Rightarrow> bool) \<Rightarrow> DataInfo list \<Rightarrow> (i32 \<Rightarrow> (bytes \<times> bytes) list)
   \<Rightarrow> (i32 \<Rightarrow> (bytes \<times> bytes) list) \<Rightarrow> bool" where
  "pushed dec T kvs h h' =
     (\<forall>j. if h j \<noteq> [] then h' j = h j
          else case fresh_data kvs j of
            None \<Rightarrow> h' j = []
          | Some y \<Rightarrow> \<exists>n t. T y t \<and> h' j = [(dec n, t)])"

text \<open>A version that the code can have read: the value of a non-negative \<open>int\<close>.\<close>

definition small :: "i64 \<Rightarrow> bool" where
  "small v = (v = scast (ucast v :: i32) \<and> 0 \<le> sint v)"

lemma small_int: "small v \<Longrightarrow> 0 \<le> sint (ucast v :: i32)"
  unfolding small_def by (metis sint_scast_i32)

lemma pushed_Nil: "pushed dec T [] h h"
  by (simp add: pushed_def fresh_data_def)

lemma pushed_Cons:
  assumes "if h (ucast (info_id kv)) = [] then T (info_d kv) t \<and> h1 = h(ucast (info_id kv) := [(dec n, t)])
      else h1 = h"
    and "pushed dec T kvs h1 h2"
  shows "pushed dec T (kv # kvs) h h2"
  unfolding pushed_def
proof
  fix j
  show "if h j \<noteq> [] then h2 j = h j
        else case fresh_data (kv # kvs) j of
          None \<Rightarrow> h2 j = []
        | Some y \<Rightarrow> \<exists>n t. T y t \<and> h2 j = [(dec n, t)]"
    using assms(1) assms(2) [unfolded pushed_def, rule_format, of j]
    by (auto simp: fresh_data_def split: if_splits)
qed

context redis_hashes
begin

lemma small_dec: "small v \<Longrightarrow> versioned dec [(dec (ucast v), x)]"
  by (auto simp: versioned_def dest: small_int)

lemma latest_small: "versioned dec h \<Longrightarrow> is_latest (to_int64 api) h v x \<Longrightarrow> small v"
  by (auto simp: small_def is_latest_def versioned_def list_ex_iff list_all_iff dec_number
      dec_no_nul dest!: bspec)

text \<open>What a write makes of the hashes: nothing, or one more field, which is a version.\<close>

lemma set_good:
  assumes "dbCon d \<notin> set (freed w)" and "good w" and "small v" and "DBInst_set api k x v d w = Inr (b, w')"
  shows "good w'" and "freed w' = freed w" and "\<not> failed (env w') \<Longrightarrow> \<not> failed (env w)"
    and "set (hash (env w) j) \<subseteq> set (hash (env w') j)"
proof -
  let ?h = "at w k"
  from set_cases [OF assms(1), of k x v] assms(4) obtain s where w': "freed w' = freed w" "failed (env w) \<longrightarrow> failed (env w')"
    and h: "hash (env w') = hash (env w)
      \<or> dec (ucast v) \<notin> fst ` set ?h \<and> hash (env w') = (hash (env w))(ucast k := ?h @ [(dec (ucast v), s)])"
    by (auto split: if_splits)
  have ver: "versioned dec ?h" using assms(2) by (simp add: good_def at_def)
  have "versioned dec (?h @ [(dec (ucast v), s)])" if "dec (ucast v) \<notin> fst ` set ?h"
    using ver that small_int [OF assms(3)] by (auto simp: versioned_def)
  with h assms(2) show "good w'" by (auto simp: good_def)
  show "set (hash (env w) j) \<subseteq> set (hash (env w') j)"
    using h by (auto simp: at_def)
  show "freed w' = freed w" and "\<not> failed (env w') \<Longrightarrow> \<not> failed (env w)" using w' by auto
qed

lemma get_small:
  assumes "dbCon d \<notin> set (freed w)" and "good w" and "small currv" and "DBInst_get api k currv d w = Inr (x, v, w')"
  shows "small v" and "hash (env w') = hash (env w)" and "freed w' = freed w"
    and "\<not> failed (env w') \<Longrightarrow> \<not> failed (env w)"
    and "\<not> failed (env w') \<Longrightarrow> if at w k = [] then x = [] \<and> v = currv else is_latest (to_int64 api) (at w k) v x"
proof -
  have ver: "versioned dec (at w k)" using assms(2) by (simp add: good_def at_def)
  from get_cases [OF assms(1) ver, of currv] assms(4) show "hash (env w') = hash (env w)" "freed w' = freed w"
    "\<not> failed (env w') \<Longrightarrow> \<not> failed (env w)"
    "\<not> failed (env w') \<Longrightarrow> if at w k = [] then x = [] \<and> v = currv else is_latest (to_int64 api) (at w k) v x"
    by (auto split: if_splits)
  from get_cases [OF assms(1) ver, of currv] assms(3,4) latest_small [OF ver] show "small v"
    by (auto split: if_splits)
qed

lemma get_stops:
  assumes "dbCon d \<notin> set (freed w)" and "good w" and "DBInst_get api k currv d w = Inl f"
  shows "f = NullDeref \<and> mute api ''HGETALL %d''"
proof -
  have ver: "versioned dec (at w k)" using assms(2) by (simp add: good_def at_def)
  from get_cases [OF assms(1) ver, of currv] assms(3) show ?thesis by (auto simp: mute_def)
qed

lemma set_stops:
  assumes "dbCon d \<notin> set (freed w)" and "DBInst_set api k x v d w = Inl f"
  shows "f = NullDeref \<and> mute api ''HSETNX %d %d %s'' \<or> f = WildPointer \<and> unreadable api"
  using set_cases [OF assms(1), of k x v] assms(2) by (auto simp: mute_def unreadable_def)

text \<open>
  Read, append, write, when nothing fails: on an empty hash the data is stored under the version carried
  along; on any other the write is refused, for the field is the one just read.
\<close>

lemma cas_step:
  assumes "dbCon d \<notin> set (freed w)" and "good w" and "small currv"
    and get: "DBInst_get api k currv d w = Inr (x, v, w1)" and set: "DBInst_set api k (x @ y) v d w1 = Inr (b, w2)"
    and ok: "\<not> failed (env w2)"
  shows "if at w k = []
    then \<exists>t. reads_as api y t \<and> hash (env w2) = (hash (env w))(ucast k := [(dec (ucast v), t)])
    else hash (env w2) = hash (env w)"
proof -
  note g = get_small [OF assms(1-3) get]
  have live: "dbCon d \<notin> set (freed w1)" "good w1" "at w1 k = at w k"
    using assms(1,2) g(2,3) by (simp_all add: good_def at_def)
  have ok1: "\<not> failed (env w1)" using set_good(3) [OF live(1,2) g(1) set] ok by blast
  obtain t where t: "vararg_fbstring api (x @ y) (env w1) = Some t"
    and h: "hash (env w2) = (if dec (ucast v) \<in> fst ` set (at w k) then hash (env w)
        else (hash (env w))(ucast k := at w k @ [(dec (ucast v), t)]))"
    using set_cases [OF live(1), of k "x @ y" v, unfolded live(3) g(2)] set ok by auto
  show ?thesis
  proof (cases "at w k = []")
    case True
    then show ?thesis using g(5) [OF ok1] t h by (auto simp: reads_as_def)
  next
    case False
    have "versioned dec (at w k)" using assms(2) by (simp add: good_def at_def)
    with False show ?thesis using g(5) [OF ok1] h latest_stored(1) by auto
  qed
qed

end

context feature_store
begin

text \<open>The whole loop: hashes that had a value keep it; of the others the first element decides.\<close>

lemma push_loop_stores:
  assumes "dbCon d \<notin> set (freed (db s))" and "redis.good (db s)" and "small currv"
  shows "(\<exists>f. push_loop libs kvs currv d s = Inl f \<and> ends True f s)
    \<or> (\<exists>w. push_loop libs kvs currv d s = Inr (s\<lparr>db := w\<rparr>) \<and> redis.good w \<and> freed w = freed (db s)
      \<and> (\<not> failed (env w) \<longrightarrow> fine s
        \<and> pushed dec (reads_as (lib_host libs)) kvs (hash (env (db s))) (hash (env w))))"
  using assms
proof (induction kvs arbitrary: s currv)
  case Nil
  then show ?case by (auto intro: exI [of _ "db s"] pushed_Nil)
next
  case (Cons kv kvs)
  let ?k = "info_id kv" and ?api = "lib_host libs" and ?T = "reads_as (lib_host libs)"
  show ?case
  proof (cases "DBInst_get ?api ?k currv d (db s)")
    case (Inl f)
    with redis.get_stops [OF Cons.prems(1,2) Inl] show ?thesis by (auto simp: ends_def)
  next
    case (Inr r)
    obtain x v w1 where r: "r = (x, v, w1)" by (cases r)
    note get = Inr [unfolded r] and g = redis.get_small [OF Cons.prems Inr [unfolded r]]
    have live: "dbCon d \<notin> set (freed w1)" "redis.good w1"
      using Cons.prems(1,2) g(2,3) by (simp_all add: redis.good_def)
    show ?thesis
    proof (cases "DBInst_set ?api ?k (x @ info_d kv) v d w1")
      case (Inl f)
      with redis.set_stops [OF live(1) Inl] get show ?thesis by (auto simp: ends_def)
    next
      case (Inr q)
      obtain b w2 where q: "q = (b, w2)" by (cases q)
      note set = Inr [unfolded q] and st = redis.set_good [OF live g(1) Inr [unfolded q]]
      let ?s = "s\<lparr>db := w2\<rparr>"
      have live2: "dbCon d \<notin> set (freed (db ?s))" "redis.good (db ?s)"
        using st(1,2) g(3) Cons.prems(1) by simp_all
      have eq: "push_loop libs (kv # kvs) currv d s = push_loop libs kvs v d ?s"
        using get set by simp
      have pushed: "pushed dec ?T (kv # kvs) (hash (env (db s))) h"
        if "pushed dec ?T kvs (hash (env w2)) h" "\<not> failed (env w2)" for h
      proof -
        from redis.cas_step [OF Cons.prems get set that(2)] obtain t where
          "if hash (env (db s)) (ucast ?k) = []
           then ?T (info_d kv) t \<and> hash (env w2) = (hash (env (db s)))(ucast ?k := [(dec (ucast v), t)])
           else hash (env w2) = hash (env (db s))"
          unfolding redis.at_def by (auto split: if_splits)
        from pushed_Cons [where T = ?T, OF this that(1)] show ?thesis .
      qed
      from Cons.IH [OF live2 g(1)] show ?thesis
      proof (elim disjE exE conjE)
        fix f assume "push_loop libs kvs v d ?s = Inl f" "ends True f ?s"
        then show ?thesis unfolding eq by (auto simp: ends_def)
      next
        fix w assume w: "push_loop libs kvs v d ?s = Inr (?s\<lparr>db := w\<rparr>)" "redis.good w" "freed w = freed (db ?s)"
          "\<not> failed (env w) \<longrightarrow> fine ?s \<and> pushed dec ?T kvs (hash (env (db ?s))) (hash (env w))"
        then show ?thesis
          unfolding eq using pushed st(2,3) g(3,4) by (intro disjI2 exI [of _ w]) auto
      qed
    qed
  qed
qed

text \<open>Deleting keys from the cache keeps the invariant and touches nothing else.\<close>

lemma del_loop_state:
  "inv s \<Longrightarrow> inv (del_loop libs ks s) \<and> insts (del_loop libs ks s) = insts s
    \<and> db (del_loop libs ks s) = db s
    \<and> cache.clook (the_cache (del_loop libs ks s)) = (cache.clook (the_cache s)) |` (- set ks)"
proof (induction ks arbitrary: s)
  case Nil
  then show ?case by (simp add: restrict_map_def fun_eq_iff)
next
  case (Cons k ks)
  let ?s = "s\<lparr>static_cache := Some (CacheSpace_del (lib_cache libs) k (the_cache s))\<rparr>"
  have cok: "cache.cok (the_cache s)" using Cons.prems by (simp add: inv_def)
  have tc: "the_cache ?s = CacheSpace_del (lib_cache libs) k (the_cache s)"
    by (simp add: the_cache_def)
  have "inv ?s"
    using Cons.prems cok by (auto simp: inv_def coherent_def tc stored_def split: if_splits)
  from Cons.IH [OF this] show ?case
    using cok by (simp add: tc flip: the_cache_def) (auto simp: restrict_map_def fun_eq_iff)
qed

lemma push_freed:
  assumes "dbCon d \<in> set (freed (db s))"
  shows "res_bind (push_loop libs kvs currv d s) (\<lambda>s. res_bind (DBInst_dtor (lib_host libs) d (db s)) (f s))
    = Inl UseAfterFree"
  using assms by (cases kvs) (simp_all add: get_freed DBInst_dtor_def)

text \<open>
  A push stores, then frees the connection it used, then deletes its keys from the cache, and sends
  its response twice, unless a command gives no reply, the string cannot be read, or the connection had
  been freed before.
\<close>

lemma handle_push_answers:
  assumes "inv s"
  shows "(\<exists>f. handle_push libs msg s = Inl f \<and> ends True f s)
    \<or> (\<exists>i<DBInstNum. \<exists>s'. handle_push libs msg s
          = Inr ([send_body (InOutMsg_EncodeRsp (lib_pb libs) 0 msg),
                  send_body (InOutMsg_EncodeRsp (lib_pb libs) 0 msg)], s')
      \<and> inv s' \<and> insts s' = insts s
      \<and> dbCon (insts s ! i) \<notin> set (freed (db s))
      \<and> freed (db s') = dbCon (insts s ! i) # freed (db s)
      \<and> (fine s' \<longrightarrow> fine s \<and> pushed dec (reads_as (lib_host libs)) (msg_infos msg)
          (hash (env (db s))) (hash (env (db s'))))
      \<and> (\<forall>k\<in>set (map info_id (msg_infos msg)). cache.clook (the_cache s') k = None))"
proof -
  have len: "length (insts s) = DBInstNum" using assms by (simp add: inv_def)
  obtain i t where i: "i < DBInstNum" and p: "pick_inst libs s = Inr (insts s ! i, t)"
    and same: "same s t" and sc: "static_cache t = static_cache s"
    using pick_inst_same [OF len] by blast
  let ?d = "insts s ! i" and ?T = "reads_as (lib_host libs)"
  have "the_cache t = the_cache s" using sc by (simp add: the_cache_def)
  then have inv: "inv t"
    using assms same same_facts [OF same] by (auto simp: inv_def coherent_def same_def)
  show ?thesis
  proof (cases "dbCon ?d \<in> set (freed (db s))")
    case True
    moreover have "freed (db t) = freed (db s)" using same by (simp add: same_def)
    ultimately show ?thesis
      using p by (simp add: handle_push_def push_freed ends_def)
  next
    case False
    then have live: "dbCon ?d \<notin> set (freed (db t))" using same by (simp add: same_def)
    have "redis.good (db t)" "small 0" using inv by (simp_all add: inv_def small_def)
    from push_loop_stores [OF live this, of "msg_infos msg"] show ?thesis
    proof (elim disjE exE conjE)
      fix f assume "push_loop libs (msg_infos msg) 0 ?d t = Inl f" "ends True f t"
      then show ?thesis using p by (auto simp: handle_push_def InOutMsg_getInfos_def ends_def)
    next
      fix w assume w: "push_loop libs (msg_infos msg) 0 ?d t = Inr (t\<lparr>db := w\<rparr>)"
        "redis.good w" "freed w = freed (db t)"
        "\<not> failed (env w) \<longrightarrow> fine t \<and> pushed dec ?T (msg_infos msg) (hash (env (db t))) (hash (env w))"
      let ?w = "w\<lparr>env := redisFree (lib_host libs) (dbCon ?d) (env w), freed := dbCon ?d # freed w\<rparr>"
      let ?u = "t\<lparr>db := ?w\<rparr>"
      have hu: "hash (env ?w) = hash (env w)" by (simp add: redis.free_hash)
      have fine: "fine t \<and> pushed dec ?T (msg_infos msg) (hash (env (db t))) (hash (env w))" if "fine ?u"
        using that w(4) redis.free_failed [of "env w" "dbCon ?d"] by auto
      have keep: "stored ?u k = stored t k" if "stored t k \<noteq> []" "fine ?u" for k
        using that(1) fine [OF that(2)] hu
        by (auto simp: stored_def redis.at_def pushed_def split: if_splits)
      have "the_cache ?u = the_cache t" by (simp add: the_cache_def)
      moreover have "redis.good ?w" using w(2) hu by (simp add: redis.good_def)
      moreover have "value_of num (stored ?u k) v" if "value_of num (stored t k) v" "v \<noteq> []" "fine ?u" for num k v
        using that keep [of k] by (cases "stored t k = []") (auto simp: value_of_def)
      ultimately have inv_u: "inv ?u" using inv fine by (auto simp: inv_def coherent_def)
      let ?s' = "del_loop libs (InOutMsg_getPullIds msg) ?u"
      have run: "handle_push libs msg s = Inr ([send_body (InOutMsg_EncodeRsp (lib_pb libs) 0 msg),
          send_body (InOutMsg_EncodeRsp (lib_pb libs) 0 msg)], ?s')"
        using p w(1,3) live
        by (simp add: handle_push_def InOutMsg_getInfos_def DBInst_dtor_def handle_delcache_def Let_def)
      note del = del_loop_state [OF inv_u, of "InOutMsg_getPullIds msg"]
      have "fine ?s' \<longrightarrow> fine s \<and> pushed dec ?T (msg_infos msg) (hash (env (db s))) (hash (env (db ?s')))"
        using del fine hu same by (auto simp: same_def)
      moreover have "insts ?s' = insts s" "freed (db ?s') = dbCon ?d # freed (db s)"
        using del w(3) same by (simp_all add: same_def)
      moreover have "\<forall>k\<in>set (map info_id (msg_infos msg)). cache.clook (the_cache ?s') k = None"
        using del by (simp add: InOutMsg_getPullIds_def)
      ultimately show ?thesis using run del i False by blast
    qed
  qed
qed

lemma handle_delcache_answers:
  assumes "inv s"
  shows "\<exists>s'. handle_delcache libs msg s = Inr ([send_body (InOutMsg_EncodeRsp (lib_pb libs) 0 msg)], s')
    \<and> inv s' \<and> same s s' \<and> cache.clook (the_cache s')
        = (cache.clook (the_cache s)) |` (- set (map info_id (msg_infos msg)))"
  using del_loop_state [OF assms, of "InOutMsg_getPullIds msg"]
  by (simp add: handle_delcache_def Let_def same_def InOutMsg_getPullIds_def)

lemma filled_all:
  assumes "filled 0 (map info_id (msg_infos m)) m s msg s'"
  shows "list_all2 (\<lambda>k x. fine s' \<longrightarrow> value_of (to_int64 (lib_host libs)) (hash (env (db s)) (ucast k)) x)
      (map info_id (msg_infos m)) (map info_d (msg_infos msg))"
    and "msg_t msg = msg_t m" and "map info_id (msg_infos msg) = map info_id (msg_infos m)"
    and "hash (env (db s')) = hash (env (db s))" and "fine s' \<Longrightarrow> fine s"
  using assms by (auto simp: filled_def stored_def redis.at_def same_def)

lemma handle_pull_answers:
  assumes "inv s"
  shows "(\<exists>f. handle_pull libs msg s = Inl f \<and> ends False f s)
    \<or> (\<exists>msg' s'. handle_pull libs msg s = Inr ([send_body (InOutMsg_EncodeRsp (lib_pb libs) 0 msg')], s')
        \<and> filled 0 (map info_id (msg_infos msg)) msg s msg' s')"
  using pull_loop_answers [OF assms, of 0 "map info_id (msg_infos msg)" msg "uninit_int64 libs"]
  by (auto simp: handle_pull_def InOutMsg_getPullIds_def)

lemma onBody_inv:
  assumes "inv s"
  shows "(\<exists>f. FsHandler_onBody libs b h s = Inl f \<and> ends (reqType h = Push) f s)
    \<or> (\<exists>r s'. FsHandler_onBody libs b h s = Inr (r, h, s') \<and> inv s')"
proof -
  let ?m = "InOutMsg_ctor (lib_pb libs) (fst b) (reqType h)"
  show ?thesis
  proof (cases "reqType h")
    case Push
    with handle_push_answers [OF assms, of ?m] show ?thesis
      by (auto simp: FsHandler_onBody_def Let_def)
  next
    case Pull
    with handle_pull_answers [OF assms, of ?m] show ?thesis
      by (auto simp: FsHandler_onBody_def Let_def filled_def)
  next
    case DelCache
    with handle_delcache_answers [OF assms, of ?m] show ?thesis
      by (auto simp: FsHandler_onBody_def Let_def)
  qed (simp add: FsHandler_onBody_def assms)
qed

lemma start_inv:
  assumes "\<forall>k. versioned dec (hash e k)"
  shows "inv (server_start libs e)" and "live (server_start libs e)"
proof -
  have "the_cache (server_start libs e) = CacheSpace_ctor (lib_cache libs)"
    by (simp add: server_start_def G_DBInsts_def split_beta the_cache_def CacheSpace_singleton_def)
  then show "inv (server_start libs e)"
    using redis.make_insts_state [of DBInstNum "\<lparr>env = e, freed = []\<rparr>"] assms
    by (simp add: inv_def coherent_def server_start_def G_DBInsts_def split_beta redis.good_def)
  show "live (server_start libs e)"
    using redis.make_insts_state [of DBInstNum "\<lparr>env = e, freed = []\<rparr>"]
    by (simp add: live_def server_start_def G_DBInsts_def split_beta list_all_iff)
qed

text \<open>What a hash holds stays, until a command fails: no request changes a hash that is not empty.\<close>

definition keeps :: "('c, 'e) server \<Rightarrow> ('c, 'e) server \<Rightarrow> bool" where
  "keeps s s' = (fine s' \<longrightarrow> fine s
     \<and> (\<forall>j. hash (env (db s)) j \<noteq> [] \<longrightarrow> hash (env (db s')) j = hash (env (db s)) j))"

lemma same_keeps: "same s s' \<Longrightarrow> keeps s s'"
  by (simp add: same_def keeps_def)

lemma onBody_keeps:
  assumes "inv s" and "FsHandler_onBody libs b h s = Inr (r, h', s')"
  shows "inv s' \<and> keeps s s'"
proof -
  let ?m = "InOutMsg_ctor (lib_pb libs) (fst b) (reqType h)"
  have "inv s'" using onBody_inv [OF assms(1), of b h] assms(2) by auto
  moreover have "keeps s s'"
  proof (cases "reqType h")
    case Push
    with handle_push_answers [OF assms(1), of ?m] assms(2) show ?thesis
      by (auto simp: FsHandler_onBody_def Let_def keeps_def pushed_def)
  next
    case Pull
    with handle_pull_answers [OF assms(1), of ?m] assms(2) show ?thesis
      by (auto simp: FsHandler_onBody_def Let_def filled_def intro: same_keeps)
  next
    case DelCache
    with handle_delcache_answers [OF assms(1), of ?m] assms(2) show ?thesis
      by (auto simp: FsHandler_onBody_def Let_def intro: same_keeps)
  qed (use assms(2) in \<open>simp add: FsHandler_onBody_def keeps_def\<close>)
  ultimately show ?thesis by simp
qed

lemma history_keeps:
  assumes "inv s" and "serve_all libs rqs s = Inr (rs, s')"
  shows "inv s' \<and> keeps s s'"
  by (rule serve_all_preserve [where P = inv and R = keeps, OF onBody_keeps _ _ assms])
    (auto simp: keeps_def)

text \<open>
  What can end a history: the use of a freed connection only when a push came before, a null reply, or a
  wild read in a push.
\<close>

lemma onBody_same:
  assumes "inv s" and "FsHandler_onBody libs b h s = Inr (r, h', s')" and "reqType h \<noteq> Push"
  shows "same s s'"
proof (cases "reqType h")
  case Pull
  with handle_pull_answers [OF assms(1), of "InOutMsg_ctor (lib_pb libs) (fst b) Pull"] assms(2) show ?thesis
    by (auto simp: FsHandler_onBody_def Let_def filled_def)
next
  case DelCache
  with handle_delcache_answers [OF assms(1), of "InOutMsg_ctor (lib_pb libs) (fst b) DelCache"] assms(2) show ?thesis
    by (auto simp: FsHandler_onBody_def Let_def)
qed (use assms(2,3) in \<open>simp_all add: FsHandler_onBody_def\<close>)

lemma ends_same: "ends p f t \<Longrightarrow> same s t \<Longrightarrow> ends p f s"
  by (simp add: ends_def same_facts(2))

lemma bodies_stop:
  "inv s \<Longrightarrow> (\<exists>f. run_bodies (FsHandler_ops libs) bs h s = Inl f \<and> ends (reqType h = Push \<and> bs \<noteq> []) f s)
    \<or> (\<exists>r s'. run_bodies (FsHandler_ops libs) bs h s = Inr (r, h, s') \<and> inv s'
        \<and> (reqType h = Push \<and> bs \<noteq> [] \<or> same s s'))"
proof (induction bs arbitrary: s)
  case (Cons b bs)
  from onBody_inv [OF Cons.prems, of b h] consider
      f where "FsHandler_onBody libs b h s = Inl f" "ends (reqType h = Push) f s"
    | r t where "FsHandler_onBody libs b h s = Inr (r, h, t)" "inv t"
    by blast
  then show ?case
  proof cases
    case (2 r t)
    have st: "reqType h = Push \<or> same s t" using onBody_same [OF Cons.prems 2(1)] by blast
    from Cons.IH [OF 2(2)] consider
        f where "run_bodies (FsHandler_ops libs) bs h t = Inl f" "ends (reqType h = Push \<and> bs \<noteq> []) f t"
      | r' s' where "run_bodies (FsHandler_ops libs) bs h t = Inr (r', h, s')" "inv s'"
        "reqType h = Push \<and> bs \<noteq> [] \<or> same t s'"
      by blast
    then show ?thesis
    proof cases
      case (1 f)
      have "ends (reqType h = Push) f s"
        using st by (elim disjE) (use 1(2) ends_same [OF 1(2), of s] in \<open>auto intro: ends_mono\<close>)
      with 1(1) 2(1) show ?thesis by (simp add: FsHandler_ops_def)
    next
      case (2 r' s')
      with \<open>FsHandler_onBody libs b h s = Inr (r, h, t)\<close> st show ?thesis
        by (auto simp: FsHandler_ops_def intro: same_trans)
    qed
  qed (simp add: FsHandler_ops_def)
qed simp

lemma serve_stop:
  assumes "inv s"
  shows "(\<exists>f. serve libs rq s = Inl f \<and> ends (0 < push_bodies [rq]) f s)
    \<or> (\<exists>r s'. serve libs rq s = Inr (r, s') \<and> inv s' \<and> (0 < push_bodies [rq] \<or> same s s'))"
  using bodies_stop [OF assms, of "snd rq" "FsHandlerFactory_onRequest (fst rq)"]
  by (auto simp: serve_def run_request_def FsHandler_ops_def FsHandler_onRequest_eq
      FsHandler_onEOM_def FsHandlerFactory_onRequest_def push_bodies_def split: if_splits)

lemma history_stop:
  "inv s \<Longrightarrow> (\<exists>f. serve_all libs rqs s = Inl f \<and> ends (0 < push_bodies rqs) f s)
    \<or> (\<exists>rs s'. serve_all libs rqs s = Inr (rs, s') \<and> inv s' \<and> length rs = length rqs
        \<and> (0 < push_bodies rqs \<or> same s s'))"
proof (induction rqs arbitrary: s)
  case (Cons rq rqs)
  have n: "push_bodies (rq # rqs) = push_bodies [rq] + push_bodies rqs" by (simp add: push_bodies_def)
  from serve_stop [OF Cons.prems, of rq] consider g where "serve libs rq s = Inl g" "ends (0 < push_bodies [rq]) g s"
    | r t where "serve libs rq s = Inr (r, t)" "inv t" "0 < push_bodies [rq] \<or> same s t"
    by blast
  then show ?case
  proof cases
    case 1
    with n show ?thesis by (auto intro: ends_mono)
  next
    case (2 r t)
    from Cons.IH [OF 2(2)] consider f where "serve_all libs rqs t = Inl f" "ends (0 < push_bodies rqs) f t"
      | rs s' where "serve_all libs rqs t = Inr (rs, s')" "inv s'" "length rs = length rqs"
        "0 < push_bodies rqs \<or> same t s'"
      by blast
    then show ?thesis
    proof cases
      case (1 f)
      have "ends (0 < push_bodies (rq # rqs)) f s"
      proof (cases "same s t")
        case True
        from ends_same [OF 1(2) True] show ?thesis using n by (auto intro: ends_mono)
      next
        case False
        with 1(2) 2(3) n show ?thesis by (auto intro: ends_mono)
      qed
      with 1(1) 2(1) show ?thesis by simp
    next
      case (2 rs s')
      with \<open>serve libs rq s = Inr (r, t)\<close> \<open>0 < push_bodies [rq] \<or> same s t\<close> n show ?thesis
        by (auto intro: same_trans)
    qed
  qed
qed (simp add: push_bodies_def)

end

end
