(* ===== verification/ServiceProps.thy ===== *)
theory ServiceProps
  imports ServiceFacts
begin

text \<open>
  The properties of the feature service, each for every history of requests that starts with a
  fresh process, over every cache and store that keep their contracts; the witnesses run it on
  the least-recently-used map, the concrete server and the concrete message library. Commands of redis
  may fail at any time: what a request answers or stores is claimed as long as none has, the faults
  and the bounds are claimed with failures.
\<close>

section \<open>The concrete service\<close>

definition ref_libs :: "(lru, ref_env, unknown_field) libs" where
  "ref_libs = \<lparr>lib_cache = lru_ops, lib_host = ref_host, lib_pb = ref_pb, uninit_int64 = 0\<rparr>"

interpretation ref_store: feature_store ref_libs lru_look lru_max lru_ok ref_hash ref_dec "\<lambda>e. False"
  by (intro feature_store.intro)
    (simp_all add: ref_libs_def lru_cache.evicting_cache_axioms ref_redis.redis_hashes_axioms)

text \<open>The same service before connections on which every command fails.\<close>

definition failing_libs :: "redisReply option \<Rightarrow> (lru, ref_env, unknown_field) libs" where
  "failing_libs r = ref_libs\<lparr>lib_host := failing_host r\<rparr>"

lemma failing_store:
  assumes "r = None \<or> (\<exists>t. r = Some (ReplyError t))"
  shows "feature_store (failing_libs r) lru_look lru_max lru_ok ref_hash ref_dec (\<lambda>e. True)"
  using failing_conforms [OF assms] ref_store.cache.evicting_cache_axioms
  by (simp add: failing_libs_def feature_store_def)

definition ex_env :: ref_env where
  "ex_env = \<lparr>hashes = [], next_con = 0, rands = [3, 4]\<rparr>"

definition ex_push_body :: bytes where
  "ex_push_body = PushReq_InternalSerialize srv_rt (snd (PushReq_ByteSizeLong srv_rt ex_push_a))"

definition ex_pull_req :: "unknown_field PullReq" where
  "ex_pull_req = PullReq_add_keys 300 PullReq_SharedCtor"

definition ex_pull_body :: bytes where
  "ex_pull_body = PullReq_InternalSerialize srv_rt (snd (PullReq_ByteSizeLong srv_rt ex_pull_req))"

lemma ex_push_msg:
  "InOutMsg_ctor ref_pb ex_push_body Push
     = \<lparr>msg_infos = [\<lparr>info_id = 300, info_d = [104, 105]\<rparr>], msg_fields = {}, msg_t = Push\<rparr>"
  unfolding ex_push_body_def
  by (subst ref_msgs.decode_push [OF ref_push.PushReq_parse_serialized [OF ex_push_a_fits]])
    (simp add: PushReq_MergeFrom_default,
     simp add: ex_push_a_def PushReq_add_infos_def PushReq_SharedCtor_def oneInfo_set_key_def
      oneInfo_set_data_def)

lemma ex_pull_req_fits: "PullReq_fits srv_rt ex_pull_req"
  by (simp add: PullReq_fits_def ex_pull_req_def PullReq_SharedCtor_def PullReq_add_keys_def
      have_unknown_fields_def ref_rt_def packed64_def packed32_def varint_ref_def
      base128.simps wire_max_def)

lemma ex_pull_msg:
  "InOutMsg_ctor ref_pb ex_pull_body Pull
     = \<lparr>msg_infos = [\<lparr>info_id = 300, info_d = []\<rparr>], msg_fields = {}, msg_t = Pull\<rparr>"
proof -
  note r = ref_wire.PullReq_parse_serialized [OF ex_pull_req_fits, of PullReq_SharedCtor]
  show ?thesis
    unfolding ex_pull_body_def
    by (rule InOutMsg.equality)
      (simp_all add: ref_msgs.decode_pull [OF r] PullReq_MergeFrom_default,
       simp_all add: ex_pull_req_def PullReq_SharedCtor_def PullReq_add_keys_def)
qed

definition ex_start :: "(lru, ref_env) server" where
  "ex_start = \<lparr>static_cache = None, insts = map (\<lambda>i. \<lparr>dbCon = i\<rparr>) [0..<10],
     db = \<lparr>env = \<lparr>hashes = [], next_con = 10, rands = [3, 4]\<rparr>, freed = []\<rparr>\<rparr>"

lemma ref_make_insts:
  "make_insts ref_host n \<lparr>env = \<lparr>hashes = h, next_con = c, rands = r\<rparr>, freed = f\<rparr>
    = (map (\<lambda>i. \<lparr>dbCon = i\<rparr>) [c..<c + n], \<lparr>env = \<lparr>hashes = h, next_con = c + n, rands = r\<rparr>, freed = f\<rparr>)"
proof (induction n arbitrary: c)
  case (Suc n)
  have "[c..<c + Suc n] = c # [Suc c..<c + Suc n]" by (simp add: upt_rec)
  with Suc [of "Suc c"] show ?case
    by (simp add: DBInst_ctor_def ref_host_def ref_command_def Let_def)
qed simp

lemma ex_start_eq: "server_start ref_libs ex_env = ex_start"
  by (simp add: server_start_def G_DBInsts_def DBInstNum_def ref_libs_def ex_env_def ex_start_def
      ref_make_insts)

definition ex_pushed :: "(lru, ref_env) server" where
  "ex_pushed = ex_start\<lparr>static_cache := Some \<lparr>cacheMap = \<lparr>lru_max = 100, lru_clear = 10, lru_entries = []\<rparr>\<rparr>,
     db := \<lparr>env = \<lparr>hashes = [(300, [([48], [104, 105])])], next_con = 10, rands = [4]\<rparr>, freed = [3]\<rparr>\<rparr>"

lemma ex_push_run:
  "FsHandler_onBody ref_libs (ex_push_body, []) \<lparr>reqType = Push\<rparr> ex_start
    = Inr ([send_body (InOutMsg_EncodeRsp ref_pb 0 (InOutMsg_ctor ref_pb ex_push_body Push)),
           send_body (InOutMsg_EncodeRsp ref_pb 0 (InOutMsg_ctor ref_pb ex_push_body Push))],
        \<lparr>reqType = Push\<rparr>, ex_pushed)"
  by (simp add: FsHandler_onBody_def ref_libs_def ex_push_msg handle_push_def handle_delcache_def pick_inst_def
      ref_host_def ref_command_def ex_start_def ex_pushed_def DBInstNum_def InOutMsg_getInfos_def DBInst_get_def
      DBInst_set_def DBInst_command_def DBInst_dtor_def InOutMsg_getPullIds_def CacheSpace_del_def lru_ops_def
      CacheSpace_singleton_def CacheSpace_ctor_def ref_hash_def ref_dec_def dec_int_def dec_nat.simps Let_def)

definition ex_pulled :: "(lru, ref_env) server" where
  "ex_pulled = ex_pushed\<lparr>
     static_cache := Some \<lparr>cacheMap = \<lparr>lru_max = 100, lru_clear = 10, lru_entries = [(300, [104, 105])]\<rparr>\<rparr>,
     db := \<lparr>env = \<lparr>hashes = [(300, [([48], [104, 105])])], next_con = 10, rands = []\<rparr>, freed = [3]\<rparr>\<rparr>"

lemma ex_pull_run:
  "FsHandler_onBody ref_libs (ex_pull_body, []) \<lparr>reqType = Pull\<rparr> ex_pushed
    = Inr ([send_body (InOutMsg_EncodeRsp ref_pb 0
          \<lparr>msg_infos = [\<lparr>info_id = 300, info_d = [104, 105]\<rparr>], msg_fields = {}, msg_t = Pull\<rparr>)],
        \<lparr>reqType = Pull\<rparr>, ex_pulled)"
  by (simp add: FsHandler_onBody_def ref_libs_def ex_pull_msg handle_pull_def pick_inst_def pull_key_def
      ref_host_def ref_command_def ex_pulled_def ex_pushed_def ex_start_def DBInstNum_def DBInst_get_def
      DBInst_command_def InOutMsg_getPullIds_def CacheSpace_get_def CacheSpace_set_def lru_ops_def
      lru_find_def lru_set_def InOutMsg_setPullData_def undec_int_def undec_nat_def is_digit_def
      CacheSpace_singleton_def CacheSpace_ctor_def ref_hash_def c_str_def Let_def)

lemma ref_store_conforms: "feature_store ref_libs lru_look lru_max lru_ok ref_hash ref_dec (\<lambda>e. False)"
  by (rule ref_store.feature_store_axioms)

lemma ex_env_versioned: "\<forall>k. versioned ref_dec (ref_hash ex_env k)"
  by (simp add: ex_env_def ref_hash_def versioned_def)

definition ex_push_rq :: "HTTPMessage \<times> IOBuf list" where
  "ex_push_rq = (\<lparr>http_method = ''POST'', http_url = ''/push'', http_headers = []\<rparr>, [(ex_push_body, [])])"

definition ex_pull_rq :: "HTTPMessage \<times> IOBuf list" where
  "ex_pull_rq = (\<lparr>http_method = ''POST'', http_url = ''/pull'', http_headers = []\<rparr>, [(ex_pull_body, [])])"

lemma ex_history:
  "\<exists>rs. serve_all ref_libs [ex_push_rq] (server_start ref_libs ex_env) = Inr (rs, ex_pushed)"
  by (simp add: ex_start_eq serve_def run_request_def FsHandler_ops_def ex_push_rq_def
      FsHandlerFactory_onRequest_def FsHandler_onRequest_eq FsHandler_onEOM_def ex_push_run)

text \<open>The pool at the start of the process.\<close>

lemma make_insts_pool:
  "freed (snd (make_insts api n w)) = freed w \<and> length (fst (make_insts api n w)) = n"
  by (induction n arbitrary: w) (simp_all add: split_beta DBInst_ctor_def Let_def)

lemma start_pool: "freed (db (server_start libs e)) = [] \<and> length (insts (server_start libs e)) = 10"
  by (simp add: server_start_def G_DBInsts_def DBInstNum_def split_beta make_insts_pool)

section \<open>Properties\<close>

text \<open>
  Whatever the history, a pull that is answered before any command of redis has failed is answered with
  one body, whose data is, key by key and in the order of the request, what the store answers for the
  key at that moment: the cache is never seen. The store does not change.
\<close>

theorem pull_answers_from_store:
  assumes "feature_store libs look cap ok hash dec failed" and "\<forall>k. versioned dec (hash e k)"
    and "serve_all libs rqs (server_start libs e) = Inr (rs, s)"
    and "FsHandler_onBody libs b \<lparr>reqType = Pull\<rparr> s = Inr (r, h, s')" and "\<not> failed (env (db s'))"
  shows "\<exists>msg. r = [send_body (InOutMsg_EncodeRsp (lib_pb libs) 0 msg)]
    \<and> msg_t msg = msg_t (InOutMsg_ctor (lib_pb libs) (fst b) Pull)
    \<and> map info_id (msg_infos msg) = InOutMsg_getPullIds (InOutMsg_ctor (lib_pb libs) (fst b) Pull)
    \<and> list_all (\<lambda>i. value_of (to_int64 (lib_host libs)) (hash (env (db s)) (ucast (info_id i))) (info_d i))
        (msg_infos msg)
    \<and> hash (env (db s')) = hash (env (db s))"
proof -
  note fs = assms(1)
  let ?m = "InOutMsg_ctor (lib_pb libs) (fst b) Pull"
  have inv: "feature_store.inv libs look cap ok hash dec failed s"
    using feature_store.history_keeps [OF fs feature_store.start_inv(1) [OF fs assms(2)] assms(3)]
    by simp
  obtain msg where r: "r = [send_body (InOutMsg_EncodeRsp (lib_pb libs) 0 msg)]"
    and f: "feature_store.filled libs look cap ok hash dec failed 0 (map info_id (msg_infos ?m)) ?m s msg s'"
    using feature_store.handle_pull_answers [OF fs inv, of ?m] assms(4)
    by (auto simp: FsHandler_onBody_def Let_def)
  from feature_store.filled_all [OF fs f] assms(5) have
    "list_all2 (\<lambda>k x. value_of (to_int64 (lib_host libs)) (hash (env (db s)) (ucast k)) x)
      (map info_id (msg_infos msg)) (map info_d (msg_infos msg))"
    by simp
  then have "list_all (\<lambda>i. value_of (to_int64 (lib_host libs)) (hash (env (db s)) (ucast (info_id i))) (info_d i))
      (msg_infos msg)"
    by (simp add: list_all2_conv_all_nth list_all_length)
  with r feature_store.filled_all [OF fs f] show ?thesis
    by (auto simp: InOutMsg_getPullIds_def)
qed

theorem pull_answers_from_store_witness:
  "\<exists>rs. serve_all ref_libs [ex_push_rq] (server_start ref_libs ex_env) = Inr (rs, ex_pushed)
    \<and> (\<exists>msg. [send_body (InOutMsg_EncodeRsp ref_pb 0
          \<lparr>msg_infos = [\<lparr>info_id = 300, info_d = [104, 105]\<rparr>], msg_fields = {}, msg_t = Pull\<rparr>)]
        = [send_body (InOutMsg_EncodeRsp (lib_pb ref_libs) 0 msg)]
      \<and> msg_t msg = msg_t (InOutMsg_ctor (lib_pb ref_libs) (fst (ex_pull_body, [] :: bytes list)) Pull)
      \<and> map info_id (msg_infos msg)
        = InOutMsg_getPullIds (InOutMsg_ctor (lib_pb ref_libs) (fst (ex_pull_body, [] :: bytes list)) Pull)
      \<and> list_all (\<lambda>i. value_of (to_int64 (lib_host ref_libs))
            (ref_hash (env (db ex_pushed)) (ucast (info_id i))) (info_d i)) (msg_infos msg)
      \<and> ref_hash (env (db ex_pulled)) = ref_hash (env (db ex_pushed)))"
proof -
  obtain rs where h: "serve_all ref_libs [ex_push_rq] (server_start ref_libs ex_env) = Inr (rs, ex_pushed)"
    using ex_history by blast
  from pull_answers_from_store [OF ref_store_conforms ex_env_versioned h ex_pull_run] h
  show ?thesis by blast
qed

text \<open>
  C5. A value once stored is never replaced: over any further history in which no command of redis
  fails, a hash that is not empty stays as it is. A later push for the key is answered like any other, and its data is dropped.
\<close>

theorem stored_value_never_replaced:
  assumes "feature_store libs look cap ok hash dec failed" and "\<forall>k. versioned dec (hash e k)"
    and "serve_all libs rqs (server_start libs e) = Inr (rs, s)"
    and "hash (env (db s)) j \<noteq> []"
    and "serve_all libs rqs2 s = Inr (rs', s')" and "\<not> failed (env (db s'))"
  shows "hash (env (db s')) j = hash (env (db s)) j"
proof -
  note fs = assms(1)
  have "feature_store.inv libs look cap ok hash dec failed s"
    using feature_store.history_keeps [OF fs feature_store.start_inv(1) [OF fs assms(2)] assms(3)]
    by simp
  from feature_store.history_keeps [OF fs this assms(5)] assms(4,6) show ?thesis
    by (simp add: feature_store.keeps_def [OF fs])
qed

theorem stored_value_never_replaced_witness:
  "\<exists>rs s'. serve_all ref_libs [ex_pull_rq] ex_pushed = Inr (rs, s')
    \<and> ref_hash (env (db s')) 300 = ref_hash (env (db ex_pushed)) 300"
proof -
  obtain rs where h: "serve_all ref_libs [ex_push_rq] (server_start ref_libs ex_env) = Inr (rs, ex_pushed)"
    using ex_history by blast
  obtain rs' where p: "serve_all ref_libs [ex_pull_rq] ex_pushed = Inr (rs', ex_pulled)"
    by (simp add: serve_def run_request_def FsHandler_ops_def ex_pull_rq_def
        FsHandlerFactory_onRequest_def FsHandler_onRequest_eq FsHandler_onEOM_def ex_pull_run)
  have "ref_hash (env (db ex_pushed)) 300 \<noteq> []"
    by (simp add: ex_pushed_def ref_hash_def)
  from stored_value_never_replaced [OF ref_store_conforms ex_env_versioned h this p] p
  show ?thesis by blast
qed

text \<open>
  C3. What is pushed is served: after any history, a push for a key whose hash is empty stores the
  data of its first element for that key, and every later pull, after any further history in which no
  command of redis fails, is answered with that data, up to its first NUL, when it has at most 23 bytes.
  Longer data is answered with what the \<open>%s\<close> conversion has read in place of it.
\<close>

theorem pushed_value_is_served:
  assumes "feature_store libs look cap ok hash dec failed" and "\<forall>k. versioned dec (hash e k)"
    and "serve_all libs rqs (server_start libs e) = Inr (rs, s)"
    and "hash (env (db s)) (ucast k) = []"
    and "fresh_data (InOutMsg_getInfos (InOutMsg_ctor (lib_pb libs) (fst b) Push)) (ucast k) = Some y"
    and "FsHandler_onBody libs b \<lparr>reqType = Push\<rparr> s = Inr (r, h, s1)"
    and "serve_all libs rqs2 s1 = Inr (rs2, s2)"
    and "pull_key libs k currv s2 = Inr (x, v, s3)" and "\<not> failed (env (db s3))"
  shows "(length y \<le> 23 \<longrightarrow> x = c_str y) \<and> (\<exists>t. reads_as (lib_host libs) y t \<and> x = c_str t)"
proof -
  note fs = assms(1) and keeps = feature_store.keeps_def [OF assms(1)]
  note redis = feature_store.axioms(2) [OF fs]
  let ?num = "to_int64 (lib_host libs)" and ?T = "reads_as (lib_host libs)"
  have inv: "feature_store.inv libs look cap ok hash dec failed s"
    using feature_store.history_keeps [OF fs feature_store.start_inv(1) [OF fs assms(2)] assms(3)]
    by simp
  have inv1: "feature_store.inv libs look cap ok hash dec failed s1"
    using feature_store.onBody_keeps [OF fs inv assms(6)] by simp
  note h2 = feature_store.history_keeps [OF fs inv1 assms(7)]
  from h2 feature_store.pull_key_answers [OF fs, of s2 k currv] assms(8,9)
  have val: "value_of ?num (feature_store.stored hash s2 k) x" and fine: "\<not> failed (env (db s2))"
    by (auto simp: feature_store.same_def [OF fs])
  from feature_store.handle_push_answers [OF fs inv, of "InOutMsg_ctor (lib_pb libs) (fst b) Push"]
    assms(6) h2 fine have
    "pushed dec ?T (msg_infos (InOutMsg_ctor (lib_pb libs) (fst b) Push)) (hash (env (db s))) (hash (env (db s1)))"
    by (auto simp: FsHandler_onBody_def Let_def keeps)
  then obtain n t where t: "?T y t" and "hash (env (db s1)) (ucast k) = [(dec n, t)]"
    using assms(4,5) by (auto simp: pushed_def InOutMsg_getInfos_def dest!: spec [of _ "ucast k"])
  then have "hash (env (db s2)) (ucast k) = [(dec n, t)]"
    using h2 fine by (simp add: keeps)
  then have x: "x = c_str t"
    using val by (simp add: feature_store.stored_def [OF fs] redis_hashes.at_def [OF redis] value_of_def is_latest_def
        split: option.splits)
  moreover have "length y \<le> 23 \<Longrightarrow> t = c_str y"
    using t redis_hashes.short_string [OF redis] by (auto simp: reads_as_def)
  ultimately show ?thesis using t by (auto simp: c_str_no_nul)
qed

lemma ex_pull_key:
  "pull_key ref_libs 300 0 ex_pushed = Inr ([104, 105], 0, ex_pulled)"
  by (simp add: ref_libs_def pick_inst_def pull_key_def ref_host_def ref_command_def ex_pulled_def
      ex_pushed_def ex_start_def DBInstNum_def DBInst_get_def DBInst_command_def CacheSpace_get_def
      CacheSpace_set_def lru_ops_def lru_find_def lru_set_def undec_int_def undec_nat_def
      is_digit_def ref_hash_def c_str_def Let_def)

theorem pushed_value_is_served_witness:
  "pull_key ref_libs 300 0 ex_pushed = Inr ([104, 105], 0, ex_pulled)
    \<and> fresh_data (InOutMsg_getInfos (InOutMsg_ctor (lib_pb ref_libs) ex_push_body Push)) 300 = Some [104, 105]
    \<and> [104, 105] = c_str [104, 105 :: u8]"
proof -
  have start: "serve_all ref_libs [] (server_start ref_libs ex_env) = Inr ([], ex_start)"
    and rest: "serve_all ref_libs [] ex_pushed = Inr ([], ex_pushed)"
    by (simp_all add: ex_start_eq)
  have e: "ref_hash (env (db ex_start)) (ucast (300 :: u64)) = []"
    by (simp add: ex_start_def ref_hash_def)
  have f: "fresh_data (InOutMsg_getInfos (InOutMsg_ctor (lib_pb ref_libs) (fst (ex_push_body, [] :: bytes list))
      Push)) (ucast (300 :: u64)) = Some [104, 105]"
    by (simp add: ref_libs_def ex_push_msg fresh_data_def InOutMsg_getInfos_def)
  from pushed_value_is_served [OF ref_store_conforms ex_env_versioned start e f ex_push_run rest ex_pull_key]
    ex_pull_key f show ?thesis by simp
qed


text \<open>
  A push picks the connection 3 and frees it, and the pull after it picks the same one; and a pull whose
  command gets no reply.
\<close>

definition ex_env_33 :: ref_env where
  "ex_env_33 = \<lparr>hashes = [], next_con = 0, rands = [3, 3]\<rparr>"

lemma ex_start_33:
  "server_start ref_libs ex_env_33 = ex_start\<lparr>db := \<lparr>env = \<lparr>hashes = [], next_con = 10, rands = [3, 3]\<rparr>, freed = []\<rparr>\<rparr>"
  by (simp add: server_start_def G_DBInsts_def DBInstNum_def ref_libs_def ex_env_33_def ex_start_def
      ref_make_insts)

lemmas ex_service_eval = ref_libs_def handle_push_def handle_pull_def handle_delcache_def pick_inst_def
  pull_key_def ref_host_def ref_command_def ex_start_def DBInstNum_def InOutMsg_getInfos_def DBInst_get_def
  DBInst_set_def DBInst_command_def DBInst_dtor_def InOutMsg_getPullIds_def CacheSpace_del_def CacheSpace_get_def
  lru_ops_def lru_find_def CacheSpace_singleton_def CacheSpace_ctor_def ref_hash_def ref_dec_def dec_int_def
  dec_nat.simps c_str_def Let_def

lemma ex_use_after_free:
  "serve_all ref_libs [ex_push_rq, ex_pull_rq] (server_start ref_libs ex_env_33) = Inl UseAfterFree"
  unfolding ex_start_33
  by (simp add: serve_def run_request_def FsHandler_ops_def ex_push_rq_def ex_pull_rq_def FsHandler_onEOM_def
      FsHandlerFactory_onRequest_def FsHandler_onRequest_eq FsHandler_onBody_def ex_service_eval ex_push_msg ex_pull_msg)

lemma ex_no_reply:
  "serve_all (failing_libs None) [ex_pull_rq] (server_start (failing_libs None) e) = Inl NullDeref"
proof -
  have get: "DBInst_get (failing_host None) k currv d w = Inl NullDeref" if "freed w = []" for k currv d w
    using that by (simp add: DBInst_get_def DBInst_command_def failing_host_def)
  have "pull_key (failing_libs None) 300 0 (server_start (failing_libs None) e) = Inl NullDeref"
    using start_pool [of "failing_libs None" e]
    by (auto simp: pull_key_def pick_inst_def server_start_def G_DBInsts_def split_beta Let_def failing_libs_def
        ref_libs_def CacheSpace_singleton_def CacheSpace_ctor_def CacheSpace_get_def lru_ops_def lru_find_def
        DBInstNum_def get)
  then show ?thesis
    by (simp add: serve_def run_request_def FsHandler_ops_def ex_pull_rq_def FsHandler_onEOM_def
        FsHandlerFactory_onRequest_def FsHandler_onRequest_eq FsHandler_onBody_def handle_pull_def failing_libs_def
        ref_libs_def ex_pull_msg InOutMsg_getPullIds_def Let_def)
qed




text \<open>The connections that push bodies free.\<close>

lemma bodies_free:
  "run_bodies (FsHandler_ops libs) bs h s = Inr (r, h', s') \<Longrightarrow>
    distinct (freed (db s)) \<Longrightarrow> set (freed (db s)) \<subseteq> dbCon ` set (insts s) \<Longrightarrow>
    distinct (freed (db s')) \<and> set (freed (db s')) \<subseteq> dbCon ` set (insts s) \<and> insts s' = insts s
    \<and> length (freed (db s')) = length (freed (db s)) + (if reqType h = Push then length bs else 0)"
proof (induction bs arbitrary: s r)
  case (Cons b bs)
  from Cons.prems(1) obtain r1 t r2 where t: "FsHandler_onBody libs b h s = Inr (r1, h, t)"
    and u: "run_bodies (FsHandler_ops libs) bs h t = Inr (r2, h', s')"
    by (auto simp: res_bind_Inr FsHandler_ops_def dest: FsHandler_onBody_sends(1))
  from onBody_pool [OF t] Cons.prems(2,3) have
    "distinct (freed (db t))" "set (freed (db t)) \<subseteq> dbCon ` set (insts t)" "insts t = insts s"
    "length (freed (db t)) = length (freed (db s)) + (if reqType h = Push then 1 else 0)"
    by (auto simp: pool_def split: if_splits)
  with Cons.IH [OF u] show ?case by simp
qed simp

lemma history_free:
  "serve_all libs rqs s = Inr (rs, s') \<Longrightarrow>
    distinct (freed (db s)) \<Longrightarrow> set (freed (db s)) \<subseteq> dbCon ` set (insts s) \<Longrightarrow>
    distinct (freed (db s')) \<and> set (freed (db s')) \<subseteq> dbCon ` set (insts s) \<and> insts s' = insts s
    \<and> length (freed (db s')) = length (freed (db s)) + push_bodies rqs"
proof (induction rqs arbitrary: s rs)
  case (Cons rq rqs)
  from Cons.prems(1) obtain r1 t r2 where t: "serve libs rq s = Inr (r1, t)"
    and u: "serve_all libs rqs t = Inr (r2, s')"
    by (auto simp: res_bind_Inr)
  from t obtain r where "run_bodies (FsHandler_ops libs) (snd rq)
      (FsHandlerFactory_onRequest (fst rq)) s = Inr (r, FsHandlerFactory_onRequest (fst rq), t)"
    by (auto simp: serve_parts)
  from bodies_free [OF this Cons.prems(2,3)] Cons.IH [OF u] show ?case
    by (simp add: push_bodies_def FsHandlerFactory_onRequest_def split: if_splits)
qed (simp add: push_bodies_def)

text \<open>
  C7. Every push uses up one of the ten connections, so no process serves more than ten push
  bodies, whatever the libraries and the store do.
\<close>

theorem at_most_ten_pushes:
  assumes "serve_all libs rqs (server_start libs e) = Inr (rs, s)"
  shows "push_bodies rqs \<le> 10"
proof -
  let ?s0 = "server_start libs e"
  from history_free [OF assms] start_pool [of libs e] have
    f: "distinct (freed (db s))" "set (freed (db s)) \<subseteq> dbCon ` set (insts ?s0)"
    "length (freed (db s)) = push_bodies rqs"
    by auto
  then have "push_bodies rqs = card (set (freed (db s)))" by (simp add: distinct_card)
  also have "\<dots> \<le> card (dbCon ` set (insts ?s0))" using f(2) by (intro card_mono) simp_all
  also have "\<dots> \<le> 10"
    using start_pool [of libs e] card_length [of "map dbCon (insts ?s0)"] by simp
  finally show ?thesis .
qed

theorem at_most_ten_pushes_witness:
  "\<exists>rs. serve_all ref_libs [ex_push_rq] (server_start ref_libs ex_env) = Inr (rs, ex_pushed)
    \<and> push_bodies [ex_push_rq] \<le> 10"
  using ex_history at_most_ten_pushes [of ref_libs "[ex_push_rq]" ex_env _ ex_pushed] by blast

text \<open>
  C9. A push and a delete both leave none of their keys in the cache; but a push, whose case lacks a
  \<open>break\<close>, runs the delete case too and sends its response a second time.
\<close>

theorem push_and_delete_evict:
  assumes "feature_store libs look cap ok hash dec failed" and "\<forall>k. versioned dec (hash e k)"
    and "serve_all libs rqs (server_start libs e) = Inr (rs, s)"
    and "t = Push \<or> t = DelCache"
    and "FsHandler_onBody libs b \<lparr>reqType = t\<rparr> s = Inr (r, h, s')"
    and "k \<in> set (InOutMsg_getPullIds (InOutMsg_ctor (lib_pb libs) (fst b) t))"
  shows "fst (CacheSpace_get (lib_cache libs) k
      (CacheSpace_singleton (lib_cache libs) (static_cache s'))) = []
    \<and> r = replicate (if t = Push then 2 else 1)
        (send_body (InOutMsg_EncodeRsp (lib_pb libs) 0 (InOutMsg_ctor (lib_pb libs) (fst b) t)))"
proof -
  note fs = assms(1)
  note cache = feature_store.axioms(1) [OF fs]
  let ?m = "InOutMsg_ctor (lib_pb libs) (fst b) t"
  have inv: "feature_store.inv libs look cap ok hash dec failed s"
    using feature_store.history_keeps [OF fs feature_store.start_inv(1) [OF fs assms(2)] assms(3)]
    by simp
  have k: "k \<in> set (map info_id (msg_infos ?m))" using assms(6) by (simp add: InOutMsg_getPullIds_def)
  have "evicting_cache.clook look (feature_store.the_cache libs s') k = None \<and>
      r = replicate (if t = Push then 2 else 1) (send_body (InOutMsg_EncodeRsp (lib_pb libs) 0 ?m))"
    using assms(4)
  proof
    assume "t = Push"
    with feature_store.handle_push_answers [OF fs inv, of ?m] assms(5) k show ?thesis
      by (auto simp: FsHandler_onBody_def Let_def eval_nat_numeral)
  next
    assume "t = DelCache"
    with feature_store.handle_delcache_answers [OF fs inv, of ?m] assms(5) k show ?thesis
      by (auto simp: FsHandler_onBody_def Let_def restrict_map_def)
  qed
  moreover have "feature_store.inv libs look cap ok hash dec failed s'"
    using feature_store.onBody_keeps [OF fs inv assms(5)] by simp
  ultimately show ?thesis
    using evicting_cache.get_value [OF cache]
    by (simp add: feature_store.inv_def [OF fs] feature_store.the_cache_def [OF fs])
qed

theorem push_and_delete_evict_witness:
  "fst (CacheSpace_get (lib_cache ref_libs) 300
      (CacheSpace_singleton (lib_cache ref_libs) (static_cache ex_pushed))) = []"
proof -
  have start: "serve_all ref_libs [] (server_start ref_libs ex_env) = Inr ([], ex_start)"
    by (simp add: ex_start_eq)
  have "300 \<in> set (InOutMsg_getPullIds (InOutMsg_ctor (lib_pb ref_libs) (fst (ex_push_body, [] :: bytes list)) Push))"
    by (simp add: ref_libs_def ex_push_msg InOutMsg_getPullIds_def)
  from push_and_delete_evict [OF ref_store_conforms ex_env_versioned start disjI1 [OF refl] ex_push_run this]
  show ?thesis by simp
qed

text \<open>
  A request for any other URL is answered with one empty body for each part of its own body, and
  changes nothing: not the cache, not the store, not even the random sequence.
\<close>

theorem unknown_url_changes_nothing:
  assumes "http_url req \<noteq> ''/pull''" and "http_url req \<noteq> ''/push''" and "http_url req \<noteq> ''/delcache''"
  shows "\<exists>x y. serve libs (req, bs) s = Inr (x # replicate (length bs) (send_body []) @ [y], s)
    \<and> rb_status x = Some (200, ''OK'') \<and> rb_eom y"
proof -
  have h: "FsHandlerFactory_onRequest req = \<lparr>reqType = Unknow\<rparr>"
    using assms by (simp add: FsHandlerFactory_onRequest_def)
  have "FsHandler_onBody libs b \<lparr>reqType = Unknow\<rparr> s = Inr ([send_body []], \<lparr>reqType = Unknow\<rparr>, s)" for b
    by (simp add: FsHandler_onBody_def InOutMsg_ctor_def InOutMsg_EncodeRsp_def Let_def)
  then have "run_bodies (FsHandler_ops libs) bs \<lparr>reqType = Unknow\<rparr> s
      = Inr (replicate (length bs) (send_body []), \<lparr>reqType = Unknow\<rparr>, s)"
    by (induction bs) (simp_all add: FsHandler_ops_def)
  then have "serve libs (req, bs) s = Inr ([ResponseBuilder\<lparr>rb_status := Some (200, ''OK''), rb_headers :=
          map (\<lambda>(name, value). (''x-echo-'' @ name, value)) (http_headers req)\<rparr>]
        @ replicate (length bs) (send_body []) @ [ResponseBuilder\<lparr>rb_eom := True\<rparr>], s)"
    unfolding serve_parts fst_conv snd_conv h by blast
  then show ?thesis by simp
qed

theorem unknown_url_changes_nothing_witness:
  "\<exists>x y. serve ref_libs (\<lparr>http_method = ''GET'', http_url = ''/pulls'', http_headers = []\<rparr>, [([1], [])]) ex_start
      = Inr (x # replicate (length [([1 :: u8], [] :: bytes list)]) (send_body []) @ [y], ex_start)
    \<and> rb_status x = Some (200, ''OK'') \<and> rb_eom y"
  by (rule unknown_url_changes_nothing) simp_all

text \<open>
  Every answer is well formed: one status line, at the start, carrying each header of the request
  in order under its \<open>x-echo-\<close> name, and one end of message, at the end.
\<close>

theorem answers_are_well_formed:
  assumes "serve libs rq s = Inr (rs, s')"
  shows "well_formed rs \<and> rb_status (hd rs) = Some (200, ''OK'')
    \<and> map snd (rb_headers (hd rs)) = map snd (http_headers (fst rq))
    \<and> map fst (rb_headers (hd rs)) = map (\<lambda>n. ''x-echo-'' @ n) (map fst (http_headers (fst rq)))"
proof -
  have "well_formed rs"
    using assms unfolding serve_def by (rule fs_handler.run_request_well_formed)
  moreover have "\<exists>r. rs = ResponseBuilder\<lparr>rb_status := Some (200, ''OK''), rb_headers :=
      map (\<lambda>(name, value). (''x-echo-'' @ name, value)) (http_headers (fst rq))\<rparr> # r"
    using assms unfolding serve_parts by auto
  ultimately show ?thesis by (auto simp: split_beta)
qed

theorem answers_are_well_formed_witness:
  "\<exists>rs. serve ref_libs ex_push_rq ex_start = Inr (rs, ex_pushed)
    \<and> well_formed rs \<and> rb_status (hd rs) = Some (200, ''OK'')
    \<and> map snd (rb_headers (hd rs)) = map snd (http_headers (fst ex_push_rq))
    \<and> map fst (rb_headers (hd rs)) = map (\<lambda>n. ''x-echo-'' @ n) (map fst (http_headers (fst ex_push_rq)))"
proof -
  obtain rs where "serve ref_libs ex_push_rq ex_start = Inr (rs, ex_pushed)"
    by (simp add: serve_def run_request_def FsHandler_ops_def ex_push_rq_def
        FsHandlerFactory_onRequest_def FsHandler_onRequest_eq FsHandler_onEOM_def ex_push_run)
  with answers_are_well_formed [OF this] show ?thesis by blast
qed

end
