(* ===== verification/Workers.thy ===== *)
theory Workers
  imports ServiceFacts
begin

text \<open>
  The worker threads of the feature service. proxygen runs the handlers of different connections on
  different threads, which share the cache singleton, the ten store connections and the store. Here a
  body is handled in small steps, and a call on the cache or on a connection has a beginning and an end:
  the step \<open>call\<close> enters the object, the step \<open>act\<close> leaves it with the effect of the whole call. A
  schedule interleaves the steps of any number of threads.

  Neither the eviction map nor a hiredis connection may be used by two threads at once, and the code has
  no lock around either. When two threads are inside one object (\<open>collide\<close>) what happens next is not for
  this model to say. The properties are about \<open>wrun\<close>, the interleavings in which that does not come to pass:
  calls on one object follow each other, in any order, with the calls of other threads in between.
\<close>

section \<open>One thread\<close>

text \<open>
  Where a thread stands in \<open>onBody\<close>: before a lookup in the cache, the choice of a connection, a read of
  the store, an insertion into the cache; before the choice of a connection, a read, a write, the
  destruction of the copied connection; before an erasure from the cache; or with its responses sent.
\<close>

datatype pc =
    Cache_get nat "u64 list" i64 InOutMsg
  | Store_pick nat u64 "u64 list" i64 InOutMsg
  | Store_get nat u64 "u64 list" i64 DBInst InOutMsg
  | Cache_set nat bytes u64 "u64 list" i64 InOutMsg
  | Push_pick InOutMsg
  | Push_get "DataInfo list" i64 DBInst InOutMsg
  | Push_set bytes DataInfo "DataInfo list" i64 DBInst InOutMsg
  | Push_free DBInst InOutMsg
  | Cache_del "u64 list" InOutMsg "Response list"
  | is_Sent: Sent (sent: "Response list")

text \<open>The shared object that the next step works on.\<close>

datatype shared = TheCache | Conn dbcon

fun works_on :: "pc \<Rightarrow> shared option" where
  "works_on (Cache_get i (k # ks) currv msg) = Some TheCache"
| "works_on (Store_get i k ks currv inst msg) = Some (Conn (dbCon inst))"
| "works_on (Cache_set i d k ks currv msg) = Some TheCache"
| "works_on (Push_get (kv # kvs) currv inst msg) = Some (Conn (dbCon inst))"
| "works_on (Push_set d kv kvs currv inst msg) = Some (Conn (dbCon inst))"
| "works_on (Push_free inst msg) = Some (Conn (dbCon inst))"
| "works_on (Cache_del (k # ks) msg rs) = Some TheCache"
| "works_on p = None"

definition begin_body :: "('c, 'e, 'u) libs \<Rightarrow> IOBuf \<Rightarrow> FsHandler \<Rightarrow> pc" where
  "begin_body libs body h =
     (let msg = InOutMsg_ctor (lib_pb libs) (fst body) (reqType h)
      in case reqType h of
           Unknow \<Rightarrow> Sent [send_body (InOutMsg_EncodeRsp (lib_pb libs) 1 msg)]
         | Pull \<Rightarrow> Cache_get 0 (InOutMsg_getPullIds msg) (uninit_int64 libs) msg
         | Push \<Rightarrow> Push_pick msg
         | DelCache \<Rightarrow> Cache_del (InOutMsg_getPullIds msg) msg [])"

fun exec_pc :: "('c, 'e, 'u) libs \<Rightarrow> pc \<Rightarrow> ('c, 'e) server \<Rightarrow> (pc \<times> ('c, 'e) server) res" where
  "exec_pc libs (Cache_get i [] currv msg) s = Inr (Sent [send_body (InOutMsg_EncodeRsp (lib_pb libs) 0 msg)], s)"
| "exec_pc libs (Cache_get i (k # ks) currv msg) s =
     (let (d, c) = CacheSpace_get (lib_cache libs) k (CacheSpace_singleton (lib_cache libs) (static_cache s));
          s = s\<lparr>static_cache := Some c\<rparr>
      in if d = [] then Inr (Store_pick i k ks currv msg, s)
         else res_bind (InOutMsg_setPullData i d msg) (\<lambda>msg. Inr (Cache_get (Suc i) ks currv msg, s)))"
| "exec_pc libs (Store_pick i k ks currv msg) s =
     res_bind (pick_inst libs s) (\<lambda>(inst, s). Inr (Store_get i k ks currv inst msg, s))"
| "exec_pc libs (Store_get i k ks currv inst msg) s =
     res_bind (DBInst_get (lib_host libs) k currv inst (db s)) (\<lambda>(d, currv, w).
       Inr (Cache_set i d k ks currv msg, s\<lparr>db := w\<rparr>))"
| "exec_pc libs (Cache_set i d k ks currv msg) s =
     (let (ret, c) = CacheSpace_set (lib_cache libs) k d (CacheSpace_singleton (lib_cache libs) (static_cache s))
      in res_bind (InOutMsg_setPullData i d msg) (\<lambda>msg.
           Inr (Cache_get (Suc i) ks currv msg, s\<lparr>static_cache := Some c\<rparr>)))"
| "exec_pc libs (Push_pick msg) s =
     res_bind (pick_inst libs s) (\<lambda>(inst, s). Inr (Push_get (InOutMsg_getInfos msg) 0 inst msg, s))"
| "exec_pc libs (Push_get [] currv inst msg) s = Inr (Push_free inst msg, s)"
| "exec_pc libs (Push_get (kv # kvs) currv inst msg) s =
     res_bind (DBInst_get (lib_host libs) (info_id kv) currv inst (db s)) (\<lambda>(d, currv, w).
       Inr (Push_set d kv kvs currv inst msg, s\<lparr>db := w\<rparr>))"
| "exec_pc libs (Push_set d kv kvs currv inst msg) s =
     res_bind (DBInst_set (lib_host libs) (info_id kv) (d @ info_d kv) currv inst (db s)) (\<lambda>(setRet, w).
       Inr (Push_get kvs currv inst msg, s\<lparr>db := w\<rparr>))"
| "exec_pc libs (Push_free inst msg) s =
     res_bind (DBInst_dtor (lib_host libs) inst (db s)) (\<lambda>w.
       Inr (Cache_del (InOutMsg_getPullIds msg) msg [send_body (InOutMsg_EncodeRsp (lib_pb libs) 0 msg)],
         s\<lparr>db := w\<rparr>))"
| "exec_pc libs (Cache_del [] msg rs) s =
     Inr (Sent (rs @ [send_body (InOutMsg_EncodeRsp (lib_pb libs) 0 msg)]), s)"
| "exec_pc libs (Cache_del (k # ks) msg rs) s =
     Inr (Cache_del ks msg rs, s\<lparr>static_cache := Some (CacheSpace_del (lib_cache libs) k
       (CacheSpace_singleton (lib_cache libs) (static_cache s)))\<rparr>)"
| "exec_pc libs (Sent rs) s = Inr (Sent rs, s)"

section \<open>A thread alone is the handler\<close>

text \<open>How many steps a thread still takes.\<close>

fun todo :: "pc \<Rightarrow> nat" where
  "todo (Cache_get i ks currv msg) = 4 * length ks + 1"
| "todo (Store_pick i k ks currv msg) = 4 * length ks + 4"
| "todo (Store_get i k ks currv inst msg) = 4 * length ks + 3"
| "todo (Cache_set i d k ks currv msg) = 4 * length ks + 2"
| "todo (Push_pick msg) = 3 * length (msg_infos msg) + 4"
| "todo (Push_get kvs currv inst msg) = 2 * length kvs + length (msg_infos msg) + 3"
| "todo (Push_set d kv kvs currv inst msg) = 2 * length kvs + length (msg_infos msg) + 4"
| "todo (Push_free inst msg) = length (msg_infos msg) + 2"
| "todo (Cache_del ks msg rs) = length ks + 1"
| "todo (Sent rs) = 0"

lemma exec_todo: "exec_pc libs p s = Inr (p', s') \<Longrightarrow> \<not> is_Sent p \<Longrightarrow> todo p' < todo p"
  by (induction libs p s rule: exec_pc.induct)
    (auto simp: straight InOutMsg_getInfos_def InOutMsg_getPullIds_def split: if_splits)

function drive :: "('c, 'e, 'u) libs \<Rightarrow> pc \<Rightarrow> ('c, 'e) server \<Rightarrow> (Response list \<times> ('c, 'e) server) res" where
  "drive libs p s = 
     (if is_Sent p then Inr (sent p, s) else res_bind (exec_pc libs p s) (\<lambda>(p, s). drive libs p s))"
  by pat_completeness auto
termination
  by (relation "measure (\<lambda>(libs, p, s). todo p)") (auto dest: exec_todo)

declare drive.simps [simp del]

lemma drive_Sent [simp]: "drive libs (Sent rs) s = Inr (rs, s)"
  by (simp add: drive.simps)

lemma drive_step:
  "\<not> is_Sent p \<Longrightarrow> drive libs p s = res_bind (exec_pc libs p s) (\<lambda>(p, s). drive libs p s)"
  by (subst drive.simps) simp

lemma res_bind_assoc: "res_bind (res_bind r f) g = res_bind r (\<lambda>x. res_bind (f x) g)"
  by (cases r) simp_all

lemma cache_then_db: "s\<lparr>db := w, static_cache := c\<rparr> = (s\<lparr>static_cache := c, db := w\<rparr> :: ('c, 'e) server)"
  by simp

lemma drive_del:
  "drive libs (Cache_del ks msg rs) s
     = Inr (rs @ [send_body (InOutMsg_EncodeRsp (lib_pb libs) 0 msg)], del_loop libs ks s)"
  by (induction ks arbitrary: s) (simp_all add: drive_step)

lemma drive_pull:
  "drive libs (Cache_get i ks currv msg) s = res_bind (pull_loop libs i ks currv msg s) (\<lambda>(msg, s).
     Inr ([send_body (InOutMsg_EncodeRsp (lib_pb libs) 0 msg)], s))"
proof (induction ks arbitrary: i currv msg s)
  case (Cons k ks)
  show ?case
    by (simp add: drive_step Cons.IH pull_key_def res_bind_assoc Let_def split_beta cache_then_db
        split: if_split cong: res_bind_cong)
qed (simp add: drive_step)

lemma drive_push:
  "drive libs (Push_get kvs currv inst msg) s = res_bind (push_loop libs kvs currv inst s) (\<lambda>s.
     drive libs (Push_free inst msg) s)"
proof (induction kvs arbitrary: currv s)
  case (Cons kv kvs)
  show ?case
    by (simp add: drive_step [of "Push_get _ _ _ _"] drive_step [of "Push_set _ _ _ _ _ _"] Cons.IH res_bind_assoc
        split_beta cong: res_bind_cong)
qed (simp add: drive_step [of "Push_get _ _ _ _"])

lemma drive_body:
  "drive libs (begin_body libs b h) s = res_bind (FsHandler_onBody libs b h s) (\<lambda>(r, h, s). Inr (r, s))"
  by (cases "reqType h")
    (simp_all add: begin_body_def FsHandler_onBody_def handle_pull_def handle_push_def handle_delcache_def
      drive_pull drive_del drive_push drive_step [of "Push_pick _"] drive_step [of "Push_free _ _"]
      res_bind_assoc Let_def split_beta cong: res_bind_cong)

section \<open>Many threads\<close>

text \<open>
  Each thread has no job, or the body and the handler it was given, where it stands, and whether it is
  inside a call. A body arrives at any idle thread at any time; a busy thread enters the object its next
  step works on; it takes the step, once it is inside where there is an object; a thread that has sent
  its responses becomes idle.
\<close>

type_synonym job = "(IOBuf \<times> FsHandler) \<times> pc \<times> bool"
type_synonym ('c, 'e) cfg = "(nat \<rightharpoonup> job) \<times> ('c, 'e) server"

inductive wstep :: "('c, 'e, 'u) libs \<Rightarrow> ('c, 'e) cfg \<Rightarrow> ('c, 'e) cfg \<Rightarrow> bool"
  for libs :: "('c, 'e, 'u) libs"
where
  arrive: "pcs t = None \<Longrightarrow> wstep libs (pcs, s) (pcs(t \<mapsto> ((b, h), begin_body libs b h, False)), s)"
| call: "pcs t = Some (q, p, False) \<Longrightarrow> works_on p \<noteq> None \<Longrightarrow> wstep libs (pcs, s) (pcs(t \<mapsto> (q, p, True)), s)"
| act: "pcs t = Some (q, p, inside) \<Longrightarrow> \<not> is_Sent p \<Longrightarrow> works_on p \<noteq> None \<longrightarrow> inside \<Longrightarrow>
    exec_pc libs p s = Inr (p', s') \<Longrightarrow> wstep libs (pcs, s) (pcs(t \<mapsto> (q, p', False)), s')"
| finish: "pcs t = Some (q, Sent rs, inside) \<Longrightarrow> wstep libs (pcs, s) (pcs(t := None), s)"

text \<open>Two threads inside one object, and the interleavings without.\<close>

definition collide :: "(nat \<rightharpoonup> job) \<Rightarrow> bool" where
  "collide pcs \<longleftrightarrow> (\<exists>t u q q' p p'. t \<noteq> u \<and> pcs t = Some (q, p, True) \<and> pcs u = Some (q', p', True)
     \<and> works_on p = works_on p')"

definition wrun :: "('c, 'e, 'u) libs \<Rightarrow> ('c, 'e) cfg \<Rightarrow> ('c, 'e) cfg \<Rightarrow> bool" where
  "wrun libs = (\<lambda>c c'. wstep libs c c' \<and> \<not> collide (fst c'))\<^sup>*\<^sup>*"

lemma wrun_steps: "wrun libs c c' \<Longrightarrow> (wstep libs)\<^sup>*\<^sup>* c c'"
  unfolding wrun_def by (erule rtranclp_mono [THEN predicate2D, rotated]) auto

lemma wrun_trans: "wrun libs c c' \<Longrightarrow> wrun libs c' c'' \<Longrightarrow> wrun libs c c''"
  unfolding wrun_def by (rule rtranclp_trans)

definition workers_start :: "('c, 'e, 'u) libs \<Rightarrow> 'e \<Rightarrow> ('c, 'e) cfg" where
  "workers_start libs e = (Map.empty, server_start libs e)"

section \<open>What every interleaving keeps\<close>

text \<open>A datum that a reader may have: the empty string, or a value stored under some version.\<close>

definition seen :: "(bytes \<times> bytes) list \<Rightarrow> bytes \<Rightarrow> bool" where
  "seen h x \<longleftrightarrow> x = [] \<or> x \<in> c_str ` snd ` set h"

lemma seen_mono: "seen h x \<Longrightarrow> set h \<subseteq> set h' \<Longrightarrow> seen h' x"
  by (auto simp: seen_def)

lemma latest_seen: "is_latest num h v x \<Longrightarrow> seen h x"
  by (force simp: is_latest_def seen_def list_ex_iff)

lemma value_seen: "value_of num h x \<Longrightarrow> seen h x"
proof (cases "h = []")
  case False
  then show "value_of num h x \<Longrightarrow> seen h x"
    by (auto simp: value_of_def list_ex_iff split: option.splits intro: latest_seen)
qed (simp add: value_of_def seen_def)

context feature_store
begin

definition grows :: "('c, 'e) server \<Rightarrow> ('c, 'e) server \<Rightarrow> bool" where
  "grows s s' \<longleftrightarrow> (\<forall>j. set (hash (env (db s)) j) \<subseteq> set (hash (env (db s')) j))"

lemma grows_refl [simp]: "grows s s"
  by (simp add: grows_def)

lemma grows_trans: "grows s t \<Longrightarrow> grows t u \<Longrightarrow> grows s u"
  unfolding grows_def by blast

lemma grows_same: "hash (env (db s')) = hash (env (db s)) \<Longrightarrow> grows s s'"
  by (simp add: grows_def)

lemma grows_seen: "grows s s' \<Longrightarrow> seen (stored s k) x \<Longrightarrow> seen (stored s' k) x"
  unfolding grows_def stored_def redis.at_def by (blast intro: seen_mono)

definition weak_inv :: "('c, 'e) server \<Rightarrow> bool" where
  "weak_inv s \<longleftrightarrow> cache.cok (the_cache s) \<and> redis.good (db s) \<and> length (insts s) = DBInstNum
     \<and> (\<forall>k v. cache.clook (the_cache s) k = Some v \<longrightarrow> seen (stored s k) v)"

text \<open>A pull that has filled in the first \<open>i\<close> data of its message.\<close>

definition pull_ok :: "('c, 'e) server \<Rightarrow> IOBuf \<times> FsHandler \<Rightarrow> nat \<Rightarrow> InOutMsg \<Rightarrow> bool" where
  "pull_ok s q i msg \<longleftrightarrow> reqType (snd q) = Pull \<and> msg_t msg = Pull
     \<and> map info_id (msg_infos msg) = InOutMsg_getPullIds (InOutMsg_ctor (lib_pb libs) (fst (fst q)) Pull)
     \<and> list_all (\<lambda>d. seen (stored s (info_id d)) (info_d d)) (take i (msg_infos msg))"

fun thread_ok :: "('c, 'e) server \<Rightarrow> IOBuf \<times> FsHandler \<Rightarrow> pc \<Rightarrow> bool" where
  "thread_ok s q (Cache_get i ks currv msg) = (pull_ok s q i msg \<and> drop i (map info_id (msg_infos msg)) = ks)"
| "thread_ok s q (Store_pick i k ks currv msg) = (pull_ok s q i msg \<and> drop i (map info_id (msg_infos msg)) = k # ks)"
| "thread_ok s q (Store_get i k ks currv inst msg) =
     (pull_ok s q i msg \<and> drop i (map info_id (msg_infos msg)) = k # ks)"
| "thread_ok s q (Cache_set i d k ks currv msg) =
     (pull_ok s q i msg \<and> drop i (map info_id (msg_infos msg)) = k # ks \<and> seen (stored s k) d)"
| "thread_ok s q (Push_pick msg) = (reqType (snd q) \<noteq> Pull)"
| "thread_ok s q (Push_get kvs currv inst msg) = (reqType (snd q) \<noteq> Pull \<and> small currv)"
| "thread_ok s q (Push_set d kv kvs currv inst msg) = (reqType (snd q) \<noteq> Pull \<and> small currv)"
| "thread_ok s q (Push_free inst msg) = (reqType (snd q) \<noteq> Pull)"
| "thread_ok s q (Cache_del ks msg rs) = (reqType (snd q) \<noteq> Pull)"
| "thread_ok s q (Sent rs) = (reqType (snd q) = Pull \<longrightarrow>
     (\<exists>msg. rs = [send_body (InOutMsg_EncodeRsp (lib_pb libs) 0 msg)] \<and> pull_ok s q (length (msg_infos msg)) msg))"

lemma pull_ok_grows: "grows s s' \<Longrightarrow> pull_ok s q i msg \<Longrightarrow> pull_ok s' q i msg"
  by (auto simp: pull_ok_def list_all_iff intro: grows_seen)

lemma thread_ok_grows: "grows s s' \<Longrightarrow> thread_ok s q p \<Longrightarrow> thread_ok s' q p"
  by (cases p) (auto intro: pull_ok_grows grows_seen)

lemma begin_ok: "thread_ok s (b, h) (begin_body libs b h)"
proof (cases "reqType h")
  case Pull
  then have "msg_t (InOutMsg_ctor (lib_pb libs) (fst b) Pull) = Pull"
    by (simp add: InOutMsg_ctor_def split_beta Let_def)
  with Pull show ?thesis by (simp add: begin_body_def pull_ok_def InOutMsg_getPullIds_def Let_def)
qed (simp_all add: begin_body_def Let_def)

text \<open>Filling in the next datum.\<close>

lemma pull_ok_set:
  assumes "pull_ok s q i msg" and "drop i (map info_id (msg_infos msg)) = k # ks" and "seen (stored s k) d"
  shows "\<exists>msg'. InOutMsg_setPullData i d msg = Inr msg' \<and> pull_ok s q (Suc i) msg'
    \<and> drop (Suc i) (map info_id (msg_infos msg')) = ks"
proof -
  let ?xs = "msg_infos msg" and ?x = "(msg_infos msg ! i)\<lparr>info_d := d\<rparr>"
  have i: "i < length ?xs" using assms(2) by (cases "i < length ?xs") simp_all
  have k: "info_id (?xs ! i) = k" using nth_via_drop [OF assms(2)] i by simp
  have ks: "map info_id (drop (Suc i) ?xs) = ks"
    using assms(2) by (metis drop_Suc drop_map list.sel(3) tl_drop)
  have "map info_id (?xs[i := ?x]) = map info_id ?xs" using i by (simp add: map_update list_update_same_conv)
  moreover have "list_all (\<lambda>d. seen (stored s (info_id d)) (info_d d)) (take (Suc i) (?xs[i := ?x]))"
    using assms(1,3) i k by (simp add: pull_ok_def take_Suc_conv_app_nth)
  ultimately show ?thesis
    using assms(1) i ks by (simp add: pull_ok_def InOutMsg_setPullData_def drop_map)
qed

text \<open>What can end a thread.\<close>

definition stops :: "fault \<Rightarrow> bool" where
  "stops f \<longleftrightarrow> f = UseAfterFree
     \<or> f = NullDeref \<and> (mute (lib_host libs) ''HGETALL %d'' \<or> mute (lib_host libs) ''HSETNX %d %d %s'')
     \<or> f = WildPointer \<and> unreadable (lib_host libs)"

text \<open>The cache part: a lookup, an insertion of a value that was seen, an erasure.\<close>

lemma weak_inv_cache:
  assumes "weak_inv s" and "cache.cok c"
    and "\<And>k v. cache.clook c k = Some v \<Longrightarrow> seen (stored s k) v"
  shows "weak_inv (s\<lparr>static_cache := Some c\<rparr>)"
  using assms by (simp add: weak_inv_def the_cache_def stored_def)

lemma grows_cache [simp]: "grows s (s\<lparr>static_cache := c\<rparr>)"
  by (simp add: grows_def)

lemma weak_inv_get:
  assumes "weak_inv s"
  shows "weak_inv (s\<lparr>static_cache := Some (snd (CacheSpace_get (lib_cache libs) k (the_cache s)))\<rparr>)"
    and "seen (stored s k) (fst (CacheSpace_get (lib_cache libs) k (the_cache s)))"
proof -
  have cok: "cache.cok (the_cache s)" using assms by (simp add: weak_inv_def)
  then show "weak_inv (s\<lparr>static_cache := Some (snd (CacheSpace_get (lib_cache libs) k (the_cache s)))\<rparr>)"
    using assms by (intro weak_inv_cache) (auto simp: weak_inv_def)
  show "seen (stored s k) (fst (CacheSpace_get (lib_cache libs) k (the_cache s)))"
    using cok assms by (auto simp: cache.get_value weak_inv_def seen_def split: option.split)
qed

lemma weak_inv_set:
  assumes "weak_inv s" and "seen (stored s k) d"
  shows "weak_inv (s\<lparr>static_cache := Some (snd (CacheSpace_set (lib_cache libs) k d (the_cache s)))\<rparr>)"
proof (rule weak_inv_cache [OF assms(1)])
  let ?c = "snd (CacheSpace_set (lib_cache libs) k d (the_cache s))"
  have cok: "cache.cok (the_cache s)" using assms(1) by (simp add: weak_inv_def)
  then show "cache.cok ?c" by simp
  fix j v assume "cache.clook ?c j = Some v"
  from cache_map_leD [OF cache.set_le [OF cok map_le_refl] this] assms
  show "seen (stored s j) v" by (auto simp: weak_inv_def)
qed

lemma weak_inv_del:
  assumes "weak_inv s"
  shows "weak_inv (s\<lparr>static_cache := Some (CacheSpace_del (lib_cache libs) k (the_cache s))\<rparr>)"
  using assms by (intro weak_inv_cache) (auto simp: weak_inv_def split: if_splits)

text \<open>The store part: a change of the store that only adds values keeps what the cache holds.\<close>

lemma weak_inv_store:
  assumes "weak_inv s" and "grows s (s\<lparr>db := w\<rparr>)" and "redis.good w"
  shows "weak_inv (s\<lparr>db := w\<rparr>)"
  using assms grows_seen [OF assms(2)] by (auto simp: weak_inv_def the_cache_def)

lemma weak_inv_pick:
  assumes "weak_inv s"
  shows "\<exists>d s'. pick_inst libs s = Inr (d, s') \<and> weak_inv s' \<and> grows s s'
    \<and> hash (env (db s')) = hash (env (db s))"
proof -
  have "length (insts s) = DBInstNum" using assms by (simp add: weak_inv_def)
  from pick_inst_same [OF this] obtain i s' where p: "pick_inst libs s = Inr (insts s ! i, s')"
    "same s s'" "static_cache s' = static_cache s" by blast
  then have "weak_inv s'"
    using assms same_facts [OF p(2)] by (simp add: weak_inv_def the_cache_def same_def)
  with p show ?thesis by (auto simp: same_def grows_def)
qed

lemma store_read:
  assumes "weak_inv s"
  shows "(\<exists>f. DBInst_get (lib_host libs) k currv d (db s) = Inl f \<and> stops f)
    \<or> (\<exists>x v w. DBInst_get (lib_host libs) k currv d (db s) = Inr (x, v, w) \<and> seen (stored s k) x
        \<and> (small currv \<longrightarrow> small v) \<and> hash (env w) = hash (env (db s)))"
proof (cases "dbCon d \<in> set (freed (db s))")
  case True
  then show ?thesis by (simp add: get_freed stops_def)
next
  case False
  have good: "redis.good (db s)" using assms by (simp add: weak_inv_def)
  then have ver: "versioned dec (redis.at (db s) k)" by (simp add: redis.good_def redis.at_def)
  show ?thesis
  proof (cases "DBInst_get (lib_host libs) k currv d (db s)")
    case (Inl f)
    with redis.get_stops [OF False good Inl] show ?thesis by (auto simp: stops_def)
  next
    case (Inr r)
    obtain x v w where r: "r = (x, v, w)" by (cases r)
    have "seen (stored s k) x"
      using redis.get_cases [OF False ver, of currv] Inr r latest_seen
      by (auto simp: stored_def seen_def split: if_splits)
    moreover have "hash (env w) = hash (env (db s))" "small currv \<longrightarrow> small v"
      using redis.get_cases [OF False ver, of currv] redis.get_small(1) [OF False good] Inr r by auto
    ultimately show ?thesis using Inr r by blast
  qed
qed

lemma store_write:
  assumes "weak_inv s" and "small v"
  shows "(\<exists>f. DBInst_set (lib_host libs) k x v d (db s) = Inl f \<and> stops f)
    \<or> (\<exists>b w. DBInst_set (lib_host libs) k x v d (db s) = Inr (b, w)
        \<and> weak_inv (s\<lparr>db := w\<rparr>) \<and> grows s (s\<lparr>db := w\<rparr>))"
proof (cases "dbCon d \<in> set (freed (db s))")
  case True
  then show ?thesis
    by (auto simp: DBInst_set_def DBInst_command_def stops_def unreadable_def split: option.splits)
next
  case False
  have good: "redis.good (db s)" using assms(1) by (simp add: weak_inv_def)
  show ?thesis
  proof (cases "DBInst_set (lib_host libs) k x v d (db s)")
    case (Inl f)
    with redis.set_stops [OF False Inl] show ?thesis by (auto simp: stops_def)
  next
    case (Inr r)
    obtain b w where r: "r = (b, w)" by (cases r)
    note st = redis.set_good [OF False good assms(2) Inr [unfolded r]]
    have g: "grows s (s\<lparr>db := w\<rparr>)" using st(4) by (simp add: grows_def)
    with weak_inv_store [OF assms(1) g] st(1) Inr r show ?thesis by auto
  qed
qed

text \<open>Each step of a thread keeps all this, or faults on a freed connection, a null reply or a wild read.\<close>

lemma exec_ok:
  assumes "weak_inv s" and "thread_ok s q p"
  shows "(\<exists>f. exec_pc libs p s = Inl f \<and> stops f)
    \<or> (\<exists>p' s'. exec_pc libs p s = Inr (p', s') \<and> weak_inv s' \<and> grows s s' \<and> thread_ok s' q p')"
proof (cases p)
  case (Cache_get i ks currv msg)
  show ?thesis
  proof (cases ks)
    case Nil
    with assms Cache_get show ?thesis by (auto simp: pull_ok_def intro!: exI [of _ msg])
  next
    case (Cons k ks')
    note g = weak_inv_get [OF assms(1), of k]
    let ?g = "CacheSpace_get (lib_cache libs) k (the_cache s)"
    let ?s = "s\<lparr>static_cache := Some (snd ?g)\<rparr>"
    show ?thesis
    proof (cases "fst ?g = []")
      case True
      with assms(2) g(1) Cache_get Cons pull_ok_grows [of s ?s q i msg] show ?thesis
        by (simp add: Let_def split_beta flip: the_cache_def)
    next
      case False
      have "pull_ok s q i msg" "drop i (map info_id (msg_infos msg)) = k # ks'"
        using assms(2) Cache_get Cons by simp_all
      from pull_ok_set [OF this g(2)] obtain msg' where "InOutMsg_setPullData i (fst ?g) msg = Inr msg'"
        "pull_ok s q (Suc i) msg'" "drop (Suc i) (map info_id (msg_infos msg')) = ks'" by blast
      with False g(1) Cache_get Cons pull_ok_grows [of s ?s q "Suc i" msg'] show ?thesis
        by (simp add: Let_def split_beta flip: the_cache_def)
    qed
  qed
next
  case (Store_pick i k ks currv msg)
  obtain d t where t: "pick_inst libs s = Inr (d, t)" "weak_inv t" "grows s t"
    using weak_inv_pick [OF assms(1)] by blast
  with Store_pick assms(2) pull_ok_grows [of s t q i msg] show ?thesis by simp
next
  case (Store_get i k ks currv inst msg)
  from store_read [OF assms(1), of k currv inst] show ?thesis
  proof (elim disjE exE conjE)
    fix x v w
    assume r: "DBInst_get (lib_host libs) k currv inst (db s) = Inr (x, v, w)" "seen (stored s k) x"
      "hash (env w) = hash (env (db s))"
    have g: "grows s (s\<lparr>db := w\<rparr>)" using r(3) by (simp add: grows_def)
    have "redis.good w" using assms(1) r(3) by (simp add: weak_inv_def redis.good_def)
    with g have "weak_inv (s\<lparr>db := w\<rparr>)" by (intro weak_inv_store assms(1))
    moreover have "seen (stored (s\<lparr>db := w\<rparr>) k) x" using grows_seen [OF g r(2)] .
    ultimately show ?thesis
      using Store_get assms(2) r(1) g pull_ok_grows [of s "s\<lparr>db := w\<rparr>" q i msg] by simp
  qed (simp add: Store_get)
next
  case (Cache_set i d k ks currv msg)
  let ?s = "s\<lparr>static_cache := Some (snd (CacheSpace_set (lib_cache libs) k d (the_cache s)))\<rparr>"
  have ok: "pull_ok s q i msg" "drop i (map info_id (msg_infos msg)) = k # ks" "seen (stored s k) d"
    using assms(2) Cache_set by simp_all
  from pull_ok_set [OF this] obtain msg' where "InOutMsg_setPullData i d msg = Inr msg'"
    "pull_ok s q (Suc i) msg'" "drop (Suc i) (map info_id (msg_infos msg')) = ks" by blast
  with weak_inv_set [OF assms(1) ok(3)] Cache_set pull_ok_grows [of s ?s q "Suc i" msg'] show ?thesis
    by (simp add: Let_def split_beta flip: the_cache_def)
next
  case (Push_pick msg)
  with weak_inv_pick [OF assms(1)] assms(2) show ?thesis by (auto simp: small_def)
next
  case (Push_get kvs currv inst msg)
  show ?thesis
  proof (cases kvs)
    case (Cons kv kvs')
    from store_read [OF assms(1), of "info_id kv" currv inst] show ?thesis
    proof (elim disjE exE conjE)
      fix x v w
      assume r: "DBInst_get (lib_host libs) (info_id kv) currv inst (db s) = Inr (x, v, w)"
        "small currv \<longrightarrow> small v" "hash (env w) = hash (env (db s))"
      have g: "grows s (s\<lparr>db := w\<rparr>)" using r(3) by (simp add: grows_def)
      have "redis.good w" using assms(1) r(3) by (simp add: weak_inv_def redis.good_def)
      with g have "weak_inv (s\<lparr>db := w\<rparr>)" by (intro weak_inv_store assms(1))
      with g r Push_get Cons assms(2) show ?thesis by simp
    qed (simp add: Push_get Cons)
  qed (use Push_get assms in simp)
next
  case (Push_set d kv kvs currv inst msg)
  with store_write [OF assms(1), of currv "info_id kv" "d @ info_d kv" inst] assms(2) show ?thesis by auto
next
  case (Push_free inst msg)
  show ?thesis
  proof (cases "dbCon inst \<in> set (freed (db s))")
    case False
    then obtain w where w: "DBInst_dtor (lib_host libs) inst (db s) = Inr w" "hash (env w) = hash (env (db s))"
      by (simp add: DBInst_dtor_def redis.free_hash)
    have g: "grows s (s\<lparr>db := w\<rparr>)" using w(2) by (simp add: grows_def)
    have "redis.good w" using assms(1) w(2) by (simp add: weak_inv_def redis.good_def)
    with g have "weak_inv (s\<lparr>db := w\<rparr>)" by (intro weak_inv_store assms(1))
    with g w(1) Push_free assms(2) show ?thesis by simp
  qed (simp add: Push_free DBInst_dtor_def stops_def)
next
  case (Cache_del ks msg rs)
  with assms weak_inv_del [OF assms(1)] show ?thesis
    by (cases ks) (simp_all flip: the_cache_def)
next
  case (Sent rs)
  with assms show ?thesis by simp
qed

text \<open>Every reachable configuration.\<close>

definition cfg_ok :: "('c, 'e) cfg \<Rightarrow> bool" where
  "cfg_ok c \<longleftrightarrow> weak_inv (snd c) \<and> (\<forall>t q p i. fst c t = Some (q, p, i) \<longrightarrow> thread_ok (snd c) q p)"

lemma wstep_ok:
  assumes "wstep libs c c'" and "cfg_ok c"
  shows "cfg_ok c' \<and> grows (snd c) (snd c')"
  using assms
proof (cases rule: wstep.cases)
  case (arrive pcs t s b h)
  with assms(2) begin_ok show ?thesis by (auto simp: cfg_ok_def)
next
  case (call pcs t q p s)
  have "thread_ok s q p"
    using assms(2) call(3) unfolding call(1) cfg_ok_def fst_conv snd_conv by blast
  with call assms(2) show ?thesis by (auto simp: cfg_ok_def)
next
  case (act pcs t q p i s p' s')
  have "weak_inv s" "thread_ok s q p"
    using assms(2) act(3) unfolding act(1) cfg_ok_def fst_conv snd_conv by blast+
  from exec_ok [OF this] act(6) have new: "weak_inv s'" "grows s s'" "thread_ok s' q p'" by auto
  have old: "thread_ok s' q1 p1" if "pcs u = Some (q1, p1, i1)" for u q1 p1 i1
    using assms(2) that thread_ok_grows [OF new(2)] unfolding act(1) cfg_ok_def fst_conv snd_conv by blast
  show ?thesis
    unfolding act(1,2) cfg_ok_def fst_conv snd_conv using new old by (auto split: if_splits)
next
  case (finish pcs t q rs i s)
  with assms(2) show ?thesis by (auto simp: cfg_ok_def)
qed

lemma wsteps_ok:
  assumes "(wstep libs)\<^sup>*\<^sup>* c c'" and "cfg_ok c"
  shows "cfg_ok c' \<and> grows (snd c) (snd c')"
  using assms by (induction rule: rtranclp_induct) (auto dest: wstep_ok intro: grows_trans)

lemma start_ok:
  assumes "\<forall>k. versioned dec (hash e k)"
  shows "cfg_ok (workers_start libs e)"
proof -
  have "the_cache (server_start libs e) = CacheSpace_ctor (lib_cache libs)"
    by (simp add: server_start_def G_DBInsts_def split_beta the_cache_def CacheSpace_singleton_def)
  with start_inv(1) [OF assms] show ?thesis
    by (simp add: cfg_ok_def workers_start_def weak_inv_def inv_def)
qed

text \<open>
  While every version is 0 (from an empty store the code writes no other) a hash has one field at
  most, so the only value it can have is the one it has.
\<close>

definition zero_versions :: "('c, 'e) server \<Rightarrow> bool" where
  "zero_versions s \<longleftrightarrow> (\<forall>j. fst ` set (hash (env (db s)) j) \<subseteq> {dec 0})"

fun thread_zero :: "pc \<Rightarrow> bool" where
  "thread_zero (Push_get kvs currv inst msg) = (currv = 0)"
| "thread_zero (Push_set d kv kvs currv inst msg) = (currv = 0)"
| "thread_zero p = True"

lemma latest_zero:
  assumes "fst ` set h \<subseteq> {dec 0}" and "is_latest (to_int64 (lib_host libs)) h v x"
  shows "v = 0"
proof -
  from assms(2) obtain f y where f: "(f, y) \<in> set h" "to_int64 (lib_host libs) (c_str f) = Some v"
    by (auto simp: is_latest_def list_ex_iff)
  with assms(1) have "f = dec 0" by force
  with f(2) show ?thesis by (simp add: redis.dec_no_nul redis.dec_number)
qed

lemma read_zero:
  assumes "weak_inv s" and "DBInst_get (lib_host libs) k currv d (db s) = Inr (x, v, w)"
  shows "hash (env w) = hash (env (db s))" and "zero_versions s \<Longrightarrow> currv = 0 \<Longrightarrow> v = 0"
proof -
  have live: "dbCon d \<notin> set (freed (db s))" using assms(2) get_freed [of d "db s"] by auto
  have ver: "versioned dec (redis.at (db s) k)"
    using assms(1) by (simp add: weak_inv_def redis.good_def redis.at_def)
  have "hash (env w) = hash (env (db s)) \<and> (zero_versions s \<longrightarrow> currv = 0 \<longrightarrow> v = 0)"
  proof (cases "redis.at (db s) k = []")
    case True
    with redis.get_cases [OF live ver, of currv] assms(2) show ?thesis by auto
  next
    case False
    have "fst ` set (redis.at (db s) k) \<subseteq> {dec 0}" if "zero_versions s"
      using that by (simp add: zero_versions_def redis.at_def)
    with redis.get_cases [OF live ver, of currv] assms(2) latest_zero False show ?thesis by auto
  qed
  then show "hash (env w) = hash (env (db s))" "zero_versions s \<Longrightarrow> currv = 0 \<Longrightarrow> v = 0" by auto
qed

lemma write_zero:
  assumes "DBInst_set (lib_host libs) k x 0 d (db s) = Inr (b, w)" and "zero_versions s"
  shows "zero_versions (s\<lparr>db := w\<rparr>)"
proof -
  have "dbCon d \<notin> set (freed (db s))"
    using assms(1) by (auto simp: DBInst_set_def DBInst_command_def split: option.splits)
  from redis.set_cases [OF this, of k x 0] assms(1) have "hash (env w) = hash (env (db s))
      \<or> (\<exists>t. hash (env w) = (hash (env (db s)))(ucast k := hash (env (db s)) (ucast k) @ [(dec 0, t)]))"
    by (auto simp: redis.at_def split: if_splits)
  with assms(2) show ?thesis unfolding zero_versions_def by (elim disjE exE) simp_all
qed

lemma zero_cache [simp]: "zero_versions (s\<lparr>static_cache := c\<rparr>) = zero_versions s"
  by (simp add: zero_versions_def)

lemma exec_zero:
  assumes "exec_pc libs p s = Inr (p', s')" and "weak_inv s" and "zero_versions s" and "thread_zero p"
  shows "zero_versions s' \<and> thread_zero p'"
proof (cases p)
  case (Store_pick i k ks currv msg)
  obtain d where "pick_inst libs s = Inr (d, s')" "p' = Store_get i k ks currv d msg"
    using assms(1) Store_pick by (auto simp: res_bind_Inr)
  moreover from this weak_inv_pick [OF assms(2)] have "hash (env (db s')) = hash (env (db s))" by auto
  ultimately show ?thesis using assms(3) by (simp add: zero_versions_def)
next
  case (Store_get i k ks currv inst msg)
  then obtain x v w where t: "DBInst_get (lib_host libs) k currv inst (db s) = Inr (x, v, w)" "s' = s\<lparr>db := w\<rparr>"
    "p' = Cache_set i x k ks v msg"
    using assms(1) by (auto simp: res_bind_Inr)
  with read_zero(1) [OF assms(2) t(1)] assms(3) show ?thesis
    by (auto simp: zero_versions_def)
next
  case (Push_pick msg)
  obtain d where "pick_inst libs s = Inr (d, s')" "p' = Push_get (InOutMsg_getInfos msg) 0 d msg"
    using assms(1) Push_pick by (auto simp: res_bind_Inr)
  moreover from this weak_inv_pick [OF assms(2)] have "hash (env (db s')) = hash (env (db s))" by auto
  ultimately show ?thesis using assms(3) by (simp add: zero_versions_def)
next
  case (Push_get kvs currv inst msg)
  show ?thesis
  proof (cases kvs)
    case (Cons kv kvs')
    with Push_get obtain x v w where "DBInst_get (lib_host libs) (info_id kv) currv inst (db s) = Inr (x, v, w)"
      "s' = s\<lparr>db := w\<rparr>" "p' = Push_set x kv kvs' v inst msg" using assms(1) by (auto simp: res_bind_Inr)
    with read_zero [OF assms(2) this(1)] assms(3,4) Push_get show ?thesis by (simp add: zero_versions_def)
  qed (use Push_get assms in auto)
next
  case (Push_set d kv kvs currv inst msg)
  with assms(1,3,4) show ?thesis by (auto simp: res_bind_Inr intro: write_zero)
next
  case (Push_free inst msg)
  then have "hash (env (db s')) = hash (env (db s)) \<and> thread_zero p'"
    using assms(1) by (auto simp: res_bind_Inr DBInst_dtor_def redis.free_hash split: if_splits)
  with assms(3) show ?thesis by (simp add: zero_versions_def)
next
  case (Cache_get i ks currv msg)
  with assms(1,3) show ?thesis
    by (cases ks) (auto simp: straight split: if_splits)
next
  case (Cache_del ks msg rs)
  with assms(1,3) show ?thesis by (cases ks) auto
qed (use assms in \<open>auto simp: straight\<close>)

definition cfg_zero :: "('c, 'e) cfg \<Rightarrow> bool" where
  "cfg_zero c \<longleftrightarrow> zero_versions (snd c) \<and> (\<forall>t q p i. fst c t = Some (q, p, i) \<longrightarrow> thread_zero p)"

lemma wstep_zero:
  assumes "wstep libs c c'" and "cfg_ok c" and "cfg_zero c"
  shows "cfg_zero c'"
  using assms
proof (cases rule: wstep.cases)
  case (arrive pcs t s b h)
  have "thread_zero (begin_body libs b h)" by (cases "reqType h") (simp_all add: begin_body_def Let_def)
  with arrive assms(3) show ?thesis by (auto simp: cfg_zero_def)
next
  case (call pcs t q p s)
  have "thread_zero p"
    using assms(3) call(3) unfolding call(1) cfg_zero_def fst_conv snd_conv by blast
  with call assms(3) show ?thesis by (auto simp: cfg_zero_def)
next
  case (act pcs t q p i s p' s')
  have "weak_inv s" "zero_versions s" "thread_zero p"
    using assms(2,3) act(3) unfolding act(1) cfg_ok_def cfg_zero_def fst_conv snd_conv by blast+
  from exec_zero [OF act(6) this] act(1,2) assms(3) show ?thesis by (auto simp: cfg_zero_def)
next
  case (finish pcs t q rs i s)
  with assms(3) show ?thesis by (auto simp: cfg_zero_def)
qed

lemma wsteps_zero: "(wstep libs)\<^sup>*\<^sup>* c c' \<Longrightarrow> cfg_ok c \<Longrightarrow> cfg_zero c \<Longrightarrow> cfg_zero c'"
  by (induction rule: rtranclp_induct) (auto dest: wstep_zero wsteps_ok)

text \<open>A hash with the field 0 only is one pair.\<close>

lemma zero_single:
  assumes "weak_inv s" and "zero_versions s"
  shows "hash (env (db s)) j = [] \<or> (\<exists>y. hash (env (db s)) j = [(dec 0, y)])"
proof -
  let ?h = "hash (env (db s)) j"
  have d: "distinct (map fst ?h)" using assms(1) by (simp add: weak_inv_def redis.good_def versioned_def)
  have "\<forall>x\<in>set ?h. fst x = dec 0" using assms(2) by (auto simp: zero_versions_def)
  with d show ?thesis
    by (cases ?h rule: remdups_adj.cases) auto
qed

lemma seen_single: "seen [(dec 0, y)] x \<Longrightarrow> x \<noteq> [] \<Longrightarrow> value_of (to_int64 (lib_host libs)) [(dec 0, y)] x"
  by (auto simp: seen_def value_of_def is_latest_def redis.dec_no_nul redis.dec_number)

lemma zero_seen:
  assumes "weak_inv s" and "zero_versions s" and "seen (hash (env (db s)) j) x"
  shows "x = [] \<or> value_of (to_int64 (lib_host libs)) (hash (env (db s)) j) x"
  using zero_single [OF assms(1,2), of j] assms(3) seen_single by (metis empty_set image_empty empty_iff seen_def)

lemma zero_kept:
  assumes "weak_inv s" "zero_versions s" "weak_inv s'" "zero_versions s'" "grows s s'" "hash (env (db s)) j \<noteq> []"
  shows "hash (env (db s')) j = hash (env (db s)) j"
proof -
  have "set (hash (env (db s)) j) \<subseteq> set (hash (env (db s')) j)" using assms(5) by (simp add: grows_def)
  with zero_single [OF assms(1,2), of j] zero_single [OF assms(3,4), of j] assms(6) show ?thesis by auto
qed

end

end
