(* ===== verification/WorkersProps.thy ===== *)
theory WorkersProps
  imports ServiceProps Workers
begin

text \<open>
  What holds and what fails when the worker threads of the feature service interleave, with concrete
  schedules on the concrete cache, store and message library as witnesses.
\<close>

section \<open>Schedules\<close>

text \<open>
  A schedule whose events are whole calls: a thread that works on a shared object enters it and leaves it
  in one event, so no two threads are ever inside one.
\<close>

datatype event = Arrive nat IOBuf FsHandler | Act nat | Finish nat

fun sched :: "('c, 'e, 'u) libs \<Rightarrow> event list \<Rightarrow> ('c, 'e) cfg \<Rightarrow> ('c, 'e) cfg option" where
  "sched libs [] c = Some c"
| "sched libs (Arrive t b h # es) c =
     (case fst c t of
        None \<Rightarrow> sched libs es ((fst c)(t \<mapsto> ((b, h), begin_body libs b h, False)), snd c)
      | Some j \<Rightarrow> None)"
| "sched libs (Act t # es) c =
     (case fst c t of
        None \<Rightarrow> None
      | Some (q, p, i) \<Rightarrow>
          if is_Sent p then None
          else (case exec_pc libs p (snd c) of
             Inl e \<Rightarrow> None
           | Inr (p', s') \<Rightarrow> sched libs es ((fst c)(t \<mapsto> (q, p', False)), s')))"
| "sched libs (Finish t # es) c =
     (case fst c t of
        None \<Rightarrow> None
      | Some (q, p, i) \<Rightarrow> if is_Sent p then sched libs es ((fst c)(t := None), snd c) else None)"

definition outside :: "(nat \<rightharpoonup> job) \<Rightarrow> bool" where
  "outside pcs \<longleftrightarrow> (\<forall>t q p. pcs t \<noteq> Some (q, p, True))"

lemma outside_simps [simp]:
  "outside Map.empty"
  "outside pcs \<Longrightarrow> outside (pcs(t \<mapsto> (q, p, False)))"
  "outside pcs \<Longrightarrow> outside (pcs(t := None))"
  by (auto simp: outside_def split: if_splits)

lemma outside_apart: "outside pcs \<Longrightarrow> \<not> collide (pcs(t \<mapsto> (q, p, i)))"
  by (auto simp: outside_def collide_def split: if_splits)

lemma wrun_refl: "wrun libs c c"
  by (simp add: wrun_def)

lemma wrun_step: "wstep libs c c' \<Longrightarrow> \<not> collide (fst c') \<Longrightarrow> wrun libs c c'"
  unfolding wrun_def by (rule r_into_rtranclp) simp

text \<open>One event of a schedule.\<close>

lemma wrun_act:
  assumes "outside pcs" and "pcs t = Some (q, p, i)" and "\<not> is_Sent p" and "exec_pc libs p s = Inr (p', s')"
  shows "wrun libs (pcs, s) (pcs(t \<mapsto> (q, p', False)), s')"
proof (cases "works_on p = None")
  case True
  with wstep.act [where pcs = pcs, OF assms(2,3) _ assms(4)] outside_apart [OF assms(1), of t q p' False]
  show ?thesis by (intro wrun_step) simp_all
next
  case False
  have "\<not> i"
  proof
    assume i
    with assms(2) have "pcs t = Some (q, p, True)" by simp
    with assms(1) show False unfolding outside_def by blast
  qed
  with False assms(2) have "wstep libs (pcs, s) (pcs(t \<mapsto> (q, p, True)), s)" by (intro wstep.call) simp_all
  moreover have "wstep libs (pcs(t \<mapsto> (q, p, True)), s) ((pcs(t \<mapsto> (q, p, True)))(t \<mapsto> (q, p', False)), s')"
    by (rule wstep.act [where inside = True, OF _ assms(3) _ assms(4)]) simp_all
  ultimately show ?thesis
    using outside_apart [OF assms(1), of t q p True] outside_apart [OF assms(1), of t q p' False]
    by (intro wrun_trans [OF wrun_step wrun_step]) simp_all
qed

lemma sched_steps: "sched libs es c = Some c' \<Longrightarrow> outside (fst c) \<Longrightarrow> wrun libs c c'"
proof (induction libs es c rule: sched.induct)
  case (1 libs c)
  then show ?case by (simp add: wrun_def)
next
  case (2 libs t b h es c)
  from 2(2) have j: "fst c t = None"
    and rest: "sched libs es ((fst c)(t \<mapsto> ((b, h), begin_body libs b h, False)), snd c) = Some c'"
    by (auto split: option.splits)
  have "wrun libs c ((fst c)(t \<mapsto> ((b, h), begin_body libs b h, False)), snd c)"
    using wstep.arrive [where pcs = "fst c" and t = t, OF j, of libs "snd c" b h] outside_apart [OF 2(3)]
    by (intro wrun_step) simp_all
  moreover have "wrun libs ((fst c)(t \<mapsto> ((b, h), begin_body libs b h, False)), snd c) c'"
    by (rule 2(1) [OF j rest]) (simp only: fst_conv outside_simps 2(3))
  ultimately show ?case by (rule wrun_trans)
next
  case (3 libs t es c)
  from 3(2) obtain q p i p' s' where j: "fst c t = Some (q, p, i)" "\<not> is_Sent p" "exec_pc libs p (snd c) = Inr (p', s')"
    and rest: "sched libs es ((fst c)(t \<mapsto> (q, p', False)), s') = Some c'"
    by (auto split: option.splits sum.splits if_splits)
  have "wrun libs c ((fst c)(t \<mapsto> (q, p', False)), s')" using wrun_act [OF 3(3) j] by simp
  moreover have "wrun libs ((fst c)(t \<mapsto> (q, p', False)), s') c'"
    by (rule 3(1) [OF j(1) refl refl j(2,3) refl rest]) (simp only: fst_conv outside_simps 3(3))
  ultimately show ?case by (rule wrun_trans)
next
  case (4 libs t es c)
  from 4(2) obtain q rs i where j: "fst c t = Some (q, Sent rs, i)" and rest: "sched libs es ((fst c)(t := None), snd c) = Some c'"
    by (auto simp: is_Sent_def split: option.splits if_splits)
  have "\<not> collide ((fst c)(t := None))" using outside_simps(3) [OF 4(3), of t] by (auto simp: outside_def collide_def)
  with wstep.finish [where pcs = "fst c" and t = t and libs = libs, OF j, of "snd c"]
  have "wrun libs c ((fst c)(t := None), snd c)" by (intro wrun_step) simp_all
  moreover have "wrun libs ((fst c)(t := None), snd c) c'" by (rule 4(1) [OF j refl refl _ rest]) (simp_all only: fst_conv outside_simps 4(3) pc.disc)
  ultimately show ?case by (rule wrun_trans)
qed

section \<open>The race\<close>

text \<open>
  The store holds version 5 for the key 1. One push is for the keys 1 and 300, another for 300 alone;
  a pull asks for 300.
\<close>

definition race_env :: ref_env where
  "race_env = \<lparr>hashes = [(1, [([53], [88])])], next_con = 0, rands = [1, 2, 4]\<rparr>"

definition race_push :: "(u64 \<times> bytes) list \<Rightarrow> unknown_field PushReq" where
  "race_push kvs = foldl (\<lambda>m (k, d). PushReq_add_infos (\<lambda>i. oneInfo_set_data d (oneInfo_set_key k i)) m)
     PushReq_SharedCtor kvs"

definition race_body :: "(u64 \<times> bytes) list \<Rightarrow> IOBuf" where
  "race_body kvs = (PushReq_InternalSerialize srv_rt (snd (PushReq_ByteSizeLong srv_rt (race_push kvs))), [])"

lemma race_fits:
  "PushReq_fits srv_rt (race_push [(1, [89]), (300, [66])])" "PushReq_fits srv_rt (race_push [(300, [65])])"
  by (simp_all add: PushReq_fits_def race_push_def oneInfo_fits_def oneInfo_SharedCtor_def
      PushReq_add_infos_def PushReq_SharedCtor_def oneInfo_set_key_def oneInfo_set_data_def
      have_unknown_fields_def oneInfo_InternalSerialize_def ref_rt_def field_header_def
      varint_ref_def base128.simps wire_max_def)

lemma race_msg:
  assumes "PushReq_fits srv_rt (race_push kvs)"
  shows "InOutMsg_ctor ref_pb (fst (race_body kvs)) Push
    = \<lparr>msg_infos = map (\<lambda>i. \<lparr>info_id = oneInfo_key i, info_d = oneInfo_data i\<rparr>) (PushReq_infos (race_push kvs)),
       msg_fields = {}, msg_t = Push\<rparr>"
  unfolding race_body_def fst_conv
  by (subst ref_msgs.decode_push [OF ref_push.PushReq_parse_serialized [OF assms]])
    (simp add: PushReq_MergeFrom_default)

lemma race_begin:
  "begin_body ref_libs (race_body [(1, [89]), (300, [66])]) \<lparr>reqType = Push\<rparr>
    = Push_pick \<lparr>msg_infos = [\<lparr>info_id = 1, info_d = [89]\<rparr>, \<lparr>info_id = 300, info_d = [66]\<rparr>],
        msg_fields = {}, msg_t = Push\<rparr>"
  "begin_body ref_libs (race_body [(300, [65])]) \<lparr>reqType = Push\<rparr>
    = Push_pick \<lparr>msg_infos = [\<lparr>info_id = 300, info_d = [65]\<rparr>], msg_fields = {}, msg_t = Push\<rparr>"
  "begin_body ref_libs (ex_pull_body, []) \<lparr>reqType = Pull\<rparr>
    = Cache_get 0 [300] 0 \<lparr>msg_infos = [\<lparr>info_id = 300, info_d = []\<rparr>], msg_fields = {}, msg_t = Pull\<rparr>"
  using race_msg [OF race_fits(1)] race_msg [OF race_fits(2)]
  by (simp_all add: begin_body_def ref_libs_def ex_pull_msg InOutMsg_getPullIds_def race_push_def
      PushReq_add_infos_def PushReq_SharedCtor_def oneInfo_set_key_def oneInfo_set_data_def Let_def)

definition race_state ::
  "(u64 \<times> bytes) list option \<Rightarrow> (i32 \<times> (bytes \<times> bytes) list) list \<Rightarrow> nat list \<Rightarrow> nat list \<Rightarrow> (lru, ref_env) server"
where
  "race_state es hs rs fr = \<lparr>static_cache = map_option (\<lambda>es. \<lparr>cacheMap = \<lparr>lru_max = 100, lru_clear = 10, lru_entries = es\<rparr>\<rparr>) es,
     insts = map (\<lambda>i. \<lparr>dbCon = i\<rparr>) [0..<10], db = \<lparr>env = \<lparr>hashes = hs, next_con = 10, rands = rs\<rparr>, freed = fr\<rparr>\<rparr>"

lemma race_start: "workers_start ref_libs race_env = (Map.empty, race_state None [(1, [([53], [88])])] [1, 2, 4] [])"
  by (simp add: workers_start_def server_start_def G_DBInsts_def DBInstNum_def ref_libs_def race_env_def
      race_state_def ref_make_insts)

lemmas race_eval = ref_libs_def pick_inst_def ref_host_def ref_command_def race_state_def DBInstNum_def
  InOutMsg_getInfos_def DBInst_get_def DBInst_set_def DBInst_command_def DBInst_dtor_def
  InOutMsg_getPullIds_def CacheSpace_del_def CacheSpace_get_def CacheSpace_set_def lru_ops_def
  lru_find_def lru_set_def InOutMsg_setPullData_def undec_int_def undec_nat_def is_digit_def
  CacheSpace_singleton_def CacheSpace_ctor_def ref_hash_def ref_dec_def dec_int_def dec_nat.simps c_str_def Let_def

lemma race_1:
  "sched ref_libs (Arrive 0 (race_body [(1, [89]), (300, [66])]) \<lparr>reqType = Push\<rparr> # replicate 4 (Act 0))
     (workers_start ref_libs race_env)
   = Some ([0 \<mapsto> ((race_body [(1, [89]), (300, [66])], \<lparr>reqType = Push\<rparr>),
        Push_set [] \<lparr>info_id = 300, info_d = [66]\<rparr> [] 5 \<lparr>dbCon = 1\<rparr>
          \<lparr>msg_infos = [\<lparr>info_id = 1, info_d = [89]\<rparr>, \<lparr>info_id = 300, info_d = [66]\<rparr>], msg_fields = {}, msg_t = Push\<rparr>, False)],
      race_state None [(1, [([53], [88])])] [2, 4] [])"
  by (simp add: race_start race_begin numeral_eq_Suc) (simp add: race_eval)

text \<open>The first thread stops before its second write; the others run from here.\<close>

definition race_paused :: job where
  "race_paused = ((race_body [(1, [89]), (300, [66])], \<lparr>reqType = Push\<rparr>),
     Push_set [] \<lparr>info_id = 300, info_d = [66]\<rparr> [] 5 \<lparr>dbCon = 1\<rparr>
       \<lparr>msg_infos = [\<lparr>info_id = 1, info_d = [89]\<rparr>, \<lparr>info_id = 300, info_d = [66]\<rparr>], msg_fields = {}, msg_t = Push\<rparr>, False)"

lemma race_2:
  "sched ref_libs (Arrive 1 (race_body [(300, [65])]) \<lparr>reqType = Push\<rparr> # replicate 7 (Act 1) @ [Finish 1])
     ([0 \<mapsto> race_paused], race_state None [(1, [([53], [88])])] [2, 4] [])
   = Some ([0 \<mapsto> race_paused],
      race_state (Some []) [(300, [([48], [65])]), (1, [([53], [88])])] [4] [2])"
  by (simp add: race_begin numeral_eq_Suc) (simp add: race_eval fun_upd_twist)

lemma race_3:
  "sched ref_libs (Arrive 1 (ex_pull_body, []) \<lparr>reqType = Pull\<rparr> # replicate 3 (Act 1) @ replicate 6 (Act 0)
        @ [Finish 0])
     ([0 \<mapsto> race_paused], race_state (Some []) [(300, [([48], [65])]), (1, [([53], [88])])] [4] [2])
   = Some ([1 \<mapsto> (((ex_pull_body, []), \<lparr>reqType = Pull\<rparr>), Cache_set 0 [65] 300 [] 0
         \<lparr>msg_infos = [\<lparr>info_id = 300, info_d = []\<rparr>], msg_fields = {}, msg_t = Pull\<rparr>, False)],
      race_state (Some []) [(300, [([48], [65]), ([53], [66])]), (300, [([48], [65])]), (1, [([53], [88])])] [] [1, 2])"
  by (simp add: race_begin numeral_eq_Suc) (simp add: race_eval race_paused_def fun_upd_twist)

lemma race_4:
  "sched ref_libs [Act 1, Act 1, Finish 1]
     ([1 \<mapsto> (((ex_pull_body, []), \<lparr>reqType = Pull\<rparr>), Cache_set 0 [65] 300 [] 0
         \<lparr>msg_infos = [\<lparr>info_id = 300, info_d = []\<rparr>], msg_fields = {}, msg_t = Pull\<rparr>, False)],
      race_state (Some []) [(300, [([48], [65]), ([53], [66])]), (300, [([48], [65])]), (1, [([53], [88])])] [] [1, 2])
   = Some (Map.empty,
      race_state (Some [(300, [65])])
        [(300, [([48], [65]), ([53], [66])]), (300, [([48], [65])]), (1, [([53], [88])])] [] [1, 2])"
  by (simp add: race_eval)

abbreviation (input) race_end :: "(lru, ref_env) server" where
  "race_end \<equiv> race_state (Some [(300, [65])])
    [(300, [([48], [65]), ([53], [66])]), (300, [([48], [65])]), (1, [([53], [88])])] [] [1, 2]"

lemma race_paused_run:
  "wrun ref_libs (workers_start ref_libs race_env)
     ([0 \<mapsto> race_paused], race_state None [(1, [([53], [88])])] [2, 4] [])"
  unfolding race_paused_def by (rule sched_steps [OF race_1]) (simp add: workers_start_def)

lemma race_rest_run:
  "wrun ref_libs ([0 \<mapsto> race_paused], race_state None [(1, [([53], [88])])] [2, 4] []) (Map.empty, race_end)"
proof -
  have "outside [0 \<mapsto> race_paused]" by (simp add: outside_def race_paused_def)
  then show ?thesis
    by (intro wrun_trans [OF sched_steps [OF race_2] wrun_trans [OF sched_steps [OF race_3] sched_steps [OF race_4]]])
      (simp_all add: outside_def)
qed

section \<open>Properties\<close>



text \<open>
  C31. When every stored version is 0 at the start (as in an empty store), then under any interleaving in
  which no two threads are inside the cache or inside one connection at the same time, and whatever
  redis answers, a stored value is never replaced, and what the cache answers, if anything, is what the
  store holds.
\<close>

theorem version_zero_coherent:
  assumes "feature_store libs look cap ok hash dec failed" and "\<forall>k. versioned dec (hash e k)"
    and "\<forall>k. fst ` set (hash e k) \<subseteq> {dec 0}"
    and "wrun libs (workers_start libs e) (pcs, s)" and "wrun libs (pcs, s) (pcs', s')"
  shows "(\<forall>j. hash (env (db s)) j \<noteq> [] \<longrightarrow> hash (env (db s')) j = hash (env (db s)) j)
    \<and> (\<forall>k. let x = fst (CacheSpace_get (lib_cache libs) k (CacheSpace_singleton (lib_cache libs) (static_cache s')))
        in x = [] \<or> value_of (to_int64 (lib_host libs)) (hash (env (db s')) (ucast k)) x)"
proof -
  note fs = assms(1)
  have ok0: "feature_store.cfg_ok libs look cap ok hash dec (workers_start libs e)"
    by (rule feature_store.start_ok [OF fs assms(2)])
  have "hash (env (db (server_start libs e))) = hash e"
    using redis_hashes.make_insts_state [OF feature_store.axioms(2) [OF fs], of DBInstNum "\<lparr>env = e, freed = []\<rparr>"]
    by (simp add: server_start_def G_DBInsts_def split_beta)
  then have "feature_store.cfg_zero hash dec (workers_start libs e)"
    using assms(3) by (simp add: feature_store.cfg_zero_def [OF fs] feature_store.zero_versions_def [OF fs] workers_start_def)
  note z = feature_store.wsteps_zero [OF fs wrun_steps [OF assms(4)] ok0 this]
  note ok = conjunct1 [OF feature_store.wsteps_ok [OF fs wrun_steps [OF assms(4)] ok0]]
  note z' = feature_store.wsteps_zero [OF fs wrun_steps [OF assms(5)] ok z]
    and ok' = feature_store.wsteps_ok [OF fs wrun_steps [OF assms(5)] ok]
  note defs = feature_store.cfg_ok_def [OF fs] feature_store.cfg_zero_def [OF fs]
  have inv: "feature_store.weak_inv libs look cap ok hash dec s" "feature_store.weak_inv libs look cap ok hash dec s'"
    and zero: "feature_store.zero_versions hash dec s" "feature_store.zero_versions hash dec s'"
    and grow: "feature_store.grows hash s s'"
    using ok ok' z z' by (simp_all add: defs)
  show ?thesis
  proof (intro conjI allI impI)
    show "hash (env (db s')) j = hash (env (db s)) j" if "hash (env (db s)) j \<noteq> []" for j
      by (rule feature_store.zero_kept [OF fs inv(1) zero(1) inv(2) zero(2) grow that])
  next
    fix k
    let ?x = "fst (CacheSpace_get (lib_cache libs) k (CacheSpace_singleton (lib_cache libs) (static_cache s')))"
    have "seen (hash (env (db s')) (ucast k)) ?x"
      using feature_store.weak_inv_get(2) [OF fs inv(2), of k]
      by (simp add: feature_store.stored_def [OF fs] feature_store.the_cache_def [OF fs]
          redis_hashes.at_def [OF feature_store.axioms(2) [OF fs]])
    from feature_store.zero_seen [OF fs inv(2) zero(2) this]
    show "let x = ?x in x = [] \<or> value_of (to_int64 (lib_host libs)) (hash (env (db s')) (ucast k)) x"
      unfolding Let_def .
  qed
qed

text \<open>A push of one key on an empty store.\<close>

lemma zero_run:
  "sched ref_libs (Arrive 1 (race_body [(300, [65])]) \<lparr>reqType = Push\<rparr> # replicate 7 (Act 1) @ [Finish 1])
     (Map.empty, race_state None [] [3, 4] [])
   = Some (Map.empty, race_state (Some []) [(300, [([48], [65])])] [4] [3])"
  by (simp add: race_begin numeral_eq_Suc) (simp add: race_eval fun_upd_twist)

theorem version_zero_coherent_witness:
  "\<exists>s. wrun ref_libs (workers_start ref_libs ex_env) (Map.empty, s)
    \<and> ref_hash (env (db s)) 300 = [([48], [65])]
    \<and> (\<forall>k. let x = fst (CacheSpace_get (lib_cache ref_libs) k (CacheSpace_singleton (lib_cache ref_libs) (static_cache s)))
        in x = [] \<or> value_of (to_int64 (lib_host ref_libs)) (ref_hash (env (db s)) (ucast k)) x)"
proof -
  let ?s = "race_state (Some []) [(300, [([48], [65])])] [4] [3]"
  have "workers_start ref_libs ex_env = (Map.empty, race_state None [] [3, 4] [])"
    by (simp add: workers_start_def ex_start_eq) (simp add: ex_start_def race_state_def)
  then have run: "wrun ref_libs (workers_start ref_libs ex_env) (Map.empty, ?s)"
    using sched_steps [OF zero_run] by simp
  have "\<forall>k. fst ` set (ref_hash ex_env k) \<subseteq> {ref_dec 0}" by (simp add: ex_env_def ref_hash_def)
  from version_zero_coherent [OF ref_store_conforms ex_env_versioned this run wrun_refl] run
  show ?thesis by (intro exI [of _ ?s]) (simp add: race_state_def ref_hash_def)
qed

text \<open>
  C32. With other versions in the store the cache can be left behind. Three requests, all answered: a
  push that read key 300 as empty is overtaken by another push of the key and by a pull; it then
  writes under the version 5 it carries from key 1, which the store takes, and deletes the key from
  the cache; the pull puts the overtaken value back. No thread is busy any more, the store answers the
  second value, and the cache the first, until the entry is evicted or deleted.
\<close>

theorem interleaving_leaves_stale_cache:
  "\<exists>s w. wrun ref_libs (workers_start ref_libs race_env) (Map.empty, s)
    \<and> fst (CacheSpace_get (lib_cache ref_libs) 300 (CacheSpace_singleton (lib_cache ref_libs) (static_cache s))) = [65]
    \<and> DBInst_get (lib_host ref_libs) 300 0 (insts s ! 0) (db s) = Inr ([66], 5, w)"
  by (intro exI [of _ race_end] exI conjI wrun_trans [OF race_paused_run race_rest_run])
    (simp_all add: race_eval)

text \<open>
  Nothing keeps two threads apart: two pulls of one key that arrive at two idle threads of a fresh
  process pick the same connection and are both inside its \<open>get\<close> at the same time, the one having
  entered without waiting for the other to leave.
\<close>

lemma collide_run:
  "sched ref_libs [Arrive 0 (ex_pull_body, []) \<lparr>reqType = Pull\<rparr>, Arrive 1 (ex_pull_body, []) \<lparr>reqType = Pull\<rparr>,
       Act 0, Act 0, Act 1, Act 1] (workers_start ref_libs ex_env_33)
   = Some ([0 \<mapsto> (((ex_pull_body, []), \<lparr>reqType = Pull\<rparr>), Store_get 0 300 [] 0 \<lparr>dbCon = 3\<rparr>
         \<lparr>msg_infos = [\<lparr>info_id = 300, info_d = []\<rparr>], msg_fields = {}, msg_t = Pull\<rparr>, False),
       1 \<mapsto> (((ex_pull_body, []), \<lparr>reqType = Pull\<rparr>), Store_get 0 300 [] 0 \<lparr>dbCon = 3\<rparr>
         \<lparr>msg_infos = [\<lparr>info_id = 300, info_d = []\<rparr>], msg_fields = {}, msg_t = Pull\<rparr>, False)],
      race_state (Some []) [] [] [])"
  by (simp add: workers_start_def ex_start_33 race_begin) (simp add: race_eval ex_start_def fun_upd_twist)


end
