(* ===== verification/Handlers.thy ===== *)
theory Handlers
  imports Http
begin

text \<open>
  The small HTTP services of the repository: the header echo of httpserver/service, the two test
  handlers of test-debug/main, and the echo server of test-debug/echo with its per-thread request
  counter. Each handler interprets \<open>request_handler\<close>.
\<close>

section \<open>httpserver/service\<close>

definition HService_FsHandlerFactory_onRequest :: "HTTPMessage \<Rightarrow> unit" where
  "HService_FsHandlerFactory_onRequest head = ()"

definition HService_FsHandler_onRequest ::
  "HTTPMessage \<Rightarrow> unit \<Rightarrow> 's \<Rightarrow> (Response list \<times> unit \<times> 's) res" where
  "HService_FsHandler_onRequest req h s =
     (let builder = ResponseBuilder\<lparr>rb_status := Some (200, ''OK'')\<rparr>;
          builder = foldl (\<lambda>b (name, value). b\<lparr>rb_headers := rb_headers b @ [(''x-echo-'' @ name, value)]\<rparr>)
                      builder (http_headers req)
      in Inr ([builder], h, s))"

definition HService_FsHandler_onBody ::
  "IOBuf \<Rightarrow> unit \<Rightarrow> 's \<Rightarrow> (Response list \<times> unit \<times> 's) res" where
  "HService_FsHandler_onBody body h s = Inr ([ResponseBuilder\<lparr>rb_body := Some body\<rparr>], h, s)"

definition HService_FsHandler_onEOM :: "unit \<Rightarrow> 's \<Rightarrow> (Response list \<times> unit \<times> 's) res" where
  "HService_FsHandler_onEOM h s = Inr ([ResponseBuilder\<lparr>rb_eom := True\<rparr>], h, s)"

definition HService_ops :: "(unit, 's) handler_ops" where
  "HService_ops =
     \<lparr>h_onRequest = HService_FsHandler_onRequest, h_onBody = HService_FsHandler_onBody,
      h_onEOM = HService_FsHandler_onEOM\<rparr>"

section \<open>test-debug/main\<close>

text \<open>The two handler classes; the factory chooses by URL.\<close>

datatype test_handler = TestHandler | Test1Handler

definition TestHandlerFactory_onRequest :: "HTTPMessage \<Rightarrow> test_handler" where
  "TestHandlerFactory_onRequest head =
     (if http_url head = ''/test1'' then Test1Handler else TestHandler)"

definition TestHandler_onRequest :: "HTTPMessage \<Rightarrow> Response list" where
  "TestHandler_onRequest headers =
     (let builder = ResponseBuilder\<lparr>rb_status := Some (200, ''OK'')\<rparr>;
          builder = foldl (\<lambda>b (name, value). b\<lparr>rb_headers := rb_headers b @ [(''x-echo-'' @ name, value)]\<rparr>)
                      builder (http_headers headers)
      in [builder])"

definition TestHandler_onBody :: "IOBuf \<Rightarrow> Response list" where
  "TestHandler_onBody body = [ResponseBuilder\<lparr>rb_body := Some body\<rparr>]"

definition TestHandler_onEOM :: "Response list" where
  "TestHandler_onEOM = [ResponseBuilder\<lparr>rb_eom := True\<rparr>]"

definition Test1Handler_onRequest :: "HTTPMessage \<Rightarrow> Response list" where
  "Test1Handler_onRequest headers = [ResponseBuilder\<lparr>rb_status := Some (200, ''OK'')\<rparr>]"

definition Test1Handler_onBody :: "IOBuf \<Rightarrow> Response list" where
  "Test1Handler_onBody body =
     [ResponseBuilder\<lparr>rb_body := Some (ascii (''hello'' @ [CHR 0x0A]), [])\<rparr>]"

definition Test1Handler_onEOM :: "Response list" where
  "Test1Handler_onEOM = [ResponseBuilder\<lparr>rb_eom := True\<rparr>]"

text \<open>The virtual calls.\<close>

definition Test_ops :: "(test_handler, 's) handler_ops" where
  "Test_ops =
     \<lparr>h_onRequest = \<lambda>req h s. Inr (case h of TestHandler \<Rightarrow> TestHandler_onRequest req
         | Test1Handler \<Rightarrow> Test1Handler_onRequest req, h, s),
      h_onBody = \<lambda>b h s. Inr (case h of TestHandler \<Rightarrow> TestHandler_onBody b
         | Test1Handler \<Rightarrow> Test1Handler_onBody b, h, s),
      h_onEOM = \<lambda>h s. Inr (case h of TestHandler \<Rightarrow> TestHandler_onEOM
         | Test1Handler \<Rightarrow> Test1Handler_onEOM, h, s)\<rparr>"

definition Test_serve ::
  "HTTPMessage \<Rightarrow> IOBuf list \<Rightarrow> 's \<Rightarrow> (Response list \<times> 's) res" where
  "Test_serve req body s = run_request Test_ops req body (TestHandlerFactory_onRequest req) s"

section \<open>test-debug/echo\<close>

text \<open>
  \<open>EchoStats\<close> objects live on the heap; \<open>stats_\<close> of the factory is a \<open>ThreadLocalPtr\<close>, one
  pointer per thread, null until the server starts on that thread. A handler keeps the pointer of
  the thread that created it.
\<close>

record EchoStats =
  reqCount :: u64

record echo_heap =
  eh_objects :: "nat \<rightharpoonup> EchoStats"
  eh_fresh :: nat
  eh_stats :: "nat \<rightharpoonup> nat"

record EchoHandler =
  handler_stats :: "nat option"

definition EchoStats_recordRequest :: "EchoStats \<Rightarrow> EchoStats" where
  "EchoStats_recordRequest st = st\<lparr>reqCount := reqCount st + 1\<rparr>"

definition EchoStats_getRequestCount :: "EchoStats \<Rightarrow> u64" where
  "EchoStats_getRequestCount st = reqCount st"

text \<open>A virtual call through the handler's pointer.\<close>

definition deref :: "nat option \<Rightarrow> echo_heap \<Rightarrow> (nat \<times> EchoStats) res" where
  "deref p s =
     (case p of
        None \<Rightarrow> Inl NullDeref
      | Some a \<Rightarrow> (case eh_objects s a of None \<Rightarrow> Inl UseAfterFree | Some st \<Rightarrow> Inr (a, st)))"

definition EchoHandlerFactory_onServerStart :: "nat \<Rightarrow> echo_heap \<Rightarrow> echo_heap" where
  "EchoHandlerFactory_onServerStart t s =
     (let a = eh_fresh s;
          objs = (eh_objects s)(a \<mapsto> \<lparr>reqCount = 0\<rparr>);
          objs = (case eh_stats s t of None \<Rightarrow> objs | Some old \<Rightarrow> objs(old := None))
      in \<lparr>eh_objects = objs, eh_fresh = Suc a, eh_stats = (eh_stats s)(t \<mapsto> a)\<rparr>)"

definition EchoHandlerFactory_onServerStop :: "nat \<Rightarrow> echo_heap \<Rightarrow> echo_heap" where
  "EchoHandlerFactory_onServerStop t s =
     (case eh_stats s t of
        None \<Rightarrow> s
      | Some old \<Rightarrow> s\<lparr>eh_objects := (eh_objects s)(old := None), eh_stats := (eh_stats s)(t := None)\<rparr>)"

definition EchoHandlerFactory_onRequest :: "nat \<Rightarrow> echo_heap \<Rightarrow> EchoHandler" where
  "EchoHandlerFactory_onRequest t s = \<lparr>handler_stats = eh_stats s t\<rparr>"

text \<open>\<open>folly::to<std::string>\<close> of an unsigned number.\<close>

definition to_string :: "u64 \<Rightarrow> string" where
  "to_string n = dec_string (unat n)"

definition EchoHandler_onRequest ::
  "bool \<Rightarrow> HTTPMessage \<Rightarrow> EchoHandler \<Rightarrow> echo_heap \<Rightarrow> (Response list \<times> EchoHandler \<times> echo_heap) res" where
  "EchoHandler_onRequest FLAGS_request_number req h s =
     res_bind (deref (handler_stats h) s) (\<lambda>(a, st).
     let st = EchoStats_recordRequest st;
         s = s\<lparr>eh_objects := (eh_objects s)(a \<mapsto> st)\<rparr>;
         builder = ResponseBuilder\<lparr>rb_status := Some (200, ''OK'')\<rparr>;
         builder = (if FLAGS_request_number
                    then builder\<lparr>rb_headers := rb_headers builder
                           @ [(''Request-Number'', to_string (EchoStats_getRequestCount st))]\<rparr>
                    else builder);
         builder = foldl (\<lambda>b (name, value). b\<lparr>rb_headers := rb_headers b @ [(''x-echo-'' @ name, value)]\<rparr>)
                     builder (http_headers req)
     in Inr ([builder], h, s))"

definition EchoHandler_onBody ::
  "IOBuf \<Rightarrow> EchoHandler \<Rightarrow> echo_heap \<Rightarrow> (Response list \<times> EchoHandler \<times> echo_heap) res" where
  "EchoHandler_onBody body h s = Inr ([ResponseBuilder\<lparr>rb_body := Some body\<rparr>], h, s)"

definition EchoHandler_onEOM ::
  "EchoHandler \<Rightarrow> echo_heap \<Rightarrow> (Response list \<times> EchoHandler \<times> echo_heap) res" where
  "EchoHandler_onEOM h s = Inr ([ResponseBuilder\<lparr>rb_eom := True\<rparr>], h, s)"

definition Echo_ops :: "bool \<Rightarrow> (EchoHandler, echo_heap) handler_ops" where
  "Echo_ops rn =
     \<lparr>h_onRequest = EchoHandler_onRequest rn, h_onBody = EchoHandler_onBody,
      h_onEOM = EchoHandler_onEOM\<rparr>"

text \<open>
  A history of the echo server: the threads of the pool start, stop and serve requests in any
  order. Only \<open>onRequest\<close> touches the counters, so a request is one event.
\<close>

datatype echo_event =
    ServerStart nat
  | ServerStop nat
  | Request nat HTTPMessage "IOBuf list"

definition echo_init :: echo_heap where
  "echo_init = \<lparr>eh_objects = Map.empty, eh_fresh = 0, eh_stats = Map.empty\<rparr>"

fun echo_run :: "bool \<Rightarrow> echo_event list \<Rightarrow> echo_heap \<Rightarrow> (Response list list \<times> echo_heap) res" where
  "echo_run rn [] s = Inr ([], s)"
| "echo_run rn (ServerStart t # es) s = echo_run rn es (EchoHandlerFactory_onServerStart t s)"
| "echo_run rn (ServerStop t # es) s = echo_run rn es (EchoHandlerFactory_onServerStop t s)"
| "echo_run rn (Request t req body # es) s =
     res_bind (run_request (Echo_ops rn) req body (EchoHandlerFactory_onRequest t s) s) (\<lambda>(r, s).
     res_bind (echo_run rn es s) (\<lambda>(rs, s). Inr (r # rs, s)))"

section \<open>The handlers meet the interface\<close>

lemma HService_onRequest_eq:
  "h_onRequest HService_ops req h s =
     Inr ([ResponseBuilder\<lparr>rb_status := Some (200, ''OK''),
       rb_headers := map (\<lambda>(name, value). (''x-echo-'' @ name, value)) (http_headers req)\<rparr>], h, s)"
  unfolding HService_ops_def HService_FsHandler_onRequest_def Let_def echo_headers
  by (simp add: ResponseBuilder_def)

interpretation hservice: body_handler HService_ops "\<lambda>h b. b"
  by unfold_locales
    (auto simp: HService_onRequest_eq, auto simp: HService_ops_def HService_FsHandler_onBody_def
      HService_FsHandler_onEOM_def ResponseBuilder_def)

lemma TestHandler_onRequest_eq:
  "TestHandler_onRequest req =
     [ResponseBuilder\<lparr>rb_status := Some (200, ''OK''),
       rb_headers := map (\<lambda>(name, value). (''x-echo-'' @ name, value)) (http_headers req)\<rparr>]"
  unfolding TestHandler_onRequest_def Let_def echo_headers by (simp add: ResponseBuilder_def)

text \<open>What the test server sends for one part of the body.\<close>

fun Test_part :: "test_handler \<Rightarrow> IOBuf \<Rightarrow> IOBuf" where
  "Test_part TestHandler b = b"
| "Test_part Test1Handler b = (ascii (''hello'' @ [CHR 0x0A]), [])"

lemma part_bytes [simp]: "iobuf_bytes (b, []) = b"
  by (simp add: iobuf_bytes_def)

lemmas Test_simps = Test_ops_def TestHandler_onRequest_eq TestHandler_onBody_def TestHandler_onEOM_def
  Test1Handler_onRequest_def Test1Handler_onBody_def Test1Handler_onEOM_def

interpretation test_server: body_handler Test_ops Test_part
  by unfold_locales
    (auto simp: Test_simps ResponseBuilder_def split: test_handler.splits)

lemma EchoHandler_onRequest_eq:
  assumes "deref (handler_stats h) s = Inr (a, st)"
  shows "EchoHandler_onRequest rn req h s =
     Inr ([ResponseBuilder\<lparr>rb_status := Some (200, ''OK''),
       rb_headers := (if rn then [(''Request-Number'', to_string (reqCount st + 1))] else [])
         @ map (\<lambda>(name, value). (''x-echo-'' @ name, value)) (http_headers req)\<rparr>],
       h, s\<lparr>eh_objects := (eh_objects s)(a \<mapsto> \<lparr>reqCount = reqCount st + 1\<rparr>)\<rparr>)"
  using assms unfolding EchoHandler_onRequest_def Let_def echo_headers
  by (cases st) (simp add: ResponseBuilder_def EchoStats_recordRequest_def EchoStats_getRequestCount_def)

lemma EchoHandler_onRequest_Inr:
  assumes "EchoHandler_onRequest rn req h s = Inr (r, h', s')"
  obtains a st where "deref (handler_stats h) s = Inr (a, st)"
  using assms by (auto simp: EchoHandler_onRequest_def res_bind_Inr)

interpretation echo: body_handler "Echo_ops rn" "\<lambda>h b. b" for rn
proof
  fix req h s r h' s'
  assume "h_onRequest (Echo_ops rn) req h s = Inr (r, h', s')"
  then have "EchoHandler_onRequest rn req h s = Inr (r, h', s')" by (simp add: Echo_ops_def)
  moreover then obtain a st where "deref (handler_stats h) s = Inr (a, st)"
    by (rule EchoHandler_onRequest_Inr)
  ultimately have "h' = h" "\<exists>x. r = [x] \<and> rb_status x \<noteq> None \<and> \<not> rb_eom x \<and> rb_body x = None"
    by (auto simp: EchoHandler_onRequest_eq ResponseBuilder_def)
  then show "\<exists>x. r = [x] \<and> rb_status x \<noteq> None \<and> \<not> rb_eom x"
    and "h' = h \<and> list_all (\<lambda>x. rb_body x = None) r" by auto
qed (auto simp: Echo_ops_def EchoHandler_onBody_def EchoHandler_onEOM_def ResponseBuilder_def)

section \<open>The counters of the echo server\<close>

text \<open>
  What a history promises of thread \<open>t\<close>: nothing before the server starts on it, afterwards the
  number of requests it has seen since.
\<close>

definition seen :: "nat \<Rightarrow> echo_event list \<Rightarrow> nat option" where
  "seen t es = foldl (\<lambda>n e. case e of
       ServerStart u \<Rightarrow> if u = t then Some 0 else n
     | ServerStop u \<Rightarrow> if u = t then None else n
     | Request u req body \<Rightarrow> if u = t then map_option Suc n else n) None es"

lemma seen_simps [simp]:
  "seen t [] = None"
  "seen t (es @ [ServerStart u]) = (if u = t then Some 0 else seen t es)"
  "seen t (es @ [ServerStop u]) = (if u = t then None else seen t es)"
  "seen t (es @ [Request u req body]) = (if u = t then map_option Suc (seen t es) else seen t es)"
  by (simp_all add: seen_def)

text \<open>The pointers of the threads are distinct, live, and below the next fresh address.\<close>

definition echo_ok :: "echo_heap \<Rightarrow> bool" where
  "echo_ok s \<longleftrightarrow>
     (\<forall>t a. eh_stats s t = Some a \<longrightarrow> a \<in> dom (eh_objects s) \<and> a < eh_fresh s
        \<and> (\<forall>u. eh_stats s u = Some a \<longrightarrow> u = t))"

definition echo_view :: "echo_heap \<Rightarrow> nat \<Rightarrow> u64 option" where
  "echo_view s t = (case eh_stats s t of None \<Rightarrow> None | Some a \<Rightarrow> map_option reqCount (eh_objects s a))"

lemma echo_okD:
  assumes "echo_ok s" and "eh_stats s t = Some a"
  shows "\<exists>st. eh_objects s a = Some st" and "a < eh_fresh s"
    and "eh_stats s u = Some a \<Longrightarrow> u = t"
  using assms by (auto simp: echo_ok_def)

lemma echo_start:
  assumes "echo_ok s"
  shows "echo_ok (EchoHandlerFactory_onServerStart t s)"
    and "echo_view (EchoHandlerFactory_onServerStart t s) = (echo_view s)(t \<mapsto> 0)"
proof -
  note d = echo_okD [OF assms]
  show "echo_ok (EchoHandlerFactory_onServerStart t s)"
    using assms
    by (auto simp: echo_ok_def EchoHandlerFactory_onServerStart_def Let_def less_Suc_eq
        split: option.splits)
  show "echo_view (EchoHandlerFactory_onServerStart t s) = (echo_view s)(t \<mapsto> 0)"
    by (rule ext) (auto simp: echo_view_def EchoHandlerFactory_onServerStart_def Let_def
        split: option.splits dest: d(2,3))
qed

lemma echo_stop:
  assumes "echo_ok s"
  shows "echo_ok (EchoHandlerFactory_onServerStop t s)"
    and "echo_view (EchoHandlerFactory_onServerStop t s) = (echo_view s)(t := None)"
proof -
  note d = echo_okD [OF assms]
  show "echo_ok (EchoHandlerFactory_onServerStop t s)"
    using assms
    by (auto simp: echo_ok_def EchoHandlerFactory_onServerStop_def split: option.splits)
  show "echo_view (EchoHandlerFactory_onServerStop t s) = (echo_view s)(t := None)"
    by (rule ext) (auto simp: echo_view_def EchoHandlerFactory_onServerStop_def
        split: option.splits dest: d(3))
qed

lemma echo_count:
  assumes "echo_ok s" and "eh_stats s t = Some a"
  shows "echo_ok (s\<lparr>eh_objects := (eh_objects s)(a \<mapsto> \<lparr>reqCount = n\<rparr>)\<rparr>)"
    and "echo_view (s\<lparr>eh_objects := (eh_objects s)(a \<mapsto> \<lparr>reqCount = n\<rparr>)\<rparr>) = (echo_view s)(t \<mapsto> n)"
  using assms echo_okD(3) [OF assms]
  by (auto simp: echo_ok_def echo_view_def fun_eq_iff split: option.splits)

text \<open>A request on a thread of a good heap.\<close>

lemma echo_request:
  assumes "echo_ok s"
  shows "echo_view s t = None \<Longrightarrow>
      run_request (Echo_ops rn) req body (EchoHandlerFactory_onRequest t s) s = Inl NullDeref"
    and "echo_view s t = Some n \<Longrightarrow>
      \<exists>rs s'. run_request (Echo_ops rn) req body (EchoHandlerFactory_onRequest t s) s = Inr (rs, s')
        \<and> echo_ok s' \<and> echo_view s' = (echo_view s)(t \<mapsto> n + 1) \<and> well_formed rs
        \<and> response_body rs = concat (map iobuf_bytes body)
        \<and> rb_headers (hd rs) = (if rn then [(''Request-Number'', to_string (n + 1))] else [])
            @ map (\<lambda>(name, value). (''x-echo-'' @ name, value)) (http_headers req)"
proof -
  assume "echo_view s t = None"
  then have "eh_stats s t = None"
    using echo_okD(1) [OF assms] by (fastforce simp: echo_view_def split: option.splits)
  then show "run_request (Echo_ops rn) req body (EchoHandlerFactory_onRequest t s) s = Inl NullDeref"
    by (simp add: run_request_def Echo_ops_def EchoHandler_onRequest_def deref_def
        EchoHandlerFactory_onRequest_def)
next
  assume "echo_view s t = Some n"
  then obtain a st where a: "eh_stats s t = Some a" "eh_objects s a = Some st" "reqCount st = n"
    by (auto simp: echo_view_def split: option.splits)
  then have "deref (handler_stats (EchoHandlerFactory_onRequest t s)) s = Inr (a, st)"
    by (simp add: deref_def EchoHandlerFactory_onRequest_def)
  from EchoHandler_onRequest_eq [OF this, of rn req]
  have "h_onRequest (Echo_ops rn) req (EchoHandlerFactory_onRequest t s) s =
    Inr ([ResponseBuilder\<lparr>rb_status := Some (200, ''OK''),
       rb_headers := (if rn then [(''Request-Number'', to_string (n + 1))] else [])
         @ map (\<lambda>(name, value). (''x-echo-'' @ name, value)) (http_headers req)\<rparr>],
       EchoHandlerFactory_onRequest t s,
       s\<lparr>eh_objects := (eh_objects s)(a \<mapsto> \<lparr>reqCount = n + 1\<rparr>)\<rparr>)"
    by (simp add: a Echo_ops_def)
  from echo.run_request_answer [OF this, of body]
  show "\<exists>rs s'. run_request (Echo_ops rn) req body (EchoHandlerFactory_onRequest t s) s = Inr (rs, s')
        \<and> echo_ok s' \<and> echo_view s' = (echo_view s)(t \<mapsto> n + 1) \<and> well_formed rs
        \<and> response_body rs = concat (map iobuf_bytes body)
        \<and> rb_headers (hd rs) = (if rn then [(''Request-Number'', to_string (n + 1))] else [])
            @ map (\<lambda>(name, value). (''x-echo-'' @ name, value)) (http_headers req)"
    using echo_count [OF assms a(1)] by fastforce
qed

lemma echo_run_append:
  "echo_run rn (es @ es') s =
     res_bind (echo_run rn es s) (\<lambda>(rs, s). res_bind (echo_run rn es' s) (\<lambda>(rs', s). Inr (rs @ rs', s)))"
  by (induction rn es s rule: echo_run.induct)
    (auto simp: res_bind_def split_beta split: sum.splits)

lemma echo_run_view:
  assumes "echo_run rn es echo_init = Inr (outs, s)"
  shows "echo_ok s \<and> (\<forall>t. echo_view s t = map_option of_nat (seen t es))"
  using assms
proof (induction es arbitrary: outs s rule: rev_induct)
  case Nil
  then show ?case by (auto simp: echo_init_def echo_ok_def echo_view_def)
next
  case (snoc e es)
  obtain outs1 s1 where s1: "echo_run rn es echo_init = Inr (outs1, s1)"
    using snoc.prems by (auto simp: echo_run_append res_bind_Inr)
  note ok = snoc.IH [OF s1, THEN conjunct1] and view = snoc.IH [OF s1, THEN conjunct2]
  show ?case
  proof (cases e)
    case (ServerStart t)
    with snoc.prems s1 have "s = EchoHandlerFactory_onServerStart t s1"
      by (simp add: echo_run_append)
    with ServerStart echo_start [OF ok, of t] view show ?thesis by auto
  next
    case (ServerStop t)
    with snoc.prems s1 have "s = EchoHandlerFactory_onServerStop t s1"
      by (simp add: echo_run_append)
    with ServerStop echo_stop [OF ok, of t] view show ?thesis by auto
  next
    case (Request t req body)
    with snoc.prems s1 obtain rs where
      rs: "run_request (Echo_ops rn) req body (EchoHandlerFactory_onRequest t s1) s1 = Inr (rs, s)"
      by (auto simp: echo_run_append res_bind_Inr)
    then obtain n where n: "seen t es = Some n"
      using echo_request(1) [OF ok] view by (cases "seen t es") fastforce+
    with echo_request(2) [OF ok, of t "of_nat n" rn req body] view rs
    have "echo_ok s" "echo_view s = (echo_view s1)(t \<mapsto> of_nat n + 1)" by auto
    with Request n view show ?thesis by (auto simp: add.commute)
  qed
qed

section \<open>Properties\<close>

text \<open>
  C17. The echo server numbers the requests of each thread: after any history that started, stopped
  and served the threads of the pool in any interleaving, the next request on a thread is answered
  with the count of the requests that thread has seen since the server last started on it (modulo
  2^64) when the flag asks for a number, with the request's headers echoed after it, the body
  returned byte for byte, in a well-formed answer. On a thread the server has not started on, the
  handler reads through a null pointer.
\<close>

theorem echo_numbers_requests:
  assumes "echo_run rn es echo_init = Inr (outs, s)"
  shows "case seen t es of
      None \<Rightarrow> echo_run rn (es @ [Request t req body]) echo_init = Inl NullDeref
    | Some n \<Rightarrow> (\<exists>rs s'. echo_run rn (es @ [Request t req body]) echo_init = Inr (outs @ [rs], s')
        \<and> well_formed rs \<and> response_body rs = concat (map iobuf_bytes body)
        \<and> rb_headers (hd rs) = (if rn then [(''Request-Number'', to_string (of_nat (Suc n)))] else [])
            @ map (\<lambda>(name, value). (''x-echo-'' @ name, value)) (http_headers req))"
proof (cases "seen t es")
  case None
  with echo_run_view [OF assms] assms echo_request(1) [of s t rn req body] show ?thesis
    by (simp add: echo_run_append)
next
  case (Some n)
  with echo_run_view [OF assms] echo_request(2) [of s t "of_nat n" rn req body]
  obtain rs s' where
    "run_request (Echo_ops rn) req body (EchoHandlerFactory_onRequest t s) s = Inr (rs, s')"
    and rs: "well_formed rs" "response_body rs = concat (map iobuf_bytes body)"
    "rb_headers (hd rs) = (if rn then [(''Request-Number'', to_string (of_nat n + 1))] else [])
            @ map (\<lambda>(name, value). (''x-echo-'' @ name, value)) (http_headers req)"
    by fastforce
  then have run: "echo_run rn (es @ [Request t req body]) echo_init = Inr (outs @ [rs], s')"
    by (simp add: assms echo_run_append)
  from Some rs show ?thesis
    by (simp only: option.case, intro exI [of _ rs] exI [of _ s'])
      (simp add: run add.commute [of "of_nat n" 1])
qed

lemma to_string_witness_1: "to_string 2 = ''2''"
  by (simp add: to_string_def dec_string_def dec_nat.simps [of 2] char_of_def bit_0 bit_Suc bit_numeral_rec)

theorem echo_numbers_requests_witness:
  "\<exists>outs s rs s'.
     echo_run True [ServerStart 0, ServerStart 1, Request 0 \<lparr>http_method = ''GET'', http_url = ''/'',
         http_headers = []\<rparr> [], Request 1 \<lparr>http_method = ''GET'', http_url = ''/'',
         http_headers = []\<rparr> []] echo_init = Inr (outs, s)
     \<and> echo_run True ([ServerStart 0, ServerStart 1, Request 0 \<lparr>http_method = ''GET'', http_url = ''/'',
         http_headers = []\<rparr> [], Request 1 \<lparr>http_method = ''GET'', http_url = ''/'',
         http_headers = []\<rparr> []] @ [Request 1 \<lparr>http_method = ''POST'', http_url = ''/'',
         http_headers = [(''Host'', ''a'')]\<rparr> [([7], [[8]])]]) echo_init = Inr (outs @ [rs], s')
     \<and> response_body rs = [7, 8]
     \<and> rb_headers (hd rs) = [(''Request-Number'', ''2''), (''x-echo-Host'', ''a'')]"
proof -
  let ?g = "\<lparr>http_method = ''GET'', http_url = ''/'', http_headers = []\<rparr>"
  let ?es = "[ServerStart 0, ServerStart 1, Request 0 ?g [], Request 1 ?g []]"
  have "\<exists>outs s. echo_run True ?es echo_init = Inr (outs, s)"
    by (simp add: echo_init_def EchoHandlerFactory_onServerStart_def EchoHandlerFactory_onRequest_def
        run_request_def Echo_ops_def EchoHandler_onRequest_def deref_def EchoHandler_onEOM_def Let_def)
  then obtain outs s where run: "echo_run True ?es echo_init = Inr (outs, s)" by blast
  have seen: "seen 1 ?es = Some 1" by (simp add: seen_def)
  from echo_numbers_requests [OF run, of 1 "\<lparr>http_method = ''POST'', http_url = ''/'',
    http_headers = [(''Host'', ''a'')]\<rparr>" "[([7], [[8]])]"]
  show ?thesis
    unfolding seen using run by (fastforce simp: iobuf_bytes_def to_string_witness_1)
qed

text \<open>
  The httpserver service never fails and leaves the shared state alone: for every request it
  answers status 200 with each request header under the name prefixed by x-echo-, then every byte
  of the body in order, chained buffers included, then one end of message.
\<close>

theorem httpserver_echoes:
  "\<exists>rs. run_request HService_ops req body (HService_FsHandlerFactory_onRequest req) s = Inr (rs, s)
     \<and> well_formed rs \<and> rb_status (hd rs) = Some (200, ''OK'')
     \<and> rb_headers (hd rs) = map (\<lambda>(name, value). (''x-echo-'' @ name, value)) (http_headers req)
     \<and> response_body rs = concat (map iobuf_bytes body)"
  by (rule hservice.run_request_answer [OF HService_onRequest_eq [of req "()" s], of body]) (auto simp: ResponseBuilder_def HService_FsHandlerFactory_onRequest_def)

text \<open>
  The test server routes by the exact URL: /test1 gets a header with nothing echoed and the
  line hello once for each part of the body, every other URL its own headers and body back.
\<close>

theorem test_server_routes:
  "\<exists>rs. Test_serve req body s = Inr (rs, s) \<and> well_formed rs
     \<and> (if http_url req = ''/test1''
        then rb_headers (hd rs) = [] \<and> response_body rs = concat (replicate (length body) (ascii (''hello'' @ [CHR 0x0A])))
        else rb_headers (hd rs) = map (\<lambda>(name, value). (''x-echo-'' @ name, value)) (http_headers req)
             \<and> response_body rs = concat (map iobuf_bytes body))"
proof -
  let ?h = "TestHandlerFactory_onRequest req"
  have h: "h_onRequest Test_ops req ?h s =
    Inr (case ?h of TestHandler \<Rightarrow> TestHandler_onRequest req | Test1Handler \<Rightarrow> Test1Handler_onRequest req, ?h, s)"
    by (simp add: Test_ops_def)
  show ?thesis
    by (rule test_server.run_request_answer [OF h, of body])
      (auto simp: Test_serve_def TestHandlerFactory_onRequest_def TestHandler_onRequest_eq
        Test1Handler_onRequest_def ResponseBuilder_def map_replicate_const part_bytes)
qed

end
