(* ===== verification/Sessions.thy ===== *)
theory Sessions
  imports Handlers ServiceProps
begin

text \<open>
  The life of request handlers. A factory makes one with \<open>new\<close> for each request, proxygen calls it back
  while parts of many requests arrive in any order, and the handler deletes itself in
  \<open>requestComplete\<close> or \<open>onError\<close>. The callbacks of the four servers that end or ignore a request, sessions
  as interleavings of the callbacks of many requests, and the contract \<open>self_deleting\<close> under which every
  handler is deleted exactly once and every completed request has one well-formed answer.
\<close>

section \<open>Objects that delete themselves\<close>

type_synonym 'h objects = "nat \<rightharpoonup> 'h"

text \<open>\<open>delete this\<close> on an object that is gone is a fault, as is any call on it.\<close>

definition delete_this :: "nat \<Rightarrow> 'h objects \<Rightarrow> 'h objects res" where
  "delete_this i g = (case g i of None \<Rightarrow> Inl UseAfterFree | Some h \<Rightarrow> Inr (g(i := None)))"

record ('h, 's) life_ops =
  cbs :: "('h, 's) handler_ops"
  factory :: "HTTPMessage \<Rightarrow> 's \<Rightarrow> 'h"
  l_onUpgrade :: "'h \<Rightarrow> 's \<Rightarrow> (Response list \<times> 'h \<times> 's) res"
  l_requestComplete :: "nat \<Rightarrow> 'h objects \<Rightarrow> 'h objects res"
  l_onError :: "nat \<Rightarrow> 'h objects \<Rightarrow> 'h objects res"

section \<open>The callbacks of the four servers\<close>

definition FsHandler_onUpgrade ::
  "FsHandler \<Rightarrow> ('c, 'e) server \<Rightarrow> (Response list \<times> FsHandler \<times> ('c, 'e) server) res" where
  "FsHandler_onUpgrade h s = Inr ([], h, s)"

definition FsHandler_requestComplete :: "nat \<Rightarrow> FsHandler objects \<Rightarrow> FsHandler objects res" where
  "FsHandler_requestComplete this g = delete_this this g"

definition FsHandler_onError :: "nat \<Rightarrow> FsHandler objects \<Rightarrow> FsHandler objects res" where
  "FsHandler_onError this g = delete_this this g"

definition FsHandler_life :: "('c, 'e, 'u) libs \<Rightarrow> (FsHandler, ('c, 'e) server) life_ops" where
  "FsHandler_life libs = \<lparr>cbs = FsHandler_ops libs, factory = \<lambda>head s. FsHandlerFactory_onRequest head,
     l_onUpgrade = FsHandler_onUpgrade, l_requestComplete = FsHandler_requestComplete,
     l_onError = FsHandler_onError\<rparr>"

definition EchoHandler_onUpgrade :: "EchoHandler \<Rightarrow> echo_heap \<Rightarrow> (Response list \<times> EchoHandler \<times> echo_heap) res" where
  "EchoHandler_onUpgrade h s = Inr ([], h, s)"

definition EchoHandler_requestComplete :: "nat \<Rightarrow> EchoHandler objects \<Rightarrow> EchoHandler objects res" where
  "EchoHandler_requestComplete this g = delete_this this g"

definition EchoHandler_onError :: "nat \<Rightarrow> EchoHandler objects \<Rightarrow> EchoHandler objects res" where
  "EchoHandler_onError this g = delete_this this g"

definition Echo_life :: "bool \<Rightarrow> nat \<Rightarrow> (EchoHandler, echo_heap) life_ops" where
  "Echo_life rn thread = \<lparr>cbs = Echo_ops rn, factory = \<lambda>head s. EchoHandlerFactory_onRequest thread s,
     l_onUpgrade = EchoHandler_onUpgrade, l_requestComplete = EchoHandler_requestComplete,
     l_onError = EchoHandler_onError\<rparr>"

definition Test_onUpgrade :: "test_handler \<Rightarrow> 's \<Rightarrow> (Response list \<times> test_handler \<times> 's) res" where
  "Test_onUpgrade h s = Inr ([], h, s)"

definition TestHandler_requestComplete :: "nat \<Rightarrow> test_handler objects \<Rightarrow> test_handler objects res" where
  "TestHandler_requestComplete this g = delete_this this g"

definition TestHandler_onError :: "nat \<Rightarrow> test_handler objects \<Rightarrow> test_handler objects res" where
  "TestHandler_onError this g = delete_this this g"

definition Test1Handler_requestComplete :: "nat \<Rightarrow> test_handler objects \<Rightarrow> test_handler objects res" where
  "Test1Handler_requestComplete this g = delete_this this g"

definition Test1Handler_onError :: "nat \<Rightarrow> test_handler objects \<Rightarrow> test_handler objects res" where
  "Test1Handler_onError this g = delete_this this g"

text \<open>The class of the object decides; of one that is gone, either answers with the fault.\<close>

definition Test_life :: "(test_handler, 's) life_ops" where
  "Test_life = \<lparr>cbs = Test_ops, factory = \<lambda>head s. TestHandlerFactory_onRequest head, l_onUpgrade = Test_onUpgrade,
     l_requestComplete = \<lambda>this g. (if g this = Some Test1Handler then Test1Handler_requestComplete this g
       else TestHandler_requestComplete this g),
     l_onError = \<lambda>this g. (if g this = Some Test1Handler then Test1Handler_onError this g
       else TestHandler_onError this g)\<rparr>"

definition HService_FsHandler_onUpgrade :: "unit \<Rightarrow> 's \<Rightarrow> (Response list \<times> unit \<times> 's) res" where
  "HService_FsHandler_onUpgrade h s = Inr ([], h, s)"

definition HService_FsHandler_requestComplete :: "nat \<Rightarrow> unit objects \<Rightarrow> unit objects res" where
  "HService_FsHandler_requestComplete this g = delete_this this g"

definition HService_FsHandler_onError :: "nat \<Rightarrow> unit objects \<Rightarrow> unit objects res" where
  "HService_FsHandler_onError this g = delete_this this g"

definition HService_life :: "(unit, 's) life_ops" where
  "HService_life = \<lparr>cbs = HService_ops, factory = \<lambda>head s. HService_FsHandlerFactory_onRequest head,
     l_onUpgrade = HService_FsHandler_onUpgrade, l_requestComplete = HService_FsHandler_requestComplete,
     l_onError = HService_FsHandler_onError\<rparr>"

section \<open>Sessions\<close>

text \<open>
  An event of a server's thread: a request arrives and a handler with a new name is made, or proxygen
  calls a handler back.
\<close>

datatype call =
    OnRequest HTTPMessage
  | OnBody IOBuf
  | OnEOM
  | OnUpgrade
  | RequestComplete
  | OnError

datatype event = New nat HTTPMessage | Call nat call

text \<open>A callback runs on a live object only. The result has what was sent, with the request's name.\<close>

definition on_object ::
  "nat \<Rightarrow> ('h \<Rightarrow> 's \<Rightarrow> (Response list \<times> 'h \<times> 's) res) \<Rightarrow> 'h objects \<times> 's
   \<Rightarrow> (Response list \<times> 'h objects \<times> 's) res" where
  "on_object i f gs = (case fst gs i of
     None \<Rightarrow> Inl UseAfterFree
   | Some h \<Rightarrow> res_bind (f h (snd gs)) (\<lambda>(r, h, s). Inr (r, (fst gs)(i \<mapsto> h), s)))"

fun call_back ::
  "('h, 's) life_ops \<Rightarrow> nat \<Rightarrow> call \<Rightarrow> 'h objects \<times> 's \<Rightarrow> (Response list \<times> 'h objects \<times> 's) res" where
  "call_back ops i (OnRequest req) gs = on_object i (h_onRequest (cbs ops) req) gs"
| "call_back ops i (OnBody b) gs = on_object i (h_onBody (cbs ops) b) gs"
| "call_back ops i OnEOM gs = on_object i (h_onEOM (cbs ops)) gs"
| "call_back ops i OnUpgrade gs = on_object i (l_onUpgrade ops) gs"
| "call_back ops i RequestComplete gs = res_bind (l_requestComplete ops i (fst gs)) (\<lambda>g. Inr ([], g, snd gs))"
| "call_back ops i OnError gs = res_bind (l_onError ops i (fst gs)) (\<lambda>g. Inr ([], g, snd gs))"

fun session ::
  "('h, 's) life_ops \<Rightarrow> event list \<Rightarrow> 'h objects \<times> 's \<Rightarrow> ((nat \<times> Response) list \<times> 'h objects \<times> 's) res" where
  "session ops [] gs = Inr ([], gs)"
| "session ops (New i head # es) gs =
     session ops es ((fst gs)(i \<mapsto> factory ops head (snd gs)), snd gs)"
| "session ops (Call i c # es) gs =
     res_bind (call_back ops i c gs) (\<lambda>(r, gs).
     res_bind (session ops es gs) (\<lambda>(rs, gs). Inr (map (Pair i) r @ rs, gs)))"

section \<open>proxygen's order of calls\<close>

text \<open>
  For one request: \<open>onRequest\<close>, then parts of the body, then \<open>onEOM\<close>, then \<open>requestComplete\<close>; or at any
  point \<open>onError\<close> instead of the rest. Names are not used twice.
\<close>

datatype phase = Unborn | Created | Opened | Ended | Complete | Failed

fun next_phase :: "phase \<Rightarrow> call \<Rightarrow> phase option" where
  "next_phase Created (OnRequest req) = Some Opened"
| "next_phase Opened (OnBody b) = Some Opened"
| "next_phase Opened OnUpgrade = Some Opened"
| "next_phase Opened OnEOM = Some Ended"
| "next_phase Ended RequestComplete = Some Complete"
| "next_phase ph OnError = (if ph \<in> {Created, Opened, Ended} then Some Failed else None)"
| "next_phase ph c = None"

fun follows :: "event list \<Rightarrow> (nat \<Rightarrow> phase) \<Rightarrow> (nat \<Rightarrow> phase) option" where
  "follows [] ph = Some ph"
| "follows (New i head # es) ph = (if ph i = Unborn then follows es (ph(i := Created)) else None)"
| "follows (Call i c # es) ph =
     (case next_phase (ph i) c of None \<Rightarrow> None | Some p \<Rightarrow> follows es (ph(i := p)))"

text \<open>What a request has been sent so far, at each point of its life.\<close>

definition opened :: "Response list \<Rightarrow> bool" where
  "opened r \<longleftrightarrow> r \<noteq> [] \<and> rb_status (hd r) \<noteq> None \<and> list_all (\<lambda>x. rb_status x = None) (tl r)
     \<and> list_all (\<lambda>x. \<not> rb_eom x) r"

fun sent_so_far :: "phase \<Rightarrow> Response list \<Rightarrow> bool" where
  "sent_so_far Unborn r = (r = [])"
| "sent_so_far Created r = (r = [])"
| "sent_so_far Opened r = opened r"
| "sent_so_far Ended r = well_formed r"
| "sent_so_far Complete r = well_formed r"
| "sent_so_far Failed r = True"

definition to_request :: "nat \<Rightarrow> (nat \<times> Response) list \<Rightarrow> Response list" where
  "to_request i rs = map snd (filter (\<lambda>x. fst x = i) rs)"

lemma to_request_simps [simp]:
  "to_request i [] = []" "to_request i (rs @ rs') = to_request i rs @ to_request i rs'"
  "to_request i (map (Pair j) r) = (if i = j then r else [])"
  by (simp_all add: to_request_def filter_map comp_def)

definition in_life :: "phase \<Rightarrow> bool" where
  "in_life ph \<longleftrightarrow> ph \<in> {Created, Opened, Ended}"

section \<open>The contract\<close>

locale self_deleting = request_handler "cbs ops" for ops :: "('h, 's) life_ops" +
  assumes completes: "l_requestComplete ops i g = delete_this i g"
    and errs: "l_onError ops i g = delete_this i g"
    and no_upgrade: "l_onUpgrade ops h s = Inr ([], h, s)"
begin

text \<open>A callback in its place is made on a live object, and takes what was sent one phase further.\<close>

lemma call_in_place:
  assumes "next_phase (ph i) c = Some p" and "\<forall>j. g j \<noteq> None \<longleftrightarrow> in_life (ph j)"
    and "call_back ops i c (g, s) = Inr (r, g', s')" and "sent_so_far (ph i) old"
  shows "(\<forall>j. g' j \<noteq> None \<longleftrightarrow> in_life ((ph(i := p)) j)) \<and> sent_so_far p (old @ r)"
proof -
  have live: "in_life (ph i)" "\<exists>h. g i = Some h"
    using assms(1,2) by (cases "(ph i, c)" rule: next_phase.cases; auto simp: in_life_def split: if_splits)+
  then obtain h where h: "g i = Some h" by blast
  show ?thesis
  proof (cases c)
    case (OnRequest req)
    then obtain h' where r: "h_onRequest (cbs ops) req h s = Inr (r, h', s')" "g' = g(i \<mapsto> h')"
      and p: "ph i = Created" "p = Opened"
      using assms(1,3) h by (cases "ph i") (auto simp: on_object_def res_bind_Inr)
    from opens [OF r(1)] p assms(2,4) r(2) show ?thesis
      by (auto simp: opened_def in_life_def)
  next
    case (OnBody b)
    then obtain h' where r: "h_onBody (cbs ops) b h s = Inr (r, h', s')" "g' = g(i \<mapsto> h')"
      and p: "ph i = Opened" "p = Opened"
      using assms(1,3) h by (cases "ph i") (auto simp: on_object_def res_bind_Inr)
    from goes_on [OF r(1)] p assms(2,4) r(2) show ?thesis
      by (auto simp: opened_def in_life_def list_all_iff)
  next
    case OnEOM
    then obtain h' where r: "h_onEOM (cbs ops) h s = Inr (r, h', s')" "g' = g(i \<mapsto> h')"
      and p: "ph i = Opened" "p = Ended"
      using assms(1,3) h by (cases "ph i") (auto simp: on_object_def res_bind_Inr)
    from closes [OF r(1)] obtain x where "r = [x]" "rb_status x = None" "rb_eom x" by blast
    moreover have "opened old" using assms(4) p by simp
    ultimately have "well_formed (old @ r)"
      by (auto simp: well_formed_def opened_def Suc_le_eq)
    with p assms(2) r(2) show ?thesis by (auto simp: in_life_def)
  next
    case OnUpgrade
    with assms h no_upgrade show ?thesis by (cases "ph i") (auto simp: on_object_def in_life_def)
  next
    case RequestComplete
    with assms h completes show ?thesis by (cases "ph i") (auto simp: delete_this_def in_life_def)
  next
    case OnError
    with assms h errs show ?thesis by (cases "ph i") (auto simp: delete_this_def in_life_def)
  qed
qed

lemma session_life:
  assumes "follows es ph = Some ph'" and "\<forall>j. g j \<noteq> None \<longleftrightarrow> in_life (ph j)"
    and "session ops es (g, s) = Inr (rs, g', s')" and "\<forall>j. sent_so_far (ph j) (old j)"
  shows "(\<forall>j. g' j \<noteq> None \<longleftrightarrow> in_life (ph' j)) \<and> (\<forall>j. sent_so_far (ph' j) (old j @ to_request j rs))"
  using assms
proof (induction es arbitrary: ph g s rs old)
  case (Cons e es)
  show ?case
  proof (cases e)
    case (New i head)
    have old: "\<forall>j. sent_so_far ((ph(i := Created)) j) (old j)"
      using Cons.prems(1,4) New by (auto split: if_splits dest: spec [of _ i])
    have f: "follows es (ph(i := Created)) = Some ph'" using Cons.prems(1) New by (simp split: if_splits)
    have live: "\<forall>j. (g(i \<mapsto> factory ops head s)) j \<noteq> None \<longleftrightarrow> in_life ((ph(i := Created)) j)"
      using Cons.prems(2) by (simp add: in_life_def)
    have "session ops es (g(i \<mapsto> factory ops head s), s) = Inr (rs, g', s')" using Cons.prems(3) New by simp
    from Cons.IH [OF f live this old] show ?thesis .
  next
    case (Call i c)
    then obtain p where p: "next_phase (ph i) c = Some p" "follows es (ph(i := p)) = Some ph'"
      using Cons.prems(1) by (auto split: option.splits)
    obtain r g1 s1 rs1 where r: "call_back ops i c (g, s) = Inr (r, g1, s1)"
      "session ops es (g1, s1) = Inr (rs1, g', s')" "rs = map (Pair i) r @ rs1"
      using Cons.prems(3) Call by (auto simp: res_bind_Inr)
    note step = call_in_place [OF p(1) Cons.prems(2) r(1) spec [OF Cons.prems(4)]]
    have "\<forall>j. sent_so_far ((ph(i := p)) j) ((old(i := old i @ r)) j)"
      using step Cons.prems(4) by simp
    from Cons.IH [OF p(2) conjunct1 [OF step] r(2) this] r(3) show ?thesis
      by (auto split: if_splits)
  qed
qed simp

text \<open>In its place, a callback faults only when the operation of the handler does.\<close>

lemma call_fault:
  assumes "next_phase (ph i) c = Some p" and "\<forall>j. g j \<noteq> None \<longleftrightarrow> in_life (ph j)"
    and "call_back ops i c (g, s) = Inl e"
  obtains h req b where "h_onRequest (cbs ops) req h s = Inl e \<or> h_onBody (cbs ops) b h s = Inl e
    \<or> h_onEOM (cbs ops) h s = Inl e"
proof -
  have "in_life (ph i)"
    using assms(1) by (cases "(ph i, c)" rule: next_phase.cases) (auto simp: in_life_def split: if_splits)
  then obtain h where h: "g i = Some h" using assms(2) by blast
  have "\<exists>req b. h_onRequest (cbs ops) req h s = Inl e \<or> h_onBody (cbs ops) b h s = Inl e
      \<or> h_onEOM (cbs ops) h s = Inl e"
    using assms(3) h completes errs no_upgrade
    by (cases c) (auto simp: on_object_def delete_this_def res_bind_def split: sum.splits)
  then show ?thesis using that by blast
qed

end

section \<open>The four servers keep the contract\<close>

interpretation fs_life: self_deleting "FsHandler_life libs" for libs :: "('c, 'e, 'u) libs"
  unfolding self_deleting_def self_deleting_axioms_def
  using fs_handler.request_handler_axioms [of libs]
  by (simp add: FsHandler_life_def FsHandler_requestComplete_def FsHandler_onError_def FsHandler_onUpgrade_def)

interpretation echo_life: self_deleting "Echo_life rn thread" for rn thread
  unfolding self_deleting_def self_deleting_axioms_def
  using echo.request_handler_axioms [of rn]
  by (simp add: Echo_life_def EchoHandler_requestComplete_def EchoHandler_onError_def EchoHandler_onUpgrade_def)

interpretation test_life: self_deleting "Test_life :: (test_handler, 's) life_ops"
  unfolding self_deleting_def self_deleting_axioms_def
  using test_server.request_handler_axioms
  by (simp add: Test_life_def TestHandler_requestComplete_def TestHandler_onError_def
      Test1Handler_requestComplete_def Test1Handler_onError_def Test_onUpgrade_def)

interpretation hservice_life: self_deleting "HService_life :: (unit, 's) life_ops"
  unfolding self_deleting_def self_deleting_axioms_def
  using hservice.request_handler_axioms
  by (simp add: HService_life_def HService_FsHandler_requestComplete_def HService_FsHandler_onError_def
      HService_FsHandler_onUpgrade_def)

section \<open>Properties\<close>

text \<open>
  C29. When proxygen calls the handlers of many requests in any order, following its order for each,
  the handlers that exist are those of the requests in progress: each is deleted exactly once, at its
  end, and none is used afterwards. Each completed request has one well-formed answer of its own,
  whatever was sent to the others in between.
\<close>

theorem sessions_answer_and_delete:
  assumes "follows es (\<lambda>i. Unborn) = Some ph"
    and "session (FsHandler_life libs) es (Map.empty, s) = Inr (rs, g, s')"
  shows "(\<forall>i. g i \<noteq> None \<longleftrightarrow> ph i \<in> {Created, Opened, Ended})
    \<and> (\<forall>i. ph i = Complete \<longrightarrow> well_formed (to_request i rs))"
proof -
  have "\<forall>j. (Map.empty :: FsHandler objects) j \<noteq> None \<longleftrightarrow> in_life Unborn" by (simp add: in_life_def)
  moreover have "\<forall>j. sent_so_far Unborn []" by simp
  ultimately have "(\<forall>j. g j \<noteq> None \<longleftrightarrow> in_life (ph j)) \<and> (\<forall>j. sent_so_far (ph j) ([] @ to_request j rs))"
    using fs_life.session_life [of es "\<lambda>i. Unborn" ph Map.empty libs s rs g s' "\<lambda>j. []"] assms by blast
  then have live: "\<forall>j. g j \<noteq> None \<longleftrightarrow> in_life (ph j)" and sent: "\<And>j. sent_so_far (ph j) (to_request j rs)"
    by simp_all
  have "well_formed (to_request i rs)" if "ph i = Complete" for i using sent [of i] that by simp
  with live show ?thesis by (auto simp: in_life_def)
qed

text \<open>Two requests whose callbacks interleave; the second ends with an error.\<close>

definition ex_head :: HTTPMessage where
  "ex_head = \<lparr>http_method = ''GET'', http_url = ''/'', http_headers = []\<rparr>"

definition ex_session :: "event list" where
  "ex_session = [New 0 ex_head, New 1 ex_head, Call 1 (OnRequest ex_head), Call 0 (OnRequest ex_head),
     Call 1 (OnBody ([], [])), Call 0 (OnBody ([], [])), Call 0 OnEOM, Call 1 OnError, Call 0 RequestComplete]"

theorem sessions_answer_and_delete_witness:
  "\<exists>rs g. session (FsHandler_life ref_libs) ex_session (Map.empty, ex_start) = Inr (rs, g, ex_start)
    \<and> g = Map.empty \<and> well_formed (to_request 0 rs)"
proof -
  have f: "follows ex_session (\<lambda>i. Unborn) = Some ((\<lambda>i. Unborn)(0 := Complete, 1 := Failed))"
    by (auto simp: ex_session_def)
  have body: "FsHandler_onBody ref_libs b \<lparr>reqType = Unknow\<rparr> s = Inr ([send_body []], \<lparr>reqType = Unknow\<rparr>, s)" for b s
    by (simp add: FsHandler_onBody_def InOutMsg_ctor_def InOutMsg_EncodeRsp_def Let_def)
  have new: "FsHandlerFactory_onRequest ex_head = \<lparr>reqType = Unknow\<rparr>"
    by (simp add: FsHandlerFactory_onRequest_def ex_head_def)
  have "\<exists>rs g. session (FsHandler_life ref_libs) ex_session (Map.empty, ex_start) = Inr (rs, g, ex_start)"
    by (simp add: ex_session_def FsHandler_life_def on_object_def FsHandler_ops_def new body
        FsHandler_onRequest_eq FsHandler_onEOM_def FsHandler_requestComplete_def FsHandler_onError_def
        delete_this_def)
  then obtain rs g where run: "session (FsHandler_life ref_libs) ex_session (Map.empty, ex_start) = Inr (rs, g, ex_start)"
    by blast
  note r = sessions_answer_and_delete [OF f run]
  have "g i = None" for i using spec [OF conjunct1 [OF r], of i] by (simp split: if_splits)
  then have "g = Map.empty" by (simp add: fun_eq_iff)
  moreover have "well_formed (to_request 0 rs)" using spec [OF conjunct2 [OF r], of 0] by simp
  ultimately show ?thesis using run by blast
qed

end
