(* ===== verification/ServerMain.thy ===== *)
theory ServerMain
  imports Prelude
begin

text \<open>
  How the four HTTP servers start (feature-server/main.cpp, httpserver/main.cpp,
  test-debug/main/main.cpp, test-debug/echo/EchoServer.cpp): from the command-line flags and the
  number of processors to the addresses bound and the options handed to the proxygen server. Every
  field of the options that a program does not set keeps the library's default, here \<open>None\<close>.
\<close>

section \<open>Configuration\<close>

datatype Protocol = HTTP | SPDY | HTTP2

datatype signal = SIGINT | SIGTERM

datatype handler_factory = Feature | HService | TestServer | EchoServer

text \<open>The flags; gflags stores the integers as \<open>int32\<close>.\<close>

record flags =
  FLAGS_http_port :: i32
  FLAGS_spdy_port :: i32
  FLAGS_h2_port :: i32
  FLAGS_ip :: string
  FLAGS_threads :: i32

definition default_flags :: flags where
  "default_flags = \<lparr>FLAGS_http_port = 11000, FLAGS_spdy_port = 11001, FLAGS_h2_port = 11002,
     FLAGS_ip = ''localhost'', FLAGS_threads = 0\<rparr>"

text \<open>\<open>folly::SocketAddress(host, port, true)\<close>: the port is a \<open>uint16\<close>.\<close>

record SocketAddress =
  sa_host :: string
  sa_port :: "16 word"

definition SocketAddress :: "string \<Rightarrow> i32 \<Rightarrow> SocketAddress" where
  "SocketAddress host port = \<lparr>sa_host = host, sa_port = ucast port\<rparr>"

record HTTPServerOptions =
  opt_threads :: u64
  opt_idleTimeout :: "nat option"
  opt_shutdownOn :: "signal list"
  opt_enableContentCompression :: "bool option"
  opt_handlerFactories :: "handler_factory list"
  opt_initialReceiveWindow :: u32
  opt_receiveStreamWindowSize :: u32
  opt_receiveSessionWindowSize :: u32
  opt_h2cEnabled :: "bool option"

type_synonym started = "(SocketAddress \<times> Protocol) list \<times> HTTPServerOptions"

text \<open>
  \<open>sysconf\<close> returns a \<open>long\<close>, stored in the \<open>int32\<close> flag; \<open>CHECK\<close> aborts unless it is positive.
\<close>

definition resolve_threads :: "i64 \<Rightarrow> i32 \<Rightarrow> i32 res" where
  "resolve_threads sysconf threads =
     (if sint threads \<le> 0
      then let threads = ucast sysconf :: i32
           in if 0 < sint threads then Inr threads else Inl CheckFailed
      else Inr threads)"

text \<open>\<open>uint32_t(1 << 20)\<close> and \<open>10 * (1 << 20)\<close>.\<close>

definition window_1M :: u32 where
  "window_1M = push_bit 20 1"

definition window_10M :: u32 where
  "window_10M = 10 * push_bit 20 1"

section \<open>The programs\<close>

definition httpser :: "i64 \<Rightarrow> flags \<Rightarrow> started res" where
  "httpser sysconf fl =
     (let IPs = [(SocketAddress (FLAGS_ip fl) (FLAGS_http_port fl), HTTP)]
      in res_bind (resolve_threads sysconf (FLAGS_threads fl)) (\<lambda>threads.
           Inr (IPs, \<lparr>opt_threads = scast threads, opt_idleTimeout = None,
             opt_shutdownOn = [SIGINT, SIGTERM], opt_enableContentCompression = None,
             opt_handlerFactories = [Feature], opt_initialReceiveWindow = window_1M,
             opt_receiveStreamWindowSize = window_1M, opt_receiveSessionWindowSize = window_10M,
             opt_h2cEnabled = None\<rparr>)))"

text \<open>\<open>main\<close> of the feature server: what is printed, and the start.\<close>

definition feature_server_main :: "i64 \<Rightarrow> flags \<Rightarrow> string list \<times> started res" where
  "feature_server_main sysconf fl = ([''hello leon''], httpser sysconf fl)"

definition httpserver_main :: "i64 \<Rightarrow> flags \<Rightarrow> started res" where
  "httpserver_main sysconf fl =
     (let IPs = [(SocketAddress (FLAGS_ip fl) (FLAGS_http_port fl), HTTP)]
      in res_bind (resolve_threads sysconf (FLAGS_threads fl)) (\<lambda>threads.
           Inr (IPs, \<lparr>opt_threads = scast threads, opt_idleTimeout = None,
             opt_shutdownOn = [SIGINT, SIGTERM], opt_enableContentCompression = None,
             opt_handlerFactories = [HService], opt_initialReceiveWindow = window_1M,
             opt_receiveStreamWindowSize = window_1M, opt_receiveSessionWindowSize = window_10M,
             opt_h2cEnabled = None\<rparr>)))"

definition test_main :: "i64 \<Rightarrow> flags \<Rightarrow> started res" where
  "test_main sysconf fl =
     (let IPs = [(SocketAddress (FLAGS_ip fl) (FLAGS_http_port fl), HTTP)]
      in res_bind (resolve_threads sysconf (FLAGS_threads fl)) (\<lambda>threads.
           Inr (IPs, \<lparr>opt_threads = scast threads, opt_idleTimeout = None,
             opt_shutdownOn = [SIGINT, SIGTERM], opt_enableContentCompression = None,
             opt_handlerFactories = [TestServer], opt_initialReceiveWindow = window_1M,
             opt_receiveStreamWindowSize = window_1M, opt_receiveSessionWindowSize = window_10M,
             opt_h2cEnabled = None\<rparr>)))"

definition echo_main :: "i64 \<Rightarrow> flags \<Rightarrow> started res" where
  "echo_main sysconf fl =
     (let IPs = [(SocketAddress (FLAGS_ip fl) (FLAGS_http_port fl), HTTP),
                 (SocketAddress (FLAGS_ip fl) (FLAGS_spdy_port fl), SPDY),
                 (SocketAddress (FLAGS_ip fl) (FLAGS_h2_port fl), HTTP2)]
      in res_bind (resolve_threads sysconf (FLAGS_threads fl)) (\<lambda>threads.
           Inr (IPs, \<lparr>opt_threads = scast threads, opt_idleTimeout = Some 60000,
             opt_shutdownOn = [SIGINT, SIGTERM], opt_enableContentCompression = Some False,
             opt_handlerFactories = [EchoServer], opt_initialReceiveWindow = window_1M,
             opt_receiveStreamWindowSize = window_1M, opt_receiveSessionWindowSize = window_10M,
             opt_h2cEnabled = Some True\<rparr>)))"

section \<open>Properties\<close>

lemma unat_scast_pos:
  assumes "0 < sint (t :: i32)"
  shows "int (unat (scast t :: u64)) = sint t"
proof -
  have "sint t < 2 ^ 31" using sint_less [of t] by simp
  then have "uint (word_of_int (sint t) :: u64) = sint t"
    using assms by (simp only: uint_word_of_int) simp
  then show ?thesis by (simp only: of_int_sint uint_nat [symmetric] flip: uint_nat)
qed

text \<open>A positive thread count and the windows, given that a start went through.\<close>

definition sane :: "i64 \<Rightarrow> flags \<Rightarrow> started \<Rightarrow> bool" where
  "sane sysconf fl st =
     (let n = int (unat (opt_threads (snd st)))
      in 0 < n \<and> n < 2 ^ 31
         \<and> n = (if 0 < sint (FLAGS_threads fl) then sint (FLAGS_threads fl) else sint (ucast sysconf :: i32))
         \<and> unat (opt_initialReceiveWindow (snd st)) = 1048576
         \<and> unat (opt_receiveStreamWindowSize (snd st)) = 1048576
         \<and> unat (opt_receiveSessionWindowSize (snd st)) = 10485760
         \<and> list_all (\<lambda>(a, _). sa_host a = FLAGS_ip fl) (fst st))"

lemma resolve_threads_cases:
  "resolve_threads sysconf t = Inr n \<Longrightarrow>
     0 < sint n \<and> sint n < 2 ^ 31 \<and> sint n = (if 0 < sint t then sint t else sint (ucast sysconf :: i32))"
  "resolve_threads sysconf t = Inl e \<longleftrightarrow>
     e = CheckFailed \<and> sint t \<le> 0 \<and> sint (ucast sysconf :: i32) \<le> 0"
  using sint_less [of n] by (auto simp: resolve_threads_def Let_def split: if_splits)

text \<open>
  Each of the four servers either stops at its CHECK, exactly when neither the flag nor the
  processor count cut to 32 bits is positive, or starts with that positive thread count, not
  changed by the conversion to size_t, with flow control windows of 1 MiB and 10 MiB, and every
  address on the host of the flag.
\<close>

theorem servers_start_sanely:
  "list_all (\<lambda>start. case start sysconf fl of
       Inl e \<Rightarrow> e = CheckFailed \<and> sint (FLAGS_threads fl) \<le> 0 \<and> sint (ucast sysconf :: i32) \<le> 0
     | Inr st \<Rightarrow> sane sysconf fl st)
   [httpser, httpserver_main, test_main, echo_main]"
proof (cases "resolve_threads sysconf (FLAGS_threads fl)")
  case (Inl e)
  with resolve_threads_cases(2) [of sysconf "FLAGS_threads fl" e] show ?thesis
    by (simp add: httpser_def httpserver_main_def test_main_def echo_main_def Let_def)
next
  case (Inr n)
  from resolve_threads_cases(1) [OF Inr] have n: "int (unat (scast n :: u64)) = sint n"
    "0 < sint n" "sint n < 2 ^ 31"
    "sint n = (if 0 < sint (FLAGS_threads fl) then sint (FLAGS_threads fl) else sint (ucast sysconf :: i32))"
    using unat_scast_pos by blast+
  have "unat window_1M = 1048576" "unat window_10M = 10485760"
    by (simp_all add: window_1M_def window_10M_def)
  with n show ?thesis
    by (simp add: Inr httpser_def httpserver_main_def test_main_def echo_main_def sane_def
        SocketAddress_def Let_def)
qed

end
