(* ===== verification/HttpHeaders.thy ===== *)
theory HttpHeaders
  imports Prelude
begin

text \<open>
  Request headers on the client side: the parser of \<open>N=V,N=V\<close> lists, which the three clients of the
  repository share word for word (feature-server/back-code/client/HttpClient.cpp,
  feature-server/back-code/curl/CurlClient.cpp, test-debug/curl/CurlClient.cpp), and the defaults
  every client adds to a request. \<open>folly::split\<close> and the header table of proxygen are parameters.
\<close>

type_synonym HTTPHeaders = "(string \<times> string) list"

section \<open>parseHeaders\<close>

text \<open>The inner loop, over the pieces of one pair from index 1.\<close>

fun join_value :: "string list \<Rightarrow> string \<Rightarrow> string" where
  "join_value [] value = value"
| "join_value (p # ps) value = join_value ps (value @ (p @ ''=''))"

definition parse_pair ::
  "(char \<Rightarrow> string \<Rightarrow> string list) \<Rightarrow> string \<Rightarrow> HTTPHeaders \<Rightarrow> HTTPHeaders" where
  "parse_pair split headerPair headers =
     (let nv = split CHR ''='' headerPair
      in if length nv > 0 then
           if nv ! 0 = [] then headers
           else
             let value = join_value (drop 1 nv) '''';
                 value = (if length nv > 1 then butlast value else value)
             in headers @ [(nv ! 0, value)]
         else headers)"

definition parseHeaders :: "(char \<Rightarrow> string \<Rightarrow> string list) \<Rightarrow> string \<Rightarrow> HTTPHeaders" where
  "parseHeaders split headersString =
     foldl (\<lambda>headers p. parse_pair split p headers) [] (split CHR '','' headersString)"

section \<open>The contract of split\<close>

text \<open>
  The pieces between the delimiters: the input itself when there is none, otherwise what stands
  before the first delimiter and the pieces of the rest.
\<close>

locale splitter =
  fixes split :: "char \<Rightarrow> string \<Rightarrow> string list"
  assumes no_delim: "d \<notin> set s \<Longrightarrow> split d s = [s]"
    and at_delim: "d \<notin> set a \<Longrightarrow> split d (a @ d # b) = a # split d b"
begin

text \<open>What one pair denotes: the text before the first equals sign names the rest.\<close>

lemma split_ne: "split d s \<noteq> []"
proof (cases "d \<in> set s")
  case True
  then obtain a b where "s = a @ d # b" "d \<notin> set a" by (meson split_list_first)
  then show ?thesis by (simp add: at_delim)
qed (simp add: no_delim)

lemma join_append: "join_value ps v = v @ concat (map (\<lambda>p. p @ ''='') ps)"
  by (induction ps arbitrary: v) auto

text \<open>Joining the pieces again with a trailing delimiter gives the input back.\<close>

lemma join_split: "concat (map (\<lambda>p. p @ [d]) (split d s)) = s @ [d]"
proof (induction s rule: length_induct)
  case (1 s)
  show ?case
  proof (cases "d \<in> set s")
    case True
    then obtain a b where s: "s = a @ d # b" "d \<notin> set a" by (meson split_list_first)
    then have "concat (map (\<lambda>p. p @ [d]) (split d b)) = b @ [d]" using 1 by simp
    with s show ?thesis by (simp add: at_delim)
  qed (simp add: no_delim)
qed

end

definition pair_of :: "string \<Rightarrow> HTTPHeaders" where
  "pair_of p =
     (let n = takeWhile (\<lambda>c. c \<noteq> CHR ''='') p
      in if n = [] then [] else [(n, drop (Suc (length n)) p)])"

lemma takeWhile_absent: "d \<notin> set n \<Longrightarrow> takeWhile (\<lambda>c. c \<noteq> d) n = n"
  by (auto simp: takeWhile_eq_all_conv)

lemma pair_of_plain: "CHR ''='' \<notin> set n \<Longrightarrow> pair_of n = (if n = [] then [] else [(n, [])])"
  by (simp add: pair_of_def takeWhile_absent)

lemma pair_of_value:
  "CHR ''='' \<notin> set n \<Longrightarrow> pair_of (n @ CHR ''='' # v) = (if n = [] then [] else [(n, v)])"
  by (simp add: pair_of_def takeWhile_tail takeWhile_absent)

context splitter
begin

lemma parse_pair_eq: "parse_pair split p hs = hs @ pair_of p"
proof (cases "CHR ''='' \<in> set p")
  case True
  then obtain n v where p: "p = n @ CHR ''='' # v" "CHR ''='' \<notin> set n"
    by (meson split_list_first)
  have "join_value (split CHR ''='' v) '''' = v @ ''=''"
    using join_split [of "CHR ''=''" v] by (simp add: join_append)
  with p show ?thesis
    by (simp add: parse_pair_def at_delim pair_of_value split_ne)
qed (simp add: parse_pair_def no_delim pair_of_plain)

lemma parseHeaders_eq: "parseHeaders split s = concat (map pair_of (split CHR '','' s))"
proof -
  have "foldl (\<lambda>hs p. parse_pair split p hs) hs ps = hs @ concat (map pair_of ps)" for hs ps
    by (induction ps arbitrary: hs) (simp_all add: parse_pair_eq)
  then show ?thesis by (simp add: parseHeaders_def)
qed

lemma split_list_pieces:
  "list_all (\<lambda>p. d \<notin> set p) (split d s)"
proof (induction s rule: length_induct)
  case (1 s)
  show ?case
  proof (cases "d \<in> set s")
    case True
    then obtain a b where s: "s = a @ d # b" "d \<notin> set a" by (meson split_list_first)
    with 1 show ?thesis by (simp add: at_delim)
  qed (simp add: no_delim)
qed

end

section \<open>Rendering a header list\<close>

fun render_headers :: "HTTPHeaders \<Rightarrow> string" where
  "render_headers [] = ''''"
| "render_headers [(n, v)] = n @ ''='' @ v"
| "render_headers ((n, v) # hs) = n @ ''='' @ v @ '','' @ render_headers hs"

definition plain_header :: "string \<times> string \<Rightarrow> bool" where
  "plain_header h =
     (fst h \<noteq> [] \<and> CHR ''='' \<notin> set (fst h) \<and> CHR '','' \<notin> set (fst h) \<and> CHR '','' \<notin> set (snd h))"

context splitter
begin

lemma parse_render:
  "list_all plain_header hs \<Longrightarrow> parseHeaders split (render_headers hs) = hs"
proof (induction hs rule: render_headers.induct)
  case 1
  then show ?case by (simp add: parseHeaders_eq no_delim pair_of_def)
next
  case (2 n v)
  then show ?case by (simp add: parseHeaders_eq no_delim plain_header_def pair_of_value)
next
  case (3 n v h hs)
  then have "CHR '','' \<notin> set (n @ CHR ''='' # v)" by (simp add: plain_header_def)
  from at_delim [OF this] 3 show ?case
    by (simp add: parseHeaders_eq plain_header_def pair_of_value)
qed

end

section \<open>A reference splitter\<close>

fun split_on :: "char \<Rightarrow> string \<Rightarrow> string list" where
  "split_on d [] = [[]]"
| "split_on d (c # s) =
     (if c = d then [] # split_on d s
      else case split_on d s of [] \<Rightarrow> [[c]] | p # ps \<Rightarrow> (c # p) # ps)"

interpretation ref_splitter: splitter split_on
proof
  fix d :: char and s a b :: string
  show "d \<notin> set s \<Longrightarrow> split_on d s = [s]" by (induction s) auto
  show "d \<notin> set a \<Longrightarrow> split_on d (a @ d # b) = a # split_on d b" by (induction a) auto
qed

section \<open>Properties\<close>

text \<open>
  C21. Header parsing: whatever the input, the clients read the same headers as a parser that cuts
  the list at its commas and each piece at its first equals sign. A piece with an empty name gives
  no header, one without an equals sign an empty value, and further equals signs belong to the
  value.
\<close>

theorem parseHeaders_reads_pairs:
  assumes "splitter split"
  shows "parseHeaders split s = concat (map pair_of (split CHR '','' s))
    \<and> list_all (\<lambda>(n, v). n \<noteq> [] \<and> CHR ''='' \<notin> set n \<and> CHR '','' \<notin> set n \<and> CHR '','' \<notin> set v)
      (parseHeaders split s)"
  using splitter.split_list_pieces [OF assms, of "CHR '',''" s]
  by (auto simp: splitter.parseHeaders_eq [OF assms] list_all_iff pair_of_def Let_def
      dest: set_takeWhileD in_set_dropD split: if_splits)

theorem parseHeaders_reads_pairs_witness:
  "parseHeaders split_on ''a=b=c,d,=e'' = [(''a'', ''b=c''), (''d'', [])]"
  using parseHeaders_reads_pairs [OF ref_splitter.splitter_axioms, of "''a=b=c,d,=e''"]
  by (simp add: pair_of_def)

text \<open>
  Header lists survive printing and parsing: every list whose names are not empty and free of
  commas and equals signs, and whose values are free of commas, is read back as it was, in order,
  duplicates and values with equals signs included.
\<close>

theorem headers_roundtrip:
  assumes "splitter split" and "list_all plain_header hs"
  shows "parseHeaders split (render_headers hs) = hs"
  by (rule splitter.parse_render [OF assms])

theorem headers_roundtrip_witness:
  "parseHeaders split_on (render_headers [(''k'', ''a=b''), (''k'', [])]) = [(''k'', ''a=b''), (''k'', [])]"
  by (rule headers_roundtrip [OF ref_splitter.splitter_axioms]) (simp add: plain_header_def)

end
