(* ===== verification/Upstream.thy ===== *)
theory Upstream
  imports HttpHeaders Http
begin

text \<open>
  What the client programs share: the parts of proxygen they call as parameters (URLs, the table of
  common header names, method names), the request they assemble, the headers every client adds by
  default, and the calls they make on a transaction.
\<close>

section \<open>The library\<close>

record 'url url_api =
  url_parse :: "string \<Rightarrow> 'url"
  getUrl :: "'url \<Rightarrow> string"
  makeRelativeURL :: "'url \<Rightarrow> string"
  getHostAndPort :: "'url \<Rightarrow> string"
  getHost :: "'url \<Rightarrow> string"
  getPort :: "'url \<Rightarrow> 16 word"
  isSecure :: "'url \<Rightarrow> bool"

datatype common_header = HTTP_HEADER_USER_AGENT | HTTP_HEADER_HOST | HTTP_HEADER_ACCEPT

text \<open>The methods the code names, and the others.\<close>

datatype HTTPMethod = GET | POST | PUT | OtherMethod string

record HTTPRequest =
  rq_method :: "HTTPMethod option"
  rq_version :: "16 word \<times> 16 word"
  rq_url :: string
  rq_headers :: HTTPHeaders
  rq_secure :: bool
  rq_partiallyReliable :: bool

definition HTTPRequest :: HTTPRequest where
  "HTTPRequest = \<lparr>rq_method = None, rq_version = (1, 0), rq_url = [], rq_headers = [], rq_secure = False,
     rq_partiallyReliable = False\<rparr>"

text \<open>A response of the server, as the client keeps it.\<close>

record HTTPResponse =
  rsp_status :: nat
  rsp_headers :: HTTPHeaders

record 'url net_api =
  url_ops :: "'url url_api"
  is_common :: "common_header \<Rightarrow> string \<Rightarrow> bool"
  common_name :: "common_header \<Rightarrow> string"
  stringToMethod :: "string \<Rightarrow> HTTPMethod option"
  requestUpgrade :: "HTTPRequest \<Rightarrow> HTTPRequest"
  folly_split :: "char \<Rightarrow> string \<Rightarrow> string list"
  connect_what :: string

text \<open>The calls a client makes on its session and its transaction, in order.\<close>

datatype txn_call =
    SetFlowControl i32 i32 i32
  | NewTransaction
  | SendHeaders HTTPRequest
  | SendBody bytes
  | SendEOM
  | CloseWhenIdle
  | SetHandler nat

text \<open>
  The socket under a session, as a cast to \<open>AsyncSSLSocket\<close> sees it: one without TLS, or one with the
  protocol the handshake selected, if any.
\<close>

datatype transport = PlainSocket | SSLSocket "string option"

text \<open>The lines the clients log, with their severity.\<close>

datatype log_line = LOG_INFO string | LOG_ERROR string | VLOG nat string

text \<open>What \<open>initializeSsl\<close> of the two curl clients sets on its TLS context.\<close>

record ssl_context =
  ssl_trusted :: "string option"
  ssl_cert_key :: "(string \<times> string) option"
  ssl_protocols :: "string list"

section \<open>Callbacks of the curl clients\<close>

text \<open>
  What the connector, the transaction and the pushed transactions call on a client of back-code/curl or
  test-debug/curl, one after another.
\<close>

datatype push_callback =
    PushSetTransaction nat
  | PushDetach
  | PushHeadersComplete HTTPResponse
  | PushBody "IOBuf option"
  | PushEndOfMessage
  | PushError string
  | PushOther

datatype client_callback =
    ConnectSuccess transport
  | ConnectError string
  | SetTransaction nat
  | Detach
  | HeadersComplete HTTPResponse
  | BodyPart "IOBuf option"
  | Trailers
  | EndOfMessage
  | Upgrade
  | TxnError string
  | EgressPaused
  | EgressResumed
  | PushedTransaction nat
  | Pushed nat push_callback

text \<open>What a run of callbacks leaves: the last headers, and the parts of the body in order.\<close>

fun last_response :: "client_callback list \<Rightarrow> HTTPResponse option \<Rightarrow> HTTPResponse option" where
  "last_response [] r = r"
| "last_response (HeadersComplete msg # es) r = last_response es (Some msg)"
| "last_response (_ # es) r = last_response es r"

fun body_of :: "client_callback list \<Rightarrow> bytes" where
  "body_of [] = []"
| "body_of (BodyPart (Some b) # es) = iobuf_bytes b @ body_of es"
| "body_of (Pushed i (PushBody (Some b)) # es) = iobuf_bytes b @ body_of es"
| "body_of (_ # es) = body_of es"

lemma last_response_Cons: "last_response (e # es) r = last_response es (last_response [e] r)"
  by (cases e) simp_all

lemma body_of_Cons: "body_of (e # es) = body_of [e] @ body_of es"
proof (cases e)
  case (BodyPart b)
  then show ?thesis by (cases b) simp_all
next
  case (Pushed i p)
  then show ?thesis
  proof (cases p)
    case (PushBody b)
    with Pushed show ?thesis by (cases b) simp_all
  qed simp_all
qed simp_all

section \<open>Default headers\<close>

text \<open>\<open>getNumberOfValues(code) != 0\<close>.\<close>

definition has_header :: "'url net_api \<Rightarrow> common_header \<Rightarrow> HTTPHeaders \<Rightarrow> bool" where
  "has_header api c hs = list_ex (\<lambda>h. is_common api c (fst h)) hs"

definition default_headers :: "'url net_api \<Rightarrow> 'url \<Rightarrow> HTTPHeaders \<Rightarrow> HTTPHeaders" where
  "default_headers api url hs =
     (let hs = (if \<not> has_header api HTTP_HEADER_USER_AGENT hs
                then hs @ [(common_name api HTTP_HEADER_USER_AGENT, ''proxygen_curl'')] else hs);
          hs = (if \<not> has_header api HTTP_HEADER_HOST hs
                then hs @ [(common_name api HTTP_HEADER_HOST, getHostAndPort (url_ops api) url)] else hs)
      in if \<not> has_header api HTTP_HEADER_ACCEPT hs then hs @ [(''Accept'', ''*/*'')] else hs)"

text \<open>The name table: every code has a name, no name has two codes, \<open>Accept\<close> is its literal.\<close>

locale header_table =
  fixes api :: "'url net_api"
  assumes named: "is_common api c (common_name api c)"
    and one_code: "is_common api c n \<Longrightarrow> is_common api c' n \<Longrightarrow> c = c'"
    and accept_name: "is_common api HTTP_HEADER_ACCEPT ''Accept''"
begin

lemma has_header_simps [simp]:
  "\<not> has_header api c []"
  "has_header api c (hs @ hs') \<longleftrightarrow> has_header api c hs \<or> has_header api c hs'"
  "has_header api c (h # hs) \<longleftrightarrow> is_common api c (fst h) \<or> has_header api c hs"
  by (simp_all add: has_header_def)

lemma common_iff [simp]: "is_common api c (common_name api c') \<longleftrightarrow> c = c'"
  using named one_code by blast

lemma accept_iff [simp]: "is_common api c ''Accept'' \<longleftrightarrow> c = HTTP_HEADER_ACCEPT"
  using accept_name one_code by blast

lemma default_headers_has: "has_header api c (default_headers api url hs)"
  by (cases c) (simp_all add: default_headers_def Let_def)

lemma default_headers_full:
  assumes "\<And>c. has_header api c hs"
  shows "default_headers api url hs = hs"
  using assms by (simp add: default_headers_def)

lemma default_headers_twice:
  "default_headers api url' (default_headers api url hs) = default_headers api url hs"
  by (simp add: default_headers_full default_headers_has)

lemma default_headers_adds:
  "\<exists>new. default_headers api url hs = hs @ new
     \<and> distinct (map fst new)
     \<and> (\<forall>c. has_header api c new \<longleftrightarrow> \<not> has_header api c hs)
     \<and> (\<forall>v. (common_name api HTTP_HEADER_HOST, v) \<in> set new \<longrightarrow> v = getHostAndPort (url_ops api) url)"
proof -
  have ne: "common_name api HTTP_HEADER_USER_AGENT \<noteq> ''Accept''" "common_name api HTTP_HEADER_HOST \<noteq> ''Accept''"
    "common_name api HTTP_HEADER_USER_AGENT \<noteq> common_name api HTTP_HEADER_HOST"
    using common_iff accept_iff by (metis common_header.distinct)+
  let ?u = "if has_header api HTTP_HEADER_USER_AGENT hs then []
            else [(common_name api HTTP_HEADER_USER_AGENT, ''proxygen_curl'')]"
  let ?h = "if has_header api HTTP_HEADER_HOST hs then []
            else [(common_name api HTTP_HEADER_HOST, getHostAndPort (url_ops api) url)]"
  let ?a = "if has_header api HTTP_HEADER_ACCEPT hs then [] else [(''Accept'', ''*/*'')]"
  have "default_headers api url hs = hs @ (?u @ ?h @ ?a)"
    by (simp add: default_headers_def Let_def)
  moreover have "has_header api c (?u @ ?h @ ?a) \<longleftrightarrow> \<not> has_header api c hs" for c
    by (cases c) auto
  moreover have "distinct (map fst (?u @ ?h @ ?a))"
    using ne by auto
  ultimately show ?thesis
    using ne by (intro exI [of _ "?u @ ?h @ ?a"]) (auto split: if_splits)
qed

end

section \<open>A reference instance\<close>

text \<open>Names compared without case; a URL of the instance is its host, port and path.\<close>

definition lower :: "string \<Rightarrow> string" where
  "lower s = map (\<lambda>c. if 65 \<le> (of_char c :: nat) \<and> of_char c \<le> (90 :: nat) then char_of (of_char c + (32 :: nat)) else c) s"

fun ref_name :: "common_header \<Rightarrow> string" where
  "ref_name HTTP_HEADER_USER_AGENT = ''User-Agent''"
| "ref_name HTTP_HEADER_HOST = ''Host''"
| "ref_name HTTP_HEADER_ACCEPT = ''Accept''"

definition ref_url :: "(string \<times> string) url_api" where
  "ref_url = \<lparr>url_parse = (\<lambda>s. (takeWhile (\<lambda>c. c \<noteq> CHR ''/'') s, dropWhile (\<lambda>c. c \<noteq> CHR ''/'') s)),
     getUrl = (\<lambda>(h, p). h @ p), makeRelativeURL = snd, getHostAndPort = (\<lambda>(h, p). h @ '':80''),
     getHost = fst, getPort = (\<lambda>_. 80), isSecure = (\<lambda>_. False)\<rparr>"

definition ref_net :: "(string \<times> string) net_api" where
  "ref_net = \<lparr>url_ops = ref_url, is_common = (\<lambda>c n. lower n = lower (ref_name c)), common_name = ref_name,
     stringToMethod = (\<lambda>s. if s = ''GET'' then Some GET else if s = ''POST'' then Some POST
       else if s = ''PUT'' then Some PUT else None),
     requestUpgrade = id, folly_split = split_on, connect_what = ''timed out''\<rparr>"

interpretation ref_header_table: header_table ref_net
proof
  fix c c' :: common_header and n :: string
  show "is_common ref_net c (common_name ref_net c)"
    by (simp add: ref_net_def)
  assume "is_common ref_net c n" "is_common ref_net c' n"
  then have eq: "lower (ref_name c) = lower (ref_name c')"
    by (simp add: ref_net_def)
  have "length (ref_name c) = length (ref_name c')"
    using arg_cong [OF eq, of length] by (simp add: lower_def)
  then show "c = c'" by (cases c; cases c') simp_all
next
  show "is_common ref_net HTTP_HEADER_ACCEPT ''Accept''"
    by (simp add: ref_net_def)
qed

end
