(* ===== verification/CurlTool.thy ===== *)
theory CurlTool
  imports Upstream
begin

text \<open>
  The command-line client of test-debug/curl (CurlClient.h, CurlClient.cpp, CurlClientMain.cpp): its
  state, the upload of a file in chunks under back pressure, the choice of an output file, the
  callbacks of the response, the handlers of pushed transactions, and the start of the program.
\<close>

section \<open>State\<close>

text \<open>
  The world of the client: the files, which names can be created, what was printed and logged, the calls
  made on the transaction, and for each coming \<open>sendBody\<close> whether the transaction answers it by calling
  \<open>onEgressPaused\<close>.
\<close>

record tool_world =
  files :: "string \<rightharpoonup> bytes"
  writable :: "string \<Rightarrow> bool"
  printed :: bytes
  calls :: "txn_call list"
  pauses :: "bool list"
  logged :: "log_line list"

record ifstream =
  if_rest :: bytes
  if_good :: bool

datatype out_target = Stdout | OutFile string

record CurlPushHandler =
  seenOnHeadersComplete :: bool
  pushedTxn :: "nat option"
  promise :: "HTTPResponse option"
  push_response :: "HTTPResponse option"

record 'url CurlTool =
  ct_httpMethod :: HTTPMethod
  ct_url :: 'url
  ct_proxy :: "'url option"
  ct_request :: HTTPRequest
  ct_inputFilename :: string
  ct_recvWindow :: i32
  ct_loggingEnabled :: bool
  ct_h2c :: bool
  ct_httpMajor :: "16 word"
  ct_httpMinor :: "16 word"
  ct_egressPaused :: bool
  ct_inputFile :: "ifstream option"
  ct_outputStream :: "out_target option"
  ct_partiallyReliable :: bool
  ct_response :: "HTTPResponse option"
  ct_pushTxnHandlers :: "CurlPushHandler list"
  ct_eomFunc :: "(tool_world \<Rightarrow> tool_world) option"

definition CurlTool_ctor ::
  "'url net_api \<Rightarrow> HTTPMethod \<Rightarrow> 'url \<Rightarrow> 'url option \<Rightarrow> HTTPHeaders \<Rightarrow> string \<Rightarrow> bool \<Rightarrow> 16 word
   \<Rightarrow> 16 word \<Rightarrow> bool \<Rightarrow> 'url CurlTool" where
  "CurlTool_ctor api httpMethod url proxy headers inputFilename h2c httpMajor httpMinor pr =
     \<lparr>ct_httpMethod = httpMethod, ct_url = url,
      ct_proxy = map_option (\<lambda>p. url_parse (url_ops api) (getUrl (url_ops api) p)) proxy,
      ct_request = HTTPRequest\<lparr>rq_headers := foldl (\<lambda>hs (header, val). hs @ [(header, val)]) [] headers\<rparr>,
      ct_inputFilename = inputFilename, ct_recvWindow = 0, ct_loggingEnabled = True, ct_h2c = h2c,
      ct_httpMajor = httpMajor, ct_httpMinor = httpMinor, ct_egressPaused = False,
      ct_inputFile = None, ct_outputStream = Some Stdout, ct_partiallyReliable = pr,
      ct_response = None, ct_pushTxnHandlers = [], ct_eomFunc = None\<rparr>"

definition CurlTool_setFlowControlSettings :: "i32 \<Rightarrow> 'url CurlTool \<Rightarrow> 'url CurlTool" where
  "CurlTool_setFlowControlSettings recvWindow c = c\<lparr>ct_recvWindow := recvWindow\<rparr>"

definition CurlTool_setLogging :: "bool \<Rightarrow> 'url CurlTool \<Rightarrow> 'url CurlTool" where
  "CurlTool_setLogging enabled c = c\<lparr>ct_loggingEnabled := enabled\<rparr>"

definition CurlTool_setEOMFunc :: "(tool_world \<Rightarrow> tool_world) \<Rightarrow> 'url CurlTool \<Rightarrow> 'url CurlTool" where
  "CurlTool_setEOMFunc eomFunc c = c\<lparr>ct_eomFunc := Some eomFunc\<rparr>"

definition CurlTool_parseHeaders :: "(char \<Rightarrow> string \<Rightarrow> string list) \<Rightarrow> string \<Rightarrow> HTTPHeaders" where
  "CurlTool_parseHeaders split headersString =
     foldl (\<lambda>headers headerPair. parse_pair split headerPair headers) [] (split CHR '','' headersString)"

lemma CurlTool_parseHeaders_eq: "CurlTool_parseHeaders = parseHeaders"
  by (simp add: fun_eq_iff CurlTool_parseHeaders_def parseHeaders_def)

definition CurlTool_getResponse :: "'url CurlTool \<Rightarrow> HTTPResponse option" where
  "CurlTool_getResponse c = ct_response c"

text \<open>\<open>LOG\<close>, \<open>VLOG\<close> and \<open>LOG_IF\<close>.\<close>

definition tool_log :: "log_line \<Rightarrow> tool_world \<Rightarrow> tool_world" where
  "tool_log l w = w\<lparr>logged := logged w @ [l]\<rparr>"

definition tool_log_if :: "bool \<Rightarrow> log_line \<Rightarrow> tool_world \<Rightarrow> tool_world" where
  "tool_log_if b l w = (if b then tool_log l w else w)"

section \<open>Streams\<close>

text \<open>\<open>ifstream\<close>: good after a successful open, until a read finds less than it asked for.\<close>

definition ifstream_open :: "string \<Rightarrow> tool_world \<Rightarrow> ifstream" where
  "ifstream_open name w =
     (case files w name of None \<Rightarrow> \<lparr>if_rest = [], if_good = False\<rparr>
      | Some d \<Rightarrow> \<lparr>if_rest = d, if_good = True\<rparr>)"

definition ifstream_read :: "nat \<Rightarrow> ifstream \<Rightarrow> bytes \<times> ifstream" where
  "ifstream_read n f =
     (take n (if_rest f), \<lparr>if_rest = drop n (if_rest f), if_good = (if_good f \<and> n \<le> length (if_rest f))\<rparr>)"

text \<open>\<open>ofstream(name, out | binary)\<close>: creates the file, or truncates it, or is not good.\<close>

definition ofstream_open :: "string \<Rightarrow> tool_world \<Rightarrow> bool \<times> tool_world" where
  "ofstream_open name w =
     (if writable w name then (True, w\<lparr>files := (files w)(name \<mapsto> [])\<rparr>) else (False, w))"

definition write_out :: "out_target \<Rightarrow> bytes \<Rightarrow> tool_world \<Rightarrow> tool_world" where
  "write_out t b w =
     (case t of
        Stdout \<Rightarrow> w\<lparr>printed := printed w @ b\<rparr>
      | OutFile f \<Rightarrow> w\<lparr>files := (files w)(f \<mapsto> (case files w f of None \<Rightarrow> [] | Some d \<Rightarrow> d) @ b)\<rparr>)"

section \<open>The output file\<close>

definition candidate :: "string \<Rightarrow> 16 word \<Rightarrow> string" where
  "candidate out tries = out @ (if tries = 0 then [] else ''_'' @ dec_string (unat tries))"

function save_loop :: "16 word \<Rightarrow> string \<Rightarrow> tool_world \<Rightarrow> string option \<times> tool_world" where
  "save_loop tries out w =
     (if tries < 65535 then
        if files w (candidate out tries) = None then
          let (good, w') = ofstream_open (candidate out tries) w
          in if good then (Some (candidate out tries), w') else save_loop (tries + 1) out w'
        else save_loop (tries + 1) out w
      else (None, w))"
  by pat_completeness auto
termination
proof (relation "measure (\<lambda>(t, out, w). 65535 - unat t)", simp_all)
  fix t :: "16 word" assume "t < 65535"
  then have "unat (t + 1) = unat t + 1" "unat t < 65535"
    by (simp_all add: word_less_nat_alt unat_word_ariths)
  then show "65535 - unat (t + 1) < 65535 - unat t" by simp
  then show "65535 - unat (t + 1) < 65535 - unat t" .
qed

definition CurlTool_saveResponseToFile ::
  "string \<Rightarrow> 'url CurlTool \<Rightarrow> tool_world \<Rightarrow> bool \<times> 'url CurlTool \<times> tool_world" where
  "CurlTool_saveResponseToFile out c w =
     (if out = [] then (False, c, w)
      else case save_loop 0 out w of
          (None, w) \<Rightarrow> (False, c, w)
        | (Some f, w) \<Rightarrow> (True, c\<lparr>ct_outputStream := Some (OutFile f)\<rparr>, w))"

section \<open>The request\<close>

definition CurlTool_setupHeaders :: "'url net_api \<Rightarrow> 'url CurlTool \<Rightarrow> 'url CurlTool" where
  "CurlTool_setupHeaders api c =
     (let u = url_ops api;
          rq = (ct_request c)\<lparr>rq_method := Some (ct_httpMethod c),
            rq_version := (ct_httpMajor c, ct_httpMinor c),
            rq_url := (if ct_proxy c \<noteq> None then getUrl u (ct_url c) else makeRelativeURL u (ct_url c)),
            rq_secure := isSecure u (ct_url c)\<rparr>;
          rq = (if ct_h2c c then requestUpgrade api rq else rq);
          rq = rq\<lparr>rq_headers := default_headers api (ct_url c) (rq_headers rq)\<rparr>;
          rq = (if ct_partiallyReliable c then rq\<lparr>rq_partiallyReliable := True\<rparr> else rq)
      in c\<lparr>ct_request := rq\<rparr>)"

text \<open>\<open>txn_->sendBody\<close>; the flag tells whether it called \<open>onEgressPaused\<close> meanwhile.\<close>

definition txn_sendBody :: "bytes \<Rightarrow> tool_world \<Rightarrow> bool \<times> tool_world" where
  "txn_sendBody b w =
     (let w' = w\<lparr>calls := calls w @ [SendBody b]\<rparr>
      in case pauses w of [] \<Rightarrow> (False, w') | p # ps \<Rightarrow> (p, w'\<lparr>pauses := ps\<rparr>))"

function send_loop :: "bool \<Rightarrow> ifstream \<Rightarrow> tool_world \<Rightarrow> bool \<times> ifstream \<times> tool_world" where
  "send_loop egressPaused f w =
     (if if_good f \<and> \<not> egressPaused then
        let (buf, f') = ifstream_read 4096 f;
            (paused, w') = txn_sendBody buf w
        in send_loop (egressPaused \<or> paused) f' w'
      else (egressPaused, f, w))"
  by pat_completeness auto
termination
  by (relation "measure (\<lambda>(p, f, w). length (if_rest f) + (if if_good f then 1 else 0))")
    (auto simp: ifstream_read_def)

declare send_loop.simps [simp del] save_loop.simps [simp del]

definition CurlTool_sendBodyFromFile ::
  "'url CurlTool \<Rightarrow> tool_world \<Rightarrow> ('url CurlTool \<times> tool_world) res" where
  "CurlTool_sendBodyFromFile c w =
     (case ct_inputFile c of
        None \<Rightarrow> Inl CheckFailed
      | Some f \<Rightarrow>
          let (paused, f, w) = send_loop (ct_egressPaused c) f w;
              c = c\<lparr>ct_egressPaused := paused, ct_inputFile := Some f\<rparr>
          in Inr (c, if \<not> paused then w\<lparr>calls := calls w @ [SendEOM]\<rparr> else w))"

definition CurlTool_sendRequest ::
  "'url net_api \<Rightarrow> 'url CurlTool \<Rightarrow> tool_world \<Rightarrow> ('url CurlTool \<times> tool_world) res" where
  "CurlTool_sendRequest api c w =
     (let c = CurlTool_setupHeaders api c;
          w = w\<lparr>calls := calls w @ [SendHeaders (ct_request c)]\<rparr>
      in if ct_httpMethod c = POST then
           CurlTool_sendBodyFromFile (c\<lparr>ct_inputFile := Some (ifstream_open (ct_inputFilename c) w)\<rparr>) w
         else Inr (c, w\<lparr>calls := calls w @ [SendEOM]\<rparr>))"

definition CurlTool_onEgressPaused :: "'url CurlTool \<Rightarrow> tool_world \<Rightarrow> 'url CurlTool \<times> tool_world" where
  "CurlTool_onEgressPaused c w =
     (c\<lparr>ct_egressPaused := True\<rparr>, tool_log_if (ct_loggingEnabled c) (LOG_INFO ''Egress paused'') w)"

definition CurlTool_onEgressResumed ::
  "'url CurlTool \<Rightarrow> tool_world \<Rightarrow> ('url CurlTool \<times> tool_world) res" where
  "CurlTool_onEgressResumed c w =
     (let w = tool_log_if (ct_loggingEnabled c) (LOG_INFO ''Egress resumed'') w;
          c = c\<lparr>ct_egressPaused := False\<rparr>
      in if ct_inputFile c \<noteq> None then CurlTool_sendBodyFromFile c w else Inr (c, w))"

section \<open>Callbacks of the response\<close>

text \<open>A session that is not a TLS one casts to the null pointer.\<close>

definition CurlTool_sslHandshakeFollowup :: "transport \<Rightarrow> tool_world \<Rightarrow> tool_world res" where
  "CurlTool_sslHandshakeFollowup t w =
     (case t of
        PlainSocket \<Rightarrow> Inl NullDeref
      | SSLSocket nextProto \<Rightarrow>
          (case nextProto of
             Some p \<Rightarrow> Inr (tool_log (VLOG 1 (''Client selected next protocol '' @ p)) w)
           | None \<Rightarrow> Inr (tool_log (VLOG 1 ''Client did not select a next protocol'') w)))"

definition CurlTool_connectSuccess ::
  "'url net_api \<Rightarrow> transport \<Rightarrow> 'url CurlTool \<Rightarrow> tool_world \<Rightarrow> ('url CurlTool \<times> tool_world) res" where
  "CurlTool_connectSuccess api tr c w =
     res_bind (if isSecure (url_ops api) (ct_url c) then CurlTool_sslHandshakeFollowup tr w else Inr w) (\<lambda>w.
     let n = ct_recvWindow c;
         w = w\<lparr>calls := calls w @ [SetFlowControl n n n, NewTransaction]\<rparr>
     in res_bind (CurlTool_sendRequest api c w) (\<lambda>(c, w).
          Inr (c, w\<lparr>calls := calls w @ [CloseWhenIdle]\<rparr>)))"

definition CurlTool_connectError ::
  "'url net_api \<Rightarrow> string \<Rightarrow> 'url CurlTool \<Rightarrow> tool_world \<Rightarrow> tool_world" where
  "CurlTool_connectError api ex c w =
     tool_log_if (ct_loggingEnabled c)
       (LOG_ERROR (''Coudln't connect to '' @ getHostAndPort (url_ops api) (ct_url c) @ '':'' @ ex)) w"

text \<open>Both have an empty body.\<close>

definition CurlTool_setTransaction :: "nat \<Rightarrow> 'url CurlTool \<Rightarrow> 'url CurlTool" where
  "CurlTool_setTransaction txn c = c"

definition CurlTool_detachTransaction :: "'url CurlTool \<Rightarrow> 'url CurlTool" where
  "CurlTool_detachTransaction c = c"

definition CurlTool_printMessageImpl :: "string \<Rightarrow> 'url CurlTool \<Rightarrow> tool_world \<Rightarrow> tool_world" where
  "CurlTool_printMessageImpl tag c w =
     (if \<not> ct_loggingEnabled c then w else w\<lparr>printed := printed w @ ascii tag\<rparr>)"

definition CurlTool_onHeadersComplete ::
  "HTTPResponse \<Rightarrow> 'url CurlTool \<Rightarrow> tool_world \<Rightarrow> 'url CurlTool \<times> tool_world" where
  "CurlTool_onHeadersComplete msg c w =
     (c\<lparr>ct_response := Some msg\<rparr>, CurlTool_printMessageImpl [] c w)"

text \<open>The loop over the buffers of a chain.\<close>

fun write_chain :: "out_target \<Rightarrow> bytes list \<Rightarrow> tool_world \<Rightarrow> tool_world" where
  "write_chain t [] w = w"
| "write_chain t (p # ps) w = write_chain t ps (write_out t p w)"

definition CurlTool_onBody ::
  "IOBuf option \<Rightarrow> 'url CurlTool \<Rightarrow> tool_world \<Rightarrow> tool_world res" where
  "CurlTool_onBody chain c w =
     (if \<not> ct_loggingEnabled c then Inr w
      else case ct_outputStream c of
          None \<Rightarrow> Inl CheckFailed
        | Some t \<Rightarrow> Inr (case chain of None \<Rightarrow> w | Some b \<Rightarrow> write_chain t (fst b # snd b) w))"

definition CurlTool_onEOM :: "'url CurlTool \<Rightarrow> tool_world \<Rightarrow> tool_world" where
  "CurlTool_onEOM c w =
     (let w = tool_log_if (ct_loggingEnabled c) (LOG_INFO ''Got EOM'') w
      in case ct_eomFunc c of None \<Rightarrow> w | Some f \<Rightarrow> f w)"

definition CurlTool_onTrailers :: "'url CurlTool \<Rightarrow> tool_world \<Rightarrow> tool_world" where
  "CurlTool_onTrailers c w = tool_log_if (ct_loggingEnabled c) (LOG_INFO ''Discarding trailers'') w"

definition CurlTool_onUpgrade :: "'url CurlTool \<Rightarrow> tool_world \<Rightarrow> tool_world" where
  "CurlTool_onUpgrade c w = tool_log_if (ct_loggingEnabled c) (LOG_INFO ''Discarding upgrade protocol'') w"

definition CurlTool_onError :: "string \<Rightarrow> 'url CurlTool \<Rightarrow> tool_world \<Rightarrow> tool_world" where
  "CurlTool_onError what c w =
     tool_log_if (ct_loggingEnabled c) (LOG_ERROR (''An error occurred: '' @ what)) w"

definition CurlTool_getServerName :: "'url net_api \<Rightarrow> 'url CurlTool \<Rightarrow> string" where
  "CurlTool_getServerName api c =
     (let vs = filter (\<lambda>h. is_common api HTTP_HEADER_HOST (fst h)) (rq_headers (ct_request c));
          res = (if length vs = 1 then snd (hd vs) else [])
      in if res = [] then getHost (url_ops api) (ct_url c) else res)"

section \<open>Pushed transactions\<close>

definition CurlPushHandler_ctor :: CurlPushHandler where
  "CurlPushHandler_ctor =
     \<lparr>seenOnHeadersComplete = False, pushedTxn = None, promise = None, push_response = None\<rparr>"

definition CurlTool_onPushedTransaction ::
  "'url CurlTool \<Rightarrow> tool_world \<Rightarrow> 'url CurlTool \<times> tool_world" where
  "CurlTool_onPushedTransaction c w =
     (let c = c\<lparr>ct_pushTxnHandlers := ct_pushTxnHandlers c @ [CurlPushHandler_ctor]\<rparr>
      in (c, w\<lparr>calls := calls w @ [SetHandler (length (ct_pushTxnHandlers c) - 1)]\<rparr>))"

text \<open>The first headers of a pushed transaction are the promise, later ones the response.\<close>

definition CurlPushHandler_onHeadersComplete ::
  "HTTPResponse \<Rightarrow> 'url CurlTool \<Rightarrow> CurlPushHandler \<Rightarrow> tool_world \<Rightarrow> CurlPushHandler \<times> tool_world" where
  "CurlPushHandler_onHeadersComplete msg parent h w =
     (if \<not> seenOnHeadersComplete h
      then (h\<lparr>seenOnHeadersComplete := True, promise := Some msg\<rparr>,
            CurlTool_printMessageImpl ''[PP] '' parent w)
      else (h\<lparr>push_response := Some msg\<rparr>, CurlTool_printMessageImpl ''[PR] '' parent w))"

definition CurlPushHandler_onBody ::
  "IOBuf option \<Rightarrow> 'url CurlTool \<Rightarrow> tool_world \<Rightarrow> tool_world res" where
  "CurlPushHandler_onBody chain parent w = CurlTool_onBody chain parent w"

definition CurlPushHandler_setTransaction ::
  "nat \<Rightarrow> 'url CurlTool \<Rightarrow> CurlPushHandler \<Rightarrow> tool_world \<Rightarrow> CurlPushHandler \<times> tool_world" where
  "CurlPushHandler_setTransaction txn parent h w =
     (h\<lparr>pushedTxn := Some txn\<rparr>,
      tool_log_if (ct_loggingEnabled parent) (LOG_INFO ''Received pushed transaction'') w)"

definition CurlPushHandler_detachTransaction :: "'url CurlTool \<Rightarrow> tool_world \<Rightarrow> tool_world" where
  "CurlPushHandler_detachTransaction parent w =
     tool_log_if (ct_loggingEnabled parent) (LOG_INFO ''Detached pushed transaction'') w"

definition CurlPushHandler_onEOM :: "'url CurlTool \<Rightarrow> tool_world \<Rightarrow> tool_world" where
  "CurlPushHandler_onEOM parent w = tool_log_if (ct_loggingEnabled parent) (LOG_INFO ''Got PushTxn EOM'') w"

definition CurlPushHandler_onError :: "string \<Rightarrow> 'url CurlTool \<Rightarrow> tool_world \<Rightarrow> tool_world" where
  "CurlPushHandler_onError what parent w = CurlTool_onError what parent w"

text \<open>Trailers, upgrades, pauses and resumptions of a pushed transaction are ignored.\<close>

definition CurlPushHandler_ignored :: "CurlPushHandler \<Rightarrow> CurlPushHandler" where
  "CurlPushHandler_ignored h = h"

section \<open>A run of callbacks\<close>

fun tool_pushed ::
  "push_callback \<Rightarrow> 'url CurlTool \<Rightarrow> CurlPushHandler \<Rightarrow> tool_world \<Rightarrow> (CurlPushHandler \<times> tool_world) res" where
  "tool_pushed (PushSetTransaction t) parent h w = Inr (CurlPushHandler_setTransaction t parent h w)"
| "tool_pushed PushDetach parent h w = Inr (h, CurlPushHandler_detachTransaction parent w)"
| "tool_pushed (PushHeadersComplete msg) parent h w = Inr (CurlPushHandler_onHeadersComplete msg parent h w)"
| "tool_pushed (PushBody chain) parent h w = res_bind (CurlPushHandler_onBody chain parent w) (\<lambda>w. Inr (h, w))"
| "tool_pushed PushEndOfMessage parent h w = Inr (h, CurlPushHandler_onEOM parent w)"
| "tool_pushed (PushError what) parent h w = Inr (h, CurlPushHandler_onError what parent w)"
| "tool_pushed PushOther parent h w = Inr (CurlPushHandler_ignored h, w)"

fun tool_callback ::
  "'url net_api \<Rightarrow> client_callback \<Rightarrow> 'url CurlTool \<Rightarrow> tool_world \<Rightarrow> ('url CurlTool \<times> tool_world) res"
where
  "tool_callback api (ConnectSuccess tr) c w = CurlTool_connectSuccess api tr c w"
| "tool_callback api (ConnectError ex) c w = Inr (c, CurlTool_connectError api ex c w)"
| "tool_callback api (SetTransaction t) c w = Inr (CurlTool_setTransaction t c, w)"
| "tool_callback api Detach c w = Inr (CurlTool_detachTransaction c, w)"
| "tool_callback api (HeadersComplete msg) c w = Inr (CurlTool_onHeadersComplete msg c w)"
| "tool_callback api (BodyPart chain) c w = res_bind (CurlTool_onBody chain c w) (\<lambda>w. Inr (c, w))"
| "tool_callback api Trailers c w = Inr (c, CurlTool_onTrailers c w)"
| "tool_callback api EndOfMessage c w = Inr (c, CurlTool_onEOM c w)"
| "tool_callback api Upgrade c w = Inr (c, CurlTool_onUpgrade c w)"
| "tool_callback api (TxnError what) c w = Inr (c, CurlTool_onError what c w)"
| "tool_callback api EgressPaused c w = Inr (CurlTool_onEgressPaused c w)"
| "tool_callback api EgressResumed c w = CurlTool_onEgressResumed c w"
| "tool_callback api (PushedTransaction t) c w = Inr (CurlTool_onPushedTransaction c w)"
| "tool_callback api (Pushed i e) c w =
     (if i < length (ct_pushTxnHandlers c) then
        res_bind (tool_pushed e c (ct_pushTxnHandlers c ! i) w) (\<lambda>(h, w).
          Inr (c\<lparr>ct_pushTxnHandlers := (ct_pushTxnHandlers c)[i := h]\<rparr>, w))
      else Inl OutOfRange)"

fun tool_callbacks ::
  "'url net_api \<Rightarrow> client_callback list \<Rightarrow> 'url CurlTool \<Rightarrow> tool_world \<Rightarrow> ('url CurlTool \<times> tool_world) res"
where
  "tool_callbacks api [] c w = Inr (c, w)"
| "tool_callbacks api (e # es) c w = res_bind (tool_callback api e c w) (\<lambda>(c, w). tool_callbacks api es c w)"

section \<open>The program\<close>

record curl_flags =
  cf_http_method :: string
  cf_url :: string
  cf_input_filename :: string
  cf_connect_timeout :: i32
  cf_ca_path :: string
  cf_cert_path :: string
  cf_key_path :: string
  cf_next_protos :: string
  cf_plaintext_proto :: string
  cf_recv_window :: i32
  cf_h2c :: bool
  cf_headers :: string
  cf_proxy :: string
  cf_log_response :: bool

definition CurlTool_initializeSsl ::
  "'url net_api \<Rightarrow> string \<Rightarrow> string \<Rightarrow> string \<Rightarrow> string \<Rightarrow> 'url CurlTool \<Rightarrow> ssl_context \<times> 'url CurlTool" where
  "CurlTool_initializeSsl api caPath nextProtos certPath keyPath c =
     (\<lparr>ssl_trusted = (if caPath \<noteq> [] then Some caPath else None),
       ssl_cert_key = (if certPath \<noteq> [] \<and> keyPath \<noteq> [] then Some (certPath, keyPath) else None),
       ssl_protocols = folly_split api CHR '','' nextProtos\<rparr>,
      c\<lparr>ct_h2c := False\<rparr>)"

datatype curl_start =
    ExitFailure
  | Connect "string \<times> 16 word" "string option" i32
  | ConnectSSL "string \<times> 16 word" "string option" i32 ssl_context string

definition curl_main ::
  "'url net_api \<Rightarrow> curl_flags \<Rightarrow> tool_world \<Rightarrow> (curl_start \<times> 'url CurlTool option) res" where
  "curl_main api fl w =
     (let u = url_ops api; url = url_parse u (cf_url fl); proxy = url_parse u (cf_proxy fl)
      in if cf_http_method fl \<noteq> ''GET'' \<and> cf_http_method fl \<noteq> ''POST'' then Inr (ExitFailure, None)
         else case stringToMethod api (cf_http_method fl) of
           None \<Rightarrow> Inl BadOptional
         | Some httpMethod \<Rightarrow>
             if httpMethod = POST \<and> files w (cf_input_filename fl) = None then Inr (ExitFailure, None)
             else
               let headers = CurlTool_parseHeaders (folly_split api) (cf_headers fl);
                   c = CurlTool_ctor api httpMethod url (if cf_proxy fl = [] then None else Some proxy)
                         headers (cf_input_filename fl) (cf_h2c fl) 1 1 False;
                   c = CurlTool_setFlowControlSettings (cf_recv_window fl) c;
                   c = CurlTool_setLogging (cf_log_response fl) c;
                   addr = (if cf_proxy fl \<noteq> [] then (getHost u proxy, getPort u proxy)
                           else (getHost u url, getPort u url));
                   plain = (if cf_plaintext_proto fl \<noteq> [] then Some (cf_plaintext_proto fl) else None)
               in if isSecure u url then
                    let (ssl, c) = CurlTool_initializeSsl api (cf_ca_path fl) (cf_next_protos fl)
                                     (cf_cert_path fl) (cf_key_path fl) c
                    in Inr (ConnectSSL addr plain (cf_connect_timeout fl) ssl (CurlTool_getServerName api c), Some c)
                  else Inr (Connect addr plain (cf_connect_timeout fl), Some c))"

text \<open>The whole program: the start, what the event loop delivers, and the exit code.\<close>

definition curl_run ::
  "'url net_api \<Rightarrow> curl_flags \<Rightarrow> client_callback list \<Rightarrow> tool_world \<Rightarrow> (nat \<times> tool_world) res" where
  "curl_run api fl es w =
     res_bind (curl_main api fl w) (\<lambda>(start, c).
       case c of
         None \<Rightarrow> Inr (1, w)
       | Some c \<Rightarrow> res_bind (tool_callbacks api es c w) (\<lambda>(c, w). Inr (0, w)))"

text \<open>The exit code tells whether the flags were usable; a failed connection or request is a success.\<close>

lemma curl_run_exit_code:
  assumes "curl_run api fl es w = Inr (code, w')"
  shows "code = 0 \<longleftrightarrow> (cf_http_method fl = ''GET'' \<or> cf_http_method fl = ''POST'')
    \<and> (stringToMethod api (cf_http_method fl) = Some POST \<longrightarrow> files w (cf_input_filename fl) \<noteq> None)"
  using assms
  by (auto simp: curl_run_def curl_main_def res_bind_Inr Let_def split: if_split_asm option.split_asm prod.split_asm)

section \<open>Uploads\<close>

lemma tool_log_if_simps [simp]:
  "files (tool_log_if b l w) = files w" "calls (tool_log_if b l w) = calls w"
  "pauses (tool_log_if b l w) = pauses w" "printed (tool_log_if b l w) = printed w"
  "files (tool_log l w) = files w" "calls (tool_log l w) = calls w" "printed (tool_log l w) = printed w"
  by (simp_all add: tool_log_if_def tool_log_def)

text \<open>
  The chunks sent so far and what is left of the file make up the file; every chunk is 4096 bytes
  but the one that ends the file, which is shorter.
\<close>

definition chunked :: "bytes \<Rightarrow> ifstream \<Rightarrow> bytes list \<Rightarrow> bool" where
  "chunked d f chunks \<longleftrightarrow>
     concat chunks @ if_rest f = d
     \<and> (if if_good f then list_all (\<lambda>b. length b = 4096) chunks
        else if_rest f = [] \<and> chunks \<noteq> [] \<and> list_all (\<lambda>b. length b = 4096) (butlast chunks)
          \<and> length (last chunks) < 4096)"

lemma chunked_read:
  assumes "chunked d f chunks" and "if_good f" and "ifstream_read 4096 f = (buf, f')"
  shows "chunked d f' (chunks @ [buf])"
  using assms by (auto simp: chunked_def ifstream_read_def butlast_append)

lemma send_loop_chunked:
  assumes "send_loop p f w = (p', f', w')" and "chunked d f chunks"
  shows "\<exists>new. chunked d f' (chunks @ new) \<and> calls w' = calls w @ map SendBody new
    \<and> (\<not> p' \<longrightarrow> \<not> if_good f') \<and> files w' = files w
    \<and> (p' \<longrightarrow> p \<or> count_list (pauses w') True < count_list (pauses w) True)
    \<and> count_list (pauses w') True \<le> count_list (pauses w) True"
  using assms
proof (induction p f w arbitrary: chunks rule: send_loop.induct)
  case (1 p f w)
  show ?case
  proof (cases "if_good f \<and> \<not> p")
    case True
    obtain buf f1 where read: "ifstream_read 4096 f = (buf, f1)" by fastforce
    obtain q w1 where send: "txn_sendBody buf w = (q, w1)" by fastforce
    have w1: "calls w1 = calls w @ [SendBody buf]" "files w1 = files w"
      "count_list (pauses w1) True + (if q then 1 else 0) = count_list (pauses w) True"
      using send by (auto simp: txn_sendBody_def Let_def split: list.splits)
    have "send_loop (p \<or> q) f1 w1 = (p', f', w')"
      using 1(2) True read send by (subst (asm) send_loop.simps) simp
    from 1(1) [OF True read [symmetric] refl send [symmetric] refl this chunked_read [OF 1(3) _ read]] True
    obtain new where new: "chunked d f' ((chunks @ [buf]) @ new)" "calls w' = calls w1 @ map SendBody new"
      "\<not> p' \<longrightarrow> \<not> if_good f'" "files w' = files w1"
      "p' \<longrightarrow> (p \<or> q) \<or> count_list (pauses w') True < count_list (pauses w1) True"
      "count_list (pauses w') True \<le> count_list (pauses w1) True"
      by blast
    have "p' \<longrightarrow> p \<or> count_list (pauses w') True < count_list (pauses w) True"
      using new(5,6) w1(3) by (cases q) auto
    with new w1 show ?thesis
      by (intro exI [of _ "buf # new"]) simp
  next
    case False
    with 1(2,3) show ?thesis
      by (intro exI [of _ "[]"]) (auto simp: send_loop.simps [of p f w])
  qed
qed

text \<open>The transaction resumes the client as long as it is paused, at most \<open>n\<close> times.\<close>

fun resume_all :: "nat \<Rightarrow> 'url CurlTool \<Rightarrow> tool_world \<Rightarrow> ('url CurlTool \<times> tool_world) res" where
  "resume_all 0 c w = Inr (c, w)"
| "resume_all (Suc n) c w =
     (if ct_egressPaused c
      then res_bind (CurlTool_onEgressResumed c w) (\<lambda>(c, w). resume_all n c w)
      else Inr (c, w))"

text \<open>A client in the middle of an upload, and one at its end.\<close>

definition uploading :: "txn_call list \<Rightarrow> bytes \<Rightarrow> 'url CurlTool \<Rightarrow> tool_world \<Rightarrow> bool" where
  "uploading pre d c w \<longleftrightarrow> ct_egressPaused c \<and>
     (\<exists>f chunks. ct_inputFile c = Some f \<and> chunked d f chunks \<and> calls w = pre @ map SendBody chunks)"

definition uploaded :: "txn_call list \<Rightarrow> bytes \<Rightarrow> 'url CurlTool \<Rightarrow> tool_world \<Rightarrow> bool" where
  "uploaded pre d c w \<longleftrightarrow> \<not> ct_egressPaused c \<and>
     (\<exists>chunks. concat chunks = d \<and> chunks \<noteq> [] \<and> list_all (\<lambda>b. length b = 4096) (butlast chunks)
        \<and> length (last chunks) < 4096 \<and> calls w = pre @ map SendBody chunks @ [SendEOM])"

lemma sendBodyFromFile_progress:
  assumes "ct_inputFile c = Some f" and "chunked d f chunks" and "calls w = pre @ map SendBody chunks"
  shows "\<exists>c' w'. CurlTool_sendBodyFromFile c w = Inr (c', w')
    \<and> (uploaded pre d c' w' \<or> uploading pre d c' w'
        \<and> (ct_egressPaused c \<or> count_list (pauses w') True < count_list (pauses w) True))
    \<and> count_list (pauses w') True \<le> count_list (pauses w) True"
proof -
  obtain p' f' w' where loop: "send_loop (ct_egressPaused c) f w = (p', f', w')"
    using prod_cases3 by blast
  from send_loop_chunked [OF loop assms(2)] assms(3)
  obtain new where new: "chunked d f' (chunks @ new)" "calls w' = pre @ map SendBody (chunks @ new)"
    "\<not> p' \<Longrightarrow> \<not> if_good f'"
    "p' \<Longrightarrow> ct_egressPaused c \<or> count_list (pauses w') True < count_list (pauses w) True"
    "count_list (pauses w') True \<le> count_list (pauses w) True"
    by auto
  show ?thesis
  proof (cases p')
    case True
    with new assms(1) loop show ?thesis
      by (auto simp: CurlTool_sendBodyFromFile_def uploading_def)
  next
    case False
    with new(1,3) have "concat (chunks @ new) = d" "chunks @ new \<noteq> []"
      "list_all (\<lambda>b. length b = 4096) (butlast (chunks @ new))" "length (last (chunks @ new)) < 4096"
      by (auto simp: chunked_def)
    with False new(2,5) assms(1) loop show ?thesis
      by (auto simp: CurlTool_sendBodyFromFile_def uploaded_def intro!: exI [of _ "chunks @ new"])
  qed
qed

lemma resume_all_uploads:
  assumes "uploading pre d c w" and "count_list (pauses w) True < n"
  shows "\<exists>c' w'. resume_all n c w = Inr (c', w') \<and> uploaded pre d c' w'"
  using assms
proof (induction n arbitrary: c w)
  case (Suc n)
  then obtain f chunks where f: "ct_egressPaused c" "ct_inputFile c = Some f" "chunked d f chunks"
    "calls w = pre @ map SendBody chunks"
    by (auto simp: uploading_def)
  have "ct_inputFile (c\<lparr>ct_egressPaused := False\<rparr>) = Some f" using f by simp
  moreover have "calls (tool_log_if (ct_loggingEnabled c) (LOG_INFO ''Egress resumed'') w) = pre @ map SendBody chunks"
    using f by simp
  ultimately
  obtain c' w' where step: "CurlTool_onEgressResumed c w = Inr (c', w')"
    and outcome: "uploaded pre d c' w' \<or> uploading pre d c' w'
      \<and> count_list (pauses w') True < count_list (pauses w) True"
    using sendBodyFromFile_progress [OF _ f(3), of "c\<lparr>ct_egressPaused := False\<rparr>"
        "tool_log_if (ct_loggingEnabled c) (LOG_INFO ''Egress resumed'') w" pre]
    by (auto simp: CurlTool_onEgressResumed_def f)
  show ?case
  proof (cases "uploaded pre d c' w'")
    case True
    with step f show ?thesis
      by (cases n) (auto simp: uploaded_def)
  next
    case False
    with outcome Suc.prems Suc.IH [of c' w'] step f show ?thesis by auto
  qed
qed simp

section \<open>Properties\<close>

text \<open>A name is taken when a file has it or none can be created under it.\<close>

definition taken :: "tool_world \<Rightarrow> string \<Rightarrow> bool" where
  "taken w name = (files w name \<noteq> None \<or> \<not> writable w name)"

definition found_free :: "string \<Rightarrow> tool_world \<Rightarrow> nat \<Rightarrow> string option \<Rightarrow> tool_world \<Rightarrow> bool" where
  "found_free out w a r w' =
     (case r of
        None \<Rightarrow> w' = w \<and> list_all (\<lambda>k. taken w (candidate out (of_nat k))) [a..<65535]
      | Some name \<Rightarrow> (\<exists>k. a \<le> k \<and> k < 65535 \<and> name = candidate out (of_nat k) \<and> \<not> taken w name
          \<and> list_all (\<lambda>j. taken w (candidate out (of_nat j))) [a..<k]
          \<and> w' = w\<lparr>files := (files w)(name \<mapsto> [])\<rparr>))"

lemma found_free_back:
  assumes "found_free out w (Suc a) r w'" and "taken w (candidate out (of_nat a))" and "a < 65535"
  shows "found_free out w a r w'"
proof (cases r)
  case None
  with assms show ?thesis by (simp add: found_free_def upt_conv_Cons [of a])
next
  case (Some name)
  with assms(1) obtain k where k: "Suc a \<le> k" "k < 65535" "name = candidate out (of_nat k)"
    "\<not> taken w name" "list_all (\<lambda>j. taken w (candidate out (of_nat j))) [Suc a..<k]"
    "w' = w\<lparr>files := (files w)(name \<mapsto> [])\<rparr>"
    by (auto simp: found_free_def)
  moreover from k assms(2) have "list_all (\<lambda>j. taken w (candidate out (of_nat j))) [a..<k]"
    by (simp add: upt_conv_Cons [of a])
  ultimately show ?thesis
    unfolding found_free_def Some option.case by (intro exI [of _ k]) simp
qed

lemma save_loop_first:
  "save_loop t out w = (r, w') \<Longrightarrow> found_free out w (unat t) r w'"
proof (induction t out w arbitrary: r w' rule: save_loop.induct)
  case (1 t out w)
  show ?case
  proof (cases "t < 65535")
    case True
    then have t: "unat (t + 1) = Suc (unat t)" "unat t < 65535"
      by (simp_all add: word_less_nat_alt unat_word_ariths)
    show ?thesis
    proof (cases "taken w (candidate out t)")
      case False
      with 1(3) True have "r = Some (candidate out t)" "w' = w\<lparr>files := (files w)(candidate out t \<mapsto> [])\<rparr>"
        by (auto simp: save_loop.simps [of t] ofstream_open_def taken_def)
      with False t show ?thesis
        by (auto simp: found_free_def intro!: exI [of _ "unat t"])
    next
      case taken: True
      then have "save_loop (t + 1) out w = (r, w')"
        using True 1(3) by (auto simp: save_loop.simps [of t] ofstream_open_def taken_def split: if_splits)
      then have "found_free out w (unat (t + 1)) r w'"
        using 1(1) [OF True] 1(2) [OF True] taken
        by (cases "files w (candidate out t) = None") (simp_all add: ofstream_open_def taken_def)
      then have "found_free out w (Suc (unat t)) r w'" by (simp only: t(1))
      then show ?thesis
        by (rule found_free_back) (use taken t(2) in simp_all)
    qed
  next
    case False
    then have "65535 \<le> unat t" by (simp add: word_less_nat_alt)
    with False 1(3) show ?thesis by (simp add: save_loop.simps [of t] found_free_def)
  qed
qed

text \<open>
  The output file of the command-line client is the first of the names out, out_1, out_2, ...,
  out_65534 that is not taken, created empty; no file that exists is ever changed, and the response
  goes to the new file. The client gives up, with nothing changed, exactly when the name is empty
  or all 65535 candidates are taken.
\<close>

theorem output_file_is_first_free:
  assumes "CurlTool_saveResponseToFile out c w = (ok, c', w')"
  shows "files w \<subseteq>\<^sub>m files w'
    \<and> (if ok then (\<exists>k. k < 65535 \<and> \<not> taken w (candidate out (of_nat k))
          \<and> list_all (\<lambda>j. taken w (candidate out (of_nat j))) [0..<k]
          \<and> w' = w\<lparr>files := (files w)(candidate out (of_nat k) \<mapsto> [])\<rparr>
          \<and> ct_outputStream c' = Some (OutFile (candidate out (of_nat k))))
       else c' = c \<and> w' = w
         \<and> (out = [] \<or> list_all (\<lambda>j. taken w (candidate out (of_nat j))) [0..<65535]))"
proof (cases "out = []")
  case True
  with assms show ?thesis by (simp add: CurlTool_saveResponseToFile_def)
next
  case False
  obtain r v where run: "save_loop 0 out w = (r, v)" by fastforce
  from save_loop_first [OF run] have "found_free out w 0 r v" by simp
  with False assms run show ?thesis
    by (cases r) (auto simp: CurlTool_saveResponseToFile_def found_free_def map_le_def taken_def)
qed

theorem output_file_is_first_free_witness:
  "\<exists>ok c' w'. CurlTool_saveResponseToFile ''r''
      (CurlTool_ctor ref_net GET (url_parse ref_url ''a/b'') None [] [] False 1 1 False)
      \<lparr>files = [''r'' \<mapsto> [1]], writable = (\<lambda>_. True), printed = [], calls = [], pauses = [], logged = []\<rparr> = (ok, c', w')
    \<and> [''r'' \<mapsto> [1]] \<subseteq>\<^sub>m files w'"
proof -
  let ?c = "CurlTool_ctor ref_net GET (url_parse ref_url ''a/b'') None [] [] False 1 1 False"
  let ?w = "\<lparr>files = [''r'' \<mapsto> [1]], writable = (\<lambda>_. True), printed = [], calls = [], pauses = [], logged = []\<rparr>"
  obtain ok c' w' where "CurlTool_saveResponseToFile ''r'' ?c ?w = (ok, c', w')"
    using prod_cases3 by blast
  from this output_file_is_first_free [OF this] show ?thesis by auto
qed

text \<open>
  C18. An upload is complete and in order whatever the back pressure: if the transaction resumes the
  client as long as it is paused, it sees the headers, then the bytes of the file once, in chunks of
  4096 with a shorter last one, and then one end of message, after at most one resumption more than
  the number of pauses.
\<close>

theorem upload_is_complete:
  assumes "ct_httpMethod c = POST" and "files w (ct_inputFilename c) = Some d"
    and "CurlTool_sendRequest api c w = Inr (c1, w1)" and "count_list (pauses w) True < n"
  shows "\<exists>c2 w2 chunks. resume_all n c1 w1 = Inr (c2, w2)
    \<and> calls w2 = calls w @ SendHeaders (ct_request (CurlTool_setupHeaders api c)) # map SendBody chunks @ [SendEOM]
    \<and> concat chunks = d \<and> chunks \<noteq> [] \<and> list_all (\<lambda>b. length b = 4096) (butlast chunks)
    \<and> length (last chunks) < 4096"
proof -
  let ?c = "CurlTool_setupHeaders api c"
  let ?pre = "calls w @ [SendHeaders (ct_request ?c)]"
  let ?f = "\<lparr>if_rest = d, if_good = True\<rparr>"
  let ?cf = "?c\<lparr>ct_inputFile := Some ?f\<rparr>"
  let ?wf = "w\<lparr>calls := ?pre\<rparr>"
  have c: "ct_httpMethod ?c = POST" "ct_inputFilename ?c = ct_inputFilename c"
    using assms(1) by (simp_all add: CurlTool_setupHeaders_def Let_def)
  have send: "CurlTool_sendBodyFromFile ?cf ?wf = Inr (c1, w1)"
    using assms(2,3) c by (simp add: CurlTool_sendRequest_def ifstream_open_def Let_def)
  have "chunked d ?f []" "ct_inputFile ?cf = Some ?f" "calls ?wf = ?pre @ map SendBody []"
    by (simp_all add: chunked_def)
  from sendBodyFromFile_progress [OF this(2,1,3)] send assms(4)
  have "count_list (pauses w1) True < n" "uploaded ?pre d c1 w1 \<or> uploading ?pre d c1 w1"
    by auto
  then have "\<exists>c2 w2. resume_all n c1 w1 = Inr (c2, w2) \<and> uploaded ?pre d c2 w2"
    using resume_all_uploads [of ?pre d c1 w1 n]
    by (cases n) (auto simp: uploaded_def)
  then show ?thesis by (auto simp: uploaded_def)
qed

theorem upload_is_complete_witness:
  "\<exists>c1 w1 c2 w2 chunks.
     CurlTool_sendRequest ref_net
       (CurlTool_ctor ref_net POST (url_parse ref_url ''a/b'') None [] ''f'' False 1 1 False)
       \<lparr>files = [''f'' \<mapsto> [1, 2]], writable = (\<lambda>_. True), printed = [], calls = [], pauses = [True], logged = []\<rparr>
       = Inr (c1, w1)
     \<and> resume_all 2 c1 w1 = Inr (c2, w2) \<and> concat chunks = [1, 2]
     \<and> tl (calls w2) = map SendBody chunks @ [SendEOM]"
proof -
  let ?c = "CurlTool_ctor ref_net POST (url_parse ref_url ''a/b'') None [] ''f'' False 1 1 False"
  let ?w = "\<lparr>files = [''f'' \<mapsto> [1, 2]], writable = (\<lambda>_. True), printed = [], calls = [], pauses = [True], logged = []\<rparr>"
  have c: "ct_httpMethod ?c = POST" "files ?w (ct_inputFilename ?c) = Some [1, 2]"
    by (simp_all add: CurlTool_ctor_def)
  obtain c1 w1 where run: "CurlTool_sendRequest ref_net ?c ?w = Inr (c1, w1)"
    by (auto simp: CurlTool_sendRequest_def CurlTool_sendBodyFromFile_def CurlTool_setupHeaders_def
        CurlTool_ctor_def Let_def split_beta)
  from run upload_is_complete [OF c run, of 2] show ?thesis by fastforce
qed

section \<open>Responses\<close>

lemma send_loop_keeps:
  "files (snd (snd (send_loop p f w))) = files w \<and> printed (snd (snd (send_loop p f w))) = printed w"
proof (induction p f w rule: send_loop.induct)
  case (1 p f w)
  show ?case
  proof (cases "if_good f \<and> \<not> p")
    case True
    obtain buf f1 where read: "ifstream_read 4096 f = (buf, f1)" by fastforce
    obtain q w1 where send: "txn_sendBody buf w = (q, w1)" by fastforce
    have "files w1 = files w \<and> printed w1 = printed w"
      using send by (auto simp: txn_sendBody_def Let_def split: list.splits)
    moreover have "send_loop p f w = send_loop (p \<or> q) f1 w1"
      using True read send by (subst send_loop.simps) simp
    ultimately show ?thesis
      using 1 [OF True read [symmetric] refl send [symmetric] refl] by simp
  next
    case False
    then have "send_loop p f w = (p, f, w)" by (subst send_loop.simps) auto
    then show ?thesis by simp
  qed
qed

lemmas send_loop_outputs [simp] = conjunct1 [OF send_loop_keeps] conjunct2 [OF send_loop_keeps]

text \<open>What a client keeps through a callback once its response goes to a file.\<close>

definition saving :: "string \<Rightarrow> 'url CurlTool \<Rightarrow> bool" where
  "saving name c \<longleftrightarrow>
     ct_outputStream c = Some (OutFile name) \<and> ct_loggingEnabled c \<and> ct_eomFunc c = None"

lemma sendRequest_saving:
  assumes "CurlTool_sendRequest api c w = Inr (c', w')"
  shows "saving name c' = saving name c" and "files w' = files w"
  using assms
  by (auto simp: CurlTool_sendRequest_def CurlTool_setupHeaders_def CurlTool_sendBodyFromFile_def saving_def Let_def
      split_beta ifstream_open_def split: option.splits if_splits)

lemma write_chain_files:
  "files w name = Some d \<Longrightarrow>
     files (write_chain (OutFile name) ps w) = (files w)(name \<mapsto> d @ concat ps)"
  by (induction ps arbitrary: w d) (auto simp: write_out_def fun_eq_iff)

lemma onBody_saves:
  assumes "CurlTool_onBody chain c w = Inr w'" and "saving name c" and "files w name = Some d"
  shows "files w' = (files w)(name \<mapsto> d @ (case chain of None \<Rightarrow> [] | Some b \<Rightarrow> iobuf_bytes b))"
  using assms
  by (cases chain)
    (auto simp: CurlTool_onBody_def saving_def iobuf_bytes_def write_chain_files simp del: write_chain.simps)

lemma sslHandshakeFollowup_files:
  "CurlTool_sslHandshakeFollowup tr w = Inr w' \<Longrightarrow> files w' = files w"
  by (auto simp: CurlTool_sslHandshakeFollowup_def split: transport.splits option.splits)

lemma tool_callback_saves:
  assumes "tool_callback api e c w = Inr (c', w')" and "saving name c" and "files w name = Some d"
  shows "saving name c' \<and> files w' = (files w)(name \<mapsto> d @ body_of [e])"
proof -
  have same: "files w = (files w)(name \<mapsto> d)" using assms(3) by auto
  show ?thesis
  proof (cases e)
    case (ConnectSuccess tr)
    with assms(1) obtain w1 c2 w2 where "files w1 = files w"
      "CurlTool_sendRequest api c (w1\<lparr>calls := calls w1 @ [SetFlowControl (ct_recvWindow c) (ct_recvWindow c)
         (ct_recvWindow c), NewTransaction]\<rparr>) = Inr (c2, w2)" "c' = c2" "files w' = files w2"
      by (auto simp: CurlTool_connectSuccess_def res_bind_Inr Let_def split: if_splits dest: sslHandshakeFollowup_files)
    with ConnectSuccess assms(2) same sendRequest_saving [of api c _ c2 w2] show ?thesis by fastforce
  next
    case (BodyPart chain)
    with assms onBody_saves [OF _ assms(2,3), of chain] show ?thesis
      by (cases chain) (auto simp: res_bind_Inr)
  next
    case (Pushed i p)
    with assms same onBody_saves [OF _ assms(2,3)] show ?thesis
      by (cases p)
        (auto simp: res_bind_Inr CurlPushHandler_onBody_def CurlPushHandler_setTransaction_def
          CurlPushHandler_detachTransaction_def CurlPushHandler_onHeadersComplete_def CurlTool_printMessageImpl_def
          CurlPushHandler_onEOM_def CurlPushHandler_onError_def CurlTool_onError_def saving_def
          split: if_splits option.splits)
  next
    case EgressResumed
    with assms same show ?thesis
      by (auto simp: CurlTool_onEgressResumed_def CurlTool_sendBodyFromFile_def saving_def Let_def split_beta
          split: if_splits option.splits)
  qed (use assms same in \<open>auto simp: CurlTool_onHeadersComplete_def CurlTool_printMessageImpl_def
      CurlTool_onEOM_def CurlTool_onEgressPaused_def CurlTool_onPushedTransaction_def
      CurlTool_connectError_def CurlTool_setTransaction_def CurlTool_detachTransaction_def
      CurlTool_onTrailers_def CurlTool_onUpgrade_def CurlTool_onError_def saving_def Let_def\<close>)
qed

lemma tool_callbacks_save:
  assumes "tool_callbacks api es c w = Inr (c', w')" and "saving name c" and "files w name = Some d"
  shows "files w' = (files w)(name \<mapsto> d @ body_of es)"
  using assms
proof (induction es arbitrary: c w d)
  case (Cons e es)
  then obtain c1 w1 where step: "tool_callback api e c w = Inr (c1, w1)" "tool_callbacks api es c1 w1 = Inr (c', w')"
    by (auto simp: res_bind_Inr)
  note s = tool_callback_saves [OF step(1) Cons.prems(2,3)]
  then have "files w1 name = Some (d @ body_of [e])" by simp
  from Cons.IH [OF step(2) conjunct1 [OF s] this] s show ?case
    by (simp add: body_of_Cons [of e es] fun_upd_def fun_eq_iff)
qed auto

text \<open>With logging switched off nothing is written.\<close>

definition muted :: "'url CurlTool \<Rightarrow> bool" where
  "muted c \<longleftrightarrow> \<not> ct_loggingEnabled c \<and> ct_eomFunc c = None"

lemma sendRequest_muted:
  "CurlTool_sendRequest api c w = Inr (c', w') \<Longrightarrow> muted c' = muted c"
  by (auto simp: CurlTool_sendRequest_def CurlTool_setupHeaders_def CurlTool_sendBodyFromFile_def muted_def Let_def
      split_beta split: option.splits if_splits)

lemma tool_callback_muted:
  assumes "tool_callback api e c w = Inr (c', w')" and "muted c"
  shows "muted c' \<and> files w' = files w"
proof (cases e)
  case (ConnectSuccess tr)
  with assms(1) obtain w1 c2 w2 where "files w1 = files w"
    "CurlTool_sendRequest api c (w1\<lparr>calls := calls w1 @ [SetFlowControl (ct_recvWindow c) (ct_recvWindow c)
       (ct_recvWindow c), NewTransaction]\<rparr>) = Inr (c2, w2)" "c' = c2" "files w' = files w2"
    by (auto simp: CurlTool_connectSuccess_def res_bind_Inr Let_def split: if_splits dest: sslHandshakeFollowup_files)
  with ConnectSuccess assms(2) sendRequest_saving(2) [of api c _ c2 w2] sendRequest_muted [of api c _ c2 w2]
  show ?thesis by fastforce
next
  case (Pushed i p)
  with assms show ?thesis
    by (cases p)
      (auto simp: res_bind_Inr CurlPushHandler_onBody_def CurlPushHandler_setTransaction_def CurlTool_onBody_def
        CurlPushHandler_detachTransaction_def CurlPushHandler_onHeadersComplete_def CurlTool_printMessageImpl_def
        CurlPushHandler_onEOM_def CurlPushHandler_onError_def CurlTool_onError_def muted_def
        split: if_splits option.splits)
next
  case EgressResumed
  with assms show ?thesis
    by (auto simp: CurlTool_onEgressResumed_def CurlTool_sendBodyFromFile_def muted_def Let_def split_beta
        split: if_splits option.splits)
qed (use assms in \<open>auto simp: CurlTool_onHeadersComplete_def CurlTool_printMessageImpl_def CurlTool_onBody_def
    CurlTool_onEOM_def CurlTool_onEgressPaused_def CurlTool_onPushedTransaction_def
    CurlTool_connectError_def CurlTool_setTransaction_def CurlTool_detachTransaction_def
    CurlTool_onTrailers_def CurlTool_onUpgrade_def CurlTool_onError_def muted_def Let_def\<close>)

lemma tool_callbacks_muted:
  "tool_callbacks api es c w = Inr (c', w') \<Longrightarrow> muted c \<Longrightarrow> files w' = files w"
proof (induction es arbitrary: c w)
  case (Cons e es)
  then obtain c1 w1 where step: "tool_callback api e c w = Inr (c1, w1)" "tool_callbacks api es c1 w1 = Inr (c', w')"
    by (auto simp: res_bind_Inr)
  from tool_callback_muted [OF step(1) Cons.prems(2)] Cons.IH [OF step(2)] show ?case by simp
qed simp

text \<open>
  C19. A response saved to a file arrives there whole: after \<open>saveResponseToFile\<close> has succeeded, whatever
  callbacks follow, in any order, leave in the chosen new file the parts of the body, those of pushed
  transactions included, in the order of arrival, and touch no other file; but with logging switched
  off the file stays empty.
\<close>

theorem response_is_saved:
  assumes "CurlTool_saveResponseToFile out c w = (True, c', w')" and "ct_eomFunc c = None"
    and "tool_callbacks api es c' w' = Inr (c'', w'')"
  shows "\<exists>k. k < 65535 \<and> \<not> taken w (candidate out (of_nat k))
    \<and> files w'' = (files w)(candidate out (of_nat k) \<mapsto> if ct_loggingEnabled c then body_of es else [])"
proof -
  obtain name where run: "save_loop 0 out w = (Some name, w')"
    and c': "c' = c\<lparr>ct_outputStream := Some (OutFile name)\<rparr>"
    using assms(1) by (auto simp: CurlTool_saveResponseToFile_def split: if_splits prod.splits option.splits)
  from save_loop_first [OF run] obtain k where k: "k < 65535" "name = candidate out (of_nat k)"
    "\<not> taken w name" "w' = w\<lparr>files := (files w)(name \<mapsto> [])\<rparr>"
    by (auto simp: found_free_def)
  have "files w'' = (files w)(name \<mapsto> if ct_loggingEnabled c then body_of es else [])"
  proof (cases "ct_loggingEnabled c")
    case True
    then have "saving name c'" "files w' name = Some []"
      using c' k(4) assms(2) by (simp_all add: saving_def)
    from tool_callbacks_save [OF assms(3) this] k(4) True show ?thesis by simp
  next
    case False
    then have "muted c'" using c' assms(2) by (simp add: muted_def)
    from tool_callbacks_muted [OF assms(3) this] k(4) False show ?thesis by simp
  qed
  with k(1-3) show ?thesis by blast
qed

definition ex_tool_world :: tool_world where
  "ex_tool_world = \<lparr>files = [''r'' \<mapsto> [1]], writable = (\<lambda>_. True), printed = [], calls = [], pauses = [], logged = []\<rparr>"

theorem response_is_saved_witness:
  "\<exists>c' w' c'' w''.
     CurlTool_saveResponseToFile ''r'' (CurlTool_ctor ref_net GET (url_parse ref_url ''a/b'') None [] [] False 1 1 False)
       ex_tool_world = (True, c', w')
     \<and> tool_callbacks ref_net [ConnectSuccess PlainSocket, HeadersComplete \<lparr>rsp_status = 200, rsp_headers = []\<rparr>,
          BodyPart (Some ([1], [[2]])), BodyPart (Some ([3], [])), EndOfMessage] c' w' = Inr (c'', w'')
     \<and> (\<exists>name. files w'' = (files ex_tool_world)(name \<mapsto> [1, 2, 3]) \<and> files ex_tool_world name = None)"
proof -
  let ?c = "CurlTool_ctor ref_net GET (url_parse ref_url ''a/b'') None [] [] False 1 1 False"
  let ?es = "[ConnectSuccess PlainSocket, HeadersComplete \<lparr>rsp_status = 200, rsp_headers = []\<rparr>,
          BodyPart (Some ([1], [[2]])), BodyPart (Some ([3], [])), EndOfMessage]"
  have "(1 :: 16 word) < 65535" "(0 :: 16 word) < 65535" by simp_all
  then obtain c' w' where save: "CurlTool_saveResponseToFile ''r'' ?c ex_tool_world = (True, c', w')"
    and c': "c' = ?c\<lparr>ct_outputStream := Some (OutFile (candidate ''r'' 1))\<rparr>"
    by (simp add: CurlTool_saveResponseToFile_def ex_tool_world_def save_loop.simps [of 0] save_loop.simps [of 1]
        ofstream_open_def candidate_def)
  obtain c'' w'' where run: "tool_callbacks ref_net ?es c' w' = Inr (c'', w'')"
    by (simp add: c' CurlTool_connectSuccess_def CurlTool_sendRequest_def CurlTool_setupHeaders_def CurlTool_ctor_def
        CurlTool_onHeadersComplete_def CurlTool_onBody_def CurlTool_onEOM_def Let_def ref_net_def ref_url_def)
  have "ct_eomFunc ?c = None" "ct_loggingEnabled ?c" by (simp_all add: CurlTool_ctor_def)
  with response_is_saved [OF save _ run]
  obtain k where "\<not> taken ex_tool_world (candidate ''r'' (of_nat k))"
    "files w'' = (files ex_tool_world)(candidate ''r'' (of_nat k) \<mapsto> [1, 2, 3])"
    by (auto simp: iobuf_bytes_def)
  with save run show ?thesis by (auto simp: taken_def)
qed

end
