(* ===== verification/ClientFactory.thy ===== *)
theory ClientFactory
  imports Upstream
begin

text \<open>
  What the two pooled clients share: the map from names to the pools added under them, as a contract
  (\<open>client_factory\<close>) that both factories of the repository interpret, and the merge of response
  headers into the caller's map.
\<close>

section \<open>Header maps\<close>

text \<open>\<open>insert\<close> keeps the value a key already has.\<close>

definition insert_header :: "string \<times> string \<Rightarrow> (string \<rightharpoonup> string) \<Rightarrow> (string \<rightharpoonup> string)" where
  "insert_header h m = (if fst h \<in> dom m then m else m(fst h \<mapsto> snd h))"

lemma insert_headers: "foldl (\<lambda>m x. insert_header x m) m hs = map_of hs ++ m"
proof (induction hs arbitrary: m)
  case (Cons h hs)
  have "map_of hs ++ insert_header h m = map_of (h # hs) ++ m"
    by (cases h) (auto simp: insert_header_def map_add_def fun_eq_iff split: option.splits)
  with Cons show ?case by (simp only: foldl_Cons)
qed simp

lemma add_headers: "foldl (\<lambda>hs (header, val). hs @ [(header, val)]) hs0 hs = hs0 @ hs"
  by (induction hs arbitrary: hs0) auto

section \<open>Pools by name\<close>

definition pools :: "(string \<rightharpoonup> 'm list) \<Rightarrow> string \<Rightarrow> 'm list" where
  "pools cm name = (case cm name of None \<Rightarrow> [] | Some v \<Rightarrow> v)"

text \<open>The factory object of both clients: a timer, with its tick and default timeout in ms, and the map.\<close>

record HHWheelTimer =
  wt_interval :: nat
  wt_timeout :: nat

datatype AddrOp = Add | Del

record 'm CliManageFactory =
  cf_timer :: HHWheelTimer
  cf_cliMap :: "string \<rightharpoonup> 'm list"

text \<open>A history of additions: name, address and size of each pool.\<close>

fun add_all ::
  "(string \<Rightarrow> string \<Rightarrow> nat \<Rightarrow> (string \<rightharpoonup> 'm list) \<Rightarrow> 'e \<Rightarrow> (string \<rightharpoonup> 'm list) \<times> 'e)
   \<Rightarrow> (string \<times> string \<times> nat) list \<Rightarrow> (string \<rightharpoonup> 'm list) \<Rightarrow> 'e \<Rightarrow> (string \<rightharpoonup> 'm list) \<times> 'e" where
  "add_all add [] cm e = (cm, e)"
| "add_all add ((name, addr, num) # xs) cm e =
     (let (cm, e) = add name addr num cm e in add_all add xs cm e)"

locale client_factory =
  fixes add :: "string \<Rightarrow> string \<Rightarrow> nat \<Rightarrow> (string \<rightharpoonup> 'm list) \<Rightarrow> 'e \<Rightarrow> (string \<rightharpoonup> 'm list) \<times> 'e"
    and get :: "nat \<Rightarrow> string \<Rightarrow> (string \<rightharpoonup> 'm list) \<Rightarrow> 'm option res"
    and addr_of :: "'m \<Rightarrow> string"
  assumes adds: "add name addr num cm e = (cm', e') \<Longrightarrow>
      \<exists>m. addr_of m = addr \<and> cm' = cm(name \<mapsto> pools cm name @ [m])"
    and absent: "cm name = None \<Longrightarrow> get r name cm = Inr None"
    and present: "cm name = Some v \<Longrightarrow> v \<noteq> [] \<Longrightarrow> get r name cm = Inr (Some (v ! (r mod length v)))"
begin

lemma add_all_pools:
  assumes "add_all add xs cm e = (cm', e')" and "\<forall>n. cm n \<noteq> Some []"
  shows "map addr_of (pools cm' n) = map addr_of (pools cm n) @ [addr. (name, addr, num) \<leftarrow> xs, name = n]
    \<and> (\<forall>n. cm' n \<noteq> Some [])"
  using assms
proof (induction xs arbitrary: cm e)
  case (Cons x xs)
  obtain name addr num where x: "x = (name, addr, num)" by (cases x)
  obtain cm1 e1 where add: "add name addr num cm e = (cm1, e1)" by fastforce
  from adds [OF add] obtain m where m: "addr_of m = addr" "cm1 = cm(name \<mapsto> pools cm name @ [m])" by blast
  with Cons.prems(2) have ne: "\<forall>n. cm1 n \<noteq> Some []" by auto
  from Cons.prems(1) x add have "add_all add xs cm1 e1 = (cm', e')" by simp
  from Cons.IH [OF this ne] m x show ?case
    by (auto simp: pools_def)
qed simp

lemma finds_added:
  assumes "add_all add xs Map.empty e = (cm, e')"
  shows "case [addr. (name, addr, num) \<leftarrow> xs, name = n] of
      [] \<Rightarrow> get r n cm = Inr None
    | a # as \<Rightarrow> (\<exists>m. get r n cm = Inr (Some m) \<and> addr_of m = (a # as) ! (r mod length (a # as)))"
proof -
  have eq: "[addr. (name, addr, num) \<leftarrow> xs, name = n] = map addr_of (pools cm n)" and ne: "cm n \<noteq> Some []"
    using add_all_pools [OF assms, of n] by (auto simp: pools_def)
  show ?thesis
  proof (cases "cm n")
    case None
    then show ?thesis unfolding eq by (simp add: pools_def absent)
  next
    case (Some v)
    with ne obtain c cs where v: "v = c # cs" by (cases v) auto
    have "r mod length v < length v" using v by simp
    then have "map addr_of v ! (r mod length v) = addr_of (v ! (r mod length v))" by simp
    with Some v present [of cm n v] show ?thesis unfolding eq by (simp add: pools_def)
  qed
qed

end

end
