(* ===== verification/HttpClient.thy ===== *)
theory HttpClient
  imports ClientFactory
begin

text \<open>
  The pooled HTTP client of feature-server/back-code/client (HttpClient.h, HttpClient.cpp): the
  sessions and the event bases they run on, the handler of one transaction, the pool of one address,
  and the factory that maps names to pools.
\<close>

section \<open>Sessions\<close>

text \<open>
  An event base is a number; a session remembers the one it was connected on. \<open>sess_\<close> has no
  initialiser, so it is set by a successful connection or not at all. The environment gives fresh
  event bases, records the destroyed ones, the sessions that take no further transaction, the receive
  windows set on sessions and what is logged, and decides which connections succeed.
\<close>

datatype session_ptr = Unset | Session nat

record client_env =
  env_fresh :: nat
  env_dead :: "nat set"
  env_busy :: "nat set"
  env_connect :: "bool list"
  env_windows :: "(session_ptr \<times> i32) list"
  env_log :: "log_line list"

definition fresh_env :: client_env where
  "fresh_env = \<lparr>env_fresh = 0, env_dead = {}, env_busy = {}, env_connect = [], env_windows = [], env_log = []\<rparr>"

record 'url CliSession =
  cs_url :: 'url
  cs_sess :: session_ptr
  cs_evb :: nat

definition CliSession_connectSuccess ::
  "session_ptr \<Rightarrow> 'url CliSession \<Rightarrow> client_env \<Rightarrow> 'url CliSession \<times> client_env" where
  "CliSession_connectSuccess session c e =
     (c\<lparr>cs_sess := session\<rparr>, e\<lparr>env_windows := env_windows e @ [(session, 65536)]\<rparr>)"

lemma fresh_env_simps [simp]:
  "env_fresh fresh_env = 0" "env_dead fresh_env = {}" "env_busy fresh_env = {}" "env_connect fresh_env = []"
  by (simp_all add: fresh_env_def)

definition CliSession_connectError ::
  "'url net_api \<Rightarrow> string \<Rightarrow> 'url CliSession \<Rightarrow> client_env \<Rightarrow> 'url CliSession \<times> client_env" where
  "CliSession_connectError api ex c e =
     (c, e\<lparr>env_log := env_log e
        @ [LOG_ERROR (''Coudln't connect to '' @ getHostAndPort (url_ops api) (cs_url c) @ '':'' @ ex)]\<rparr>)"

definition CliSession_ctor ::
  "'url net_api \<Rightarrow> string \<Rightarrow> client_env \<Rightarrow> 'url CliSession \<times> client_env" where
  "CliSession_ctor api addrurl e =
     (let evb = env_fresh e;
          c = \<lparr>cs_url = url_parse (url_ops api) addrurl, cs_sess = Unset, cs_evb = evb\<rparr>;
          (ok, rest) = (case env_connect e of [] \<Rightarrow> (True, []) | b # bs \<Rightarrow> (b, bs));
          e = e\<lparr>env_fresh := Suc evb, env_connect := rest\<rparr>
      in if ok then CliSession_connectSuccess (Session evb) c e
         else CliSession_connectError api (connect_what api) c e)"

text \<open>
  The move constructor takes the URL, the connector and the session, and makes an event base of its
  own; the moved-from object is then destroyed, with the event base the session runs on.
\<close>

definition CliSession_move :: "'url CliSession \<Rightarrow> client_env \<Rightarrow> 'url CliSession \<times> client_env" where
  "CliSession_move c e =
     (c\<lparr>cs_evb := env_fresh e\<rparr>,
      e\<lparr>env_fresh := Suc (env_fresh e), env_dead := insert (cs_evb c) (env_dead e)\<rparr>)"

text \<open>An \<open>Optional\<close> built from the pointer: it always has a value.\<close>

definition CliSession_getSession :: "'url CliSession \<Rightarrow> session_ptr option" where
  "CliSession_getSession c = Some (cs_sess c)"

section \<open>One transaction\<close>

record CliHandle =
  ch_evb :: nat
  ch_txn :: bool
  ch_response :: "HTTPResponse option"
  ch_output :: "bytes option"
  ch_egressPaused :: bool
  ch_input :: bytes
  ch_calls :: "txn_call list"
  ch_log :: "log_line list"

text \<open>The callbacks that arrive while the event loop runs.\<close>

datatype arrival =
    OnHeadersComplete HTTPResponse
  | OnBody "IOBuf option"
  | OnTrailers HTTPHeaders
  | OnEOM
  | OnUpgrade
  | OnError string
  | OnEgressPaused
  | OnEgressResumed
  | DetachTransaction

text \<open>
  \<open>newTransaction\<close> goes through the session's event base. It returns a null pointer when the session
  takes no further transaction: a session over HTTP/1.1 has one at a time. \<open>ch_txn\<close> says that \<open>txn_\<close> is
  not null.
\<close>

definition CliHandle_ctor :: "session_ptr \<Rightarrow> client_env \<Rightarrow> CliHandle res" where
  "CliHandle_ctor sess e =
     (case sess of
        Unset \<Rightarrow> Inl WildPointer
      | Session evb \<Rightarrow>
          if evb \<in> env_dead e then Inl UseAfterFree
          else Inr \<lparr>ch_evb = evb, ch_txn = (evb \<notin> env_busy e), ch_response = None, ch_output = None, ch_egressPaused = False,
                 ch_input = [], ch_calls = [NewTransaction], ch_log = []\<rparr>)"

definition CliHandle_log :: "log_line \<Rightarrow> CliHandle \<Rightarrow> CliHandle" where
  "CliHandle_log l h = h\<lparr>ch_log := ch_log h @ [l]\<rparr>"

definition CliHandle_detachTransaction :: "CliHandle \<Rightarrow> CliHandle" where
  "CliHandle_detachTransaction h = CliHandle_log (VLOG 5 ''leon_debug detach txn'') h"

definition CliHandle_onHeadersComplete :: "HTTPResponse \<Rightarrow> CliHandle \<Rightarrow> CliHandle" where
  "CliHandle_onHeadersComplete msg h =
     (CliHandle_log (VLOG 5 ''leon_debug onHeadersComplete'') h)\<lparr>ch_response := Some msg\<rparr>"

text \<open>The string is made anew for each part of the body; the loop appends the buffers of one chain.\<close>

fun append_chain :: "bytes list \<Rightarrow> bytes \<Rightarrow> bytes" where
  "append_chain [] out = out"
| "append_chain (p # ps) out = append_chain ps (out @ p)"

definition CliHandle_onBody :: "IOBuf option \<Rightarrow> CliHandle \<Rightarrow> CliHandle" where
  "CliHandle_onBody chain h =
     (let h = CliHandle_log (VLOG 5 ''leon_debug onBody'') h
      in case chain of
        None \<Rightarrow> h
      | Some b \<Rightarrow> h\<lparr>ch_output := Some (append_chain (fst b # snd b) [])\<rparr>)"

definition CliHandle_onTrailers :: "HTTPHeaders \<Rightarrow> CliHandle \<Rightarrow> CliHandle" where
  "CliHandle_onTrailers trailers h = CliHandle_log (VLOG 5 ''leon_debug onTrailers'') h"

definition CliHandle_onEOM :: "CliHandle \<Rightarrow> CliHandle" where
  "CliHandle_onEOM h = CliHandle_log (VLOG 5 ''leon_debug onEOM'') h"

definition CliHandle_onUpgrade :: "CliHandle \<Rightarrow> CliHandle" where
  "CliHandle_onUpgrade h = CliHandle_log (VLOG 5 ''Discarding upgrade protocol'') h"

definition CliHandle_onError :: "string \<Rightarrow> CliHandle \<Rightarrow> CliHandle" where
  "CliHandle_onError what h = CliHandle_log (LOG_ERROR (''An error occurred: '' @ what)) h"

definition CliHandle_onEgressPaused :: "CliHandle \<Rightarrow> CliHandle" where
  "CliHandle_onEgressPaused h = (CliHandle_log (VLOG 5 ''Egress paused'') h)\<lparr>ch_egressPaused := True\<rparr>"

definition CliHandle_onEgressResumed :: "CliHandle \<Rightarrow> CliHandle" where
  "CliHandle_onEgressResumed h =
     (let h = (CliHandle_log (VLOG 5 ''Egress resumed'') h)\<lparr>ch_egressPaused := False\<rparr>
      in if length (ch_input h) \<noteq> 0
         then h\<lparr>ch_calls := ch_calls h @ [SendBody (ch_input h), SendEOM]\<rparr> else h)"

fun deliver :: "arrival \<Rightarrow> CliHandle \<Rightarrow> CliHandle" where
  "deliver (OnHeadersComplete msg) h = CliHandle_onHeadersComplete msg h"
| "deliver (OnBody chain) h = CliHandle_onBody chain h"
| "deliver (OnTrailers trailers) h = CliHandle_onTrailers trailers h"
| "deliver OnEOM h = CliHandle_onEOM h"
| "deliver OnUpgrade h = CliHandle_onUpgrade h"
| "deliver (OnError what) h = CliHandle_onError what h"
| "deliver OnEgressPaused h = CliHandle_onEgressPaused h"
| "deliver OnEgressResumed h = CliHandle_onEgressResumed h"
| "deliver DetachTransaction h = CliHandle_detachTransaction h"

text \<open>
  \<open>sendMsg\<close>: the parameter \<open>arrivals\<close> is what the two turns of the event loop deliver, given the
  calls made.
\<close>

definition CliHandle_sendMsg ::
  "'url net_api \<Rightarrow> (txn_call list \<Rightarrow> arrival list) \<Rightarrow> HTTPMethod \<Rightarrow> 'url \<Rightarrow> HTTPHeaders \<Rightarrow> bytes
   \<Rightarrow> CliHandle \<Rightarrow> CliHandle res" where
  "CliHandle_sendMsg api arrivals httpMethod url headers inputStr h =
     (let request = HTTPRequest\<lparr>rq_headers := foldl (\<lambda>hs (header, val). hs @ [(header, val)]) [] headers,
            rq_method := Some httpMethod, rq_version := (1, 1),
            rq_url := makeRelativeURL (url_ops api) url\<rparr>;
          request = request\<lparr>rq_headers := default_headers api url (rq_headers request)\<rparr>
      in if \<not> ch_txn h then Inl NullDeref
      else
      let h = h\<lparr>ch_calls := ch_calls h @ [SendHeaders request]\<rparr>;
          h = (if httpMethod = POST \<or> httpMethod = PUT then
                 let h = h\<lparr>ch_input := inputStr\<rparr>
                 in if length (ch_input h) > 0 then
                      if \<not> ch_egressPaused h
                      then h\<lparr>ch_calls := ch_calls h @ [SendBody (ch_input h)]\<rparr> else h
                    else h
               else h);
          h = h\<lparr>ch_calls := ch_calls h @ [SendEOM]\<rparr>
      in Inr (foldl (\<lambda>h a. deliver a h) h (arrivals (ch_calls h))))"

text \<open>The getters move the response out of the handler.\<close>

definition CliHandle_getRspHeader :: "CliHandle \<Rightarrow> HTTPResponse option \<times> CliHandle" where
  "CliHandle_getRspHeader h = (ch_response h, h\<lparr>ch_response := None\<rparr>)"

definition CliHandle_getRspBody :: "CliHandle \<Rightarrow> bytes option \<times> CliHandle" where
  "CliHandle_getRspBody h = (ch_output h, h\<lparr>ch_output := None\<rparr>)"

section \<open>The pool of one address\<close>

record 'url CliManage =
  cm_addr :: string
  cm_sesses :: "'url CliSession list"

text \<open>
  \<open>emplace_back\<close>: when the vector's capacity is used up, which the parameter \<open>full\<close> decides from the
  size, the elements are moved to the new storage one by one.
\<close>

fun relocate :: "'url CliSession list \<Rightarrow> client_env \<Rightarrow> 'url CliSession list \<times> client_env" where
  "relocate [] e = ([], e)"
| "relocate (c # cs) e =
     (let (c, e) = CliSession_move c e; (cs, e) = relocate cs e in (c # cs, e))"

fun emplace_sessions ::
  "'url net_api \<Rightarrow> (nat \<Rightarrow> bool) \<Rightarrow> string \<Rightarrow> nat \<Rightarrow> 'url CliSession list \<Rightarrow> client_env
   \<Rightarrow> 'url CliSession list \<times> client_env" where
  "emplace_sessions api full addr 0 cs e = (cs, e)"
| "emplace_sessions api full addr (Suc n) cs e =
     (let (c, e) = CliSession_ctor api addr e;
          (cs, e) = (if full (length cs) then relocate cs e else (cs, e))
      in emplace_sessions api full addr n (cs @ [c]) e)"

definition CliManage_ctor ::
  "'url net_api \<Rightarrow> (nat \<Rightarrow> bool) \<Rightarrow> string \<Rightarrow> nat \<Rightarrow> client_env \<Rightarrow> 'url CliManage \<times> client_env" where
  "CliManage_ctor api full addrUrl num e =
     (let (cs, e) = emplace_sessions api full addrUrl num [] e
      in (\<lparr>cm_addr = addrUrl, cm_sesses = cs\<rparr>, e))"

definition CliManage_send ::
  "'url net_api \<Rightarrow> (txn_call list \<Rightarrow> arrival list) \<Rightarrow> client_env \<Rightarrow> string \<Rightarrow> string \<Rightarrow> string \<Rightarrow> bytes
   \<Rightarrow> 'url CliManage \<Rightarrow> bytes \<Rightarrow> (string \<rightharpoonup> string) \<Rightarrow> (bytes \<times> (string \<rightharpoonup> string) \<times> txn_call list) res" where
  "CliManage_send api arrivals e meth url head req m rsp rspHead =
     (if cm_sesses m = [] then Inl OutOfRange
      else case CliSession_getSession (cm_sesses m ! 0) of
        None \<Rightarrow> Inl BadOptional
      | Some sess \<Rightarrow>
          res_bind (CliHandle_ctor sess e) (\<lambda>h.
          case stringToMethod api meth of
            None \<Rightarrow> Inl BadOptional
          | Some httpMethod \<Rightarrow>
              res_bind (CliHandle_sendMsg api arrivals httpMethod
                        (url_parse (url_ops api) (cm_addr m @ url))
                        (parseHeaders (folly_split api) head) req h) (\<lambda>h.
              let (rspp, h) = CliHandle_getRspBody h;
                  rsp = (case rspp of None \<Rightarrow> rsp | Some b \<Rightarrow> b);
                  (header, h) = CliHandle_getRspHeader h
              in case header of
                   None \<Rightarrow> Inl NullDeref
                 | Some msg \<Rightarrow> Inr (rsp, foldl (\<lambda>m x. insert_header x m) rspHead (rsp_headers msg), ch_calls h))))"

section \<open>The factory\<close>

type_synonym 'url CliMap = "string \<rightharpoonup> 'url CliManage list"

text \<open>
  The constructor, given the library's default tick, the function-local static object, which is made at
  the first call, and the timer.
\<close>

definition CliManageFactory_ctor :: "nat \<Rightarrow> 'url CliManage CliManageFactory" where
  "CliManageFactory_ctor default_tick =
     \<lparr>cf_timer = \<lparr>wt_interval = default_tick, wt_timeout = 5000\<rparr>, cf_cliMap = Map.empty\<rparr>"

definition CliManageFactory_singleton ::
  "nat \<Rightarrow> 'url CliManage CliManageFactory option \<Rightarrow> 'url CliManage CliManageFactory" where
  "CliManageFactory_singleton default_tick cmfac =
     (case cmfac of None \<Rightarrow> CliManageFactory_ctor default_tick | Some f \<Rightarrow> f)"

definition CliManageFactory_getTimer :: "'url CliManage CliManageFactory \<Rightarrow> HHWheelTimer" where
  "CliManageFactory_getTimer f = cf_timer f"

text \<open>\<open>addCliManage\<close> is declared to return a \<open>bool\<close> and returns nothing; \<open>cliChgAddr\<close> is empty.\<close>

definition addCliManage ::
  "'url net_api \<Rightarrow> (nat \<Rightarrow> bool) \<Rightarrow> string \<Rightarrow> string \<Rightarrow> nat \<Rightarrow> 'url CliMap \<Rightarrow> client_env
   \<Rightarrow> 'url CliMap \<times> client_env" where
  "addCliManage api full name addrUrl num cliMap e =
     (let cliMap = (if cliMap name = None then cliMap(name \<mapsto> []) else cliMap);
          (m, e) = CliManage_ctor api full addrUrl num e
      in (cliMap(name \<mapsto> (case cliMap name of None \<Rightarrow> [] | Some v \<Rightarrow> v) @ [m]), e))"

definition cliChgAddr :: "AddrOp \<Rightarrow> string \<Rightarrow> string \<Rightarrow> 'url CliMap \<Rightarrow> 'url CliMap" where
  "cliChgAddr op name addr cliMap = cliMap"

text \<open>\<open>None\<close> in the result is the null pointer; \<open>r\<close> is what \<open>rand\<close> returns.\<close>

definition getClient :: "nat \<Rightarrow> string \<Rightarrow> 'url CliMap \<Rightarrow> 'url CliManage option res" where
  "getClient r name cliMap =
     (case cliMap name of
        None \<Rightarrow> Inr None
      | Some cliv \<Rightarrow>
          if length cliv = 0 then Inl DivByZero
          else if r mod length cliv < length cliv then Inr (Some (cliv ! (r mod length cliv)))
          else Inl OutOfRange)"

lemma addCliManage_eq:
  "addCliManage api full name addr num cm e =
     (let (m, e) = CliManage_ctor api full addr num e in (cm(name \<mapsto> pools cm name @ [m]), e))"
  by (simp add: addCliManage_def pools_def Let_def split_beta split: option.splits)

lemma CliManage_ctor_addr: "CliManage_ctor api full addr num e = (m, e') \<Longrightarrow> cm_addr m = addr"
  by (auto simp: CliManage_ctor_def split: prod.splits)

interpretation added_pools: client_factory "addCliManage api full" getClient cm_addr for api full
  by unfold_locales
    (auto simp: addCliManage_eq getClient_def split: prod.splits dest: CliManage_ctor_addr)

section \<open>Lemmas\<close>

lemma append_chain_eq: "append_chain ps out = out @ concat ps"
  by (induction ps arbitrary: out) auto

lemma deliver_parts:
  "foldl (\<lambda>h a. deliver a h) h (map (\<lambda>b. OnBody (Some b)) parts) =
     (if parts = [] then h
      else h\<lparr>ch_output := Some (iobuf_bytes (last parts)),
             ch_log := ch_log h @ replicate (length parts) (VLOG 5 ''leon_debug onBody'')\<rparr>)"
  by (induction parts arbitrary: h)
    (auto simp: CliHandle_onBody_def CliHandle_log_def append_chain_eq iobuf_bytes_def)

text \<open>The request a send makes.\<close>

definition sent_request ::
  "'url net_api \<Rightarrow> HTTPMethod \<Rightarrow> 'url \<Rightarrow> HTTPHeaders \<Rightarrow> HTTPRequest" where
  "sent_request api httpMethod url headers =
     HTTPRequest\<lparr>rq_method := Some httpMethod, rq_version := (1, 1),
       rq_url := makeRelativeURL (url_ops api) url, rq_headers := default_headers api url headers\<rparr>"

lemma sendMsg_calls:
  "CliHandle_sendMsg api arrivals httpMethod url headers inputStr h =
     (if \<not> ch_txn h then Inl NullDeref else
      let h = h\<lparr>ch_input := (if httpMethod = POST \<or> httpMethod = PUT then inputStr else ch_input h),
            ch_calls := ch_calls h @ SendHeaders (sent_request api httpMethod url headers)
              # (if (httpMethod = POST \<or> httpMethod = PUT) \<and> inputStr \<noteq> [] \<and> \<not> ch_egressPaused h
                 then [SendBody inputStr] else []) @ [SendEOM]\<rparr>
      in Inr (foldl (\<lambda>h a. deliver a h) h (arrivals (ch_calls h))))"
  by (cases h) (auto simp: CliHandle_sendMsg_def sent_request_def add_headers Let_def HTTPRequest_def)

lemma relocate_spec:
  "relocate cs e = (cs', e') \<Longrightarrow>
     map cs_sess cs' = map cs_sess cs \<and> env_dead e' = env_dead e \<union> cs_evb ` set cs"
proof (induction cs arbitrary: e cs' e')
  case (Cons c cs)
  obtain d e1 where d: "CliSession_move c e = (d, e1)" by fastforce
  obtain ds e2 where ds: "relocate cs e1 = (ds, e2)" by fastforce
  from Cons.IH [OF ds] Cons.prems d ds show ?case
    by (auto simp: CliSession_move_def)
qed simp

text \<open>What becomes of the first session while more are added.\<close>

lemma emplace_first:
  "emplace_sessions api full addr n (c # cs) e = (cs', e') \<Longrightarrow>
     cs' \<noteq> [] \<and> cs_sess (hd cs') = cs_sess c \<and> env_dead e \<subseteq> env_dead e'
     \<and> (if list_ex full [Suc (length cs)..<Suc (length cs) + n] then cs_evb c \<in> env_dead e'
        else env_dead e' = env_dead e)"
proof (induction n arbitrary: c cs e)
  case (Suc n)
  obtain d e1 where d: "CliSession_ctor api addr e = (d, e1)" by fastforce
  then have e1: "env_dead e1 = env_dead e"
    by (auto simp: CliSession_ctor_def CliSession_connectSuccess_def CliSession_connectError_def Let_def
        split: prod.splits list.splits if_splits)
  have range: "[Suc (length cs)..<Suc (length cs) + Suc n] =
    Suc (length cs) # [Suc (Suc (length cs))..<Suc (Suc (length cs)) + n]"
    by (simp add: upt_conv_Cons)
  show ?case
  proof (cases "full (Suc (length cs))")
    case True
    obtain c1 cs1 e2 where rel: "relocate (c # cs) e1 = (c1 # cs1, e2)"
      by (auto simp: split_beta)
    have rel': "cs_sess c1 = cs_sess c" "length cs1 = length cs"
      "env_dead e2 = env_dead e \<union> cs_evb ` set (c # cs)"
      using relocate_spec [OF rel] e1 by (auto dest: map_eq_imp_length_eq)
    have "emplace_sessions api full addr n (c1 # (cs1 @ [d])) e2 = (cs', e')"
      using Suc.prems True d rel by simp
    from Suc.IH [OF this] rel' have "cs' \<noteq> []" "cs_sess (hd cs') = cs_sess c"
      "env_dead e \<subseteq> env_dead e'" "cs_evb c \<in> env_dead e'"
      by (auto simp del: upt_Suc split: if_splits)
    moreover have "list_ex full [Suc (length cs)..<Suc (length cs) + Suc n]"
      unfolding range using True by simp
    ultimately show ?thesis by simp
  next
    case False
    have "emplace_sessions api full addr n (c # (cs @ [d])) e1 = (cs', e')"
      using Suc.prems False d by simp
    from Suc.IH [OF this] e1 have "cs' \<noteq> []" "cs_sess (hd cs') = cs_sess c"
      "env_dead e \<subseteq> env_dead e'"
      "if list_ex full [Suc (Suc (length cs))..<Suc (Suc (length cs)) + n] then cs_evb c \<in> env_dead e'
       else env_dead e' = env_dead e"
      by (simp_all del: upt_Suc)
    then show ?thesis unfolding range using False by (simp del: upt_Suc)
  qed
qed auto

text \<open>What the vector's growth leaves of the environment besides.\<close>

lemma relocate_busy: "relocate cs e = (cs', e') \<Longrightarrow> env_busy e' = env_busy e"
proof (induction cs arbitrary: e cs' e')
  case (Cons c cs)
  obtain ds e2 where "relocate cs (snd (CliSession_move c e)) = (ds, e2)" by fastforce
  with Cons.IH [OF this] Cons.prems show ?case by (auto simp: CliSession_move_def)
qed simp

lemma CliSession_ctor_busy: "CliSession_ctor api addr e = (c, e') \<Longrightarrow> env_busy e' = env_busy e"
  by (auto simp: CliSession_ctor_def CliSession_connectSuccess_def CliSession_connectError_def Let_def
      split: prod.splits list.splits if_splits)

lemma emplace_busy:
  "emplace_sessions api full addr n cs e = (cs', e') \<Longrightarrow> env_busy e' = env_busy e"
proof (induction n arbitrary: cs e)
  case (Suc n)
  obtain d e1 where d: "CliSession_ctor api addr e = (d, e1)" by fastforce
  obtain cs2 e2 where rel: "(if full (length cs) then relocate cs e1 else (cs, e1)) = (cs2, e2)" by fastforce
  have "emplace_sessions api full addr n (cs2 @ [d]) e2 = (cs', e')"
    using Suc.prems d rel by (simp split: if_splits)
  from Suc.IH [OF this] have "env_busy e' = env_busy e2" .
  also have "\<dots> = env_busy e1" using rel by (auto split: if_splits dest: relocate_busy)
  finally show ?case using CliSession_ctor_busy [OF d] by simp
qed simp

lemma CliManage_ctor_busy: "CliManage_ctor api full addr num e = (m, e') \<Longrightarrow> env_busy e' = env_busy e"
  by (auto simp: CliManage_ctor_def split: prod.splits dest: emplace_busy)

text \<open>
  The calls of a send. On a live session what it returns is read off the handler when the callbacks have
  arrived; a session that takes no further transaction gives a null pointer, which is used.
\<close>

definition send_calls :: "'url net_api \<Rightarrow> HTTPMethod \<Rightarrow> string \<Rightarrow> string \<Rightarrow> bytes \<Rightarrow> txn_call list" where
  "send_calls api httpMethod addrUrl head req =
     [NewTransaction, SendHeaders (sent_request api httpMethod (url_parse (url_ops api) addrUrl)
        (parseHeaders (folly_split api) head))]
     @ (if (httpMethod = POST \<or> httpMethod = PUT) \<and> req \<noteq> [] then [SendBody req] else []) @ [SendEOM]"

definition sent_handle :: "nat \<Rightarrow> HTTPMethod \<Rightarrow> bytes \<Rightarrow> txn_call list \<Rightarrow> CliHandle" where
  "sent_handle evb httpMethod req calls =
     \<lparr>ch_evb = evb, ch_txn = True, ch_response = None, ch_output = None, ch_egressPaused = False,
      ch_input = (if httpMethod = POST \<or> httpMethod = PUT then req else []), ch_calls = calls, ch_log = []\<rparr>"

lemma send_run:
  assumes "cm_sesses m = c # cs" and "cs_sess c = Session evb" and "evb \<notin> env_dead e"
    and "stringToMethod api meth = Some httpMethod"
    and "calls = send_calls api httpMethod (cm_addr m @ url) head req"
  shows "CliManage_send api arrivals e meth url head req m rsp rspHead =
    (if evb \<in> env_busy e then Inl NullDeref
     else let h = foldl (\<lambda>h a. deliver a h) (sent_handle evb httpMethod req calls) (arrivals calls)
       in case ch_response h of
            None \<Rightarrow> Inl NullDeref
          | Some msg \<Rightarrow> Inr (case ch_output h of None \<Rightarrow> rsp | Some b \<Rightarrow> b, map_of (rsp_headers msg) ++ rspHead, ch_calls h))"
  using assms
  by (simp add: CliManage_send_def CliSession_getSession_def CliHandle_ctor_def sendMsg_calls send_calls_def
      sent_handle_def CliHandle_getRspBody_def CliHandle_getRspHeader_def insert_headers Let_def
      split: option.splits)

lemma first_session:
  assumes "CliManage_ctor api full addr (Suc n) e = (m, e')"
    and "case env_connect e of [] \<Rightarrow> True | b # bs \<Rightarrow> b" and "env_fresh e \<notin> env_dead e \<union> env_busy e"
  obtains c cs where "cm_sesses m = c # cs" and "cs_sess c = Session (env_fresh e)"
    and "env_fresh e \<in> env_dead e' \<longleftrightarrow> list_ex full [1..<Suc n]" and "cm_addr m = addr"
    and "env_fresh e \<notin> env_busy e'"
proof -
  obtain c e1 where c: "CliSession_ctor api addr e = (c, e1)" by fastforce
  with assms(2) have c': "cs_sess c = Session (env_fresh e)" "cs_evb c = env_fresh e" "env_dead e1 = env_dead e"
    by (auto simp: CliSession_ctor_def CliSession_connectSuccess_def CliSession_connectError_def Let_def
        split: prod.splits list.splits if_splits)
  obtain cs' where em: "emplace_sessions api full addr n [c] e1 = (cs', e')" and m: "cm_sesses m = cs'" "cm_addr m = addr"
    using assms(1) c by (auto simp: CliManage_ctor_def split: prod.splits if_splits)
  from emplace_first [OF em] c' m assms(3) CliManage_ctor_busy [OF assms(1)] show thesis
    by (cases cs') (auto simp del: upt_Suc split: if_splits intro: that)
qed

lemma one_session:
  assumes "CliManage_ctor api full addr 1 e = (m, e')"
    and "case env_connect e of [] \<Rightarrow> True | b # bs \<Rightarrow> b" and "env_fresh e \<notin> env_dead e \<union> env_busy e"
  obtains c cs where "cm_sesses m = c # cs" and "cs_sess c = Session (env_fresh e)"
    and "env_fresh e \<notin> env_dead e'" and "env_fresh e \<notin> env_busy e'" and "cm_addr m = addr"
proof -
  have "CliManage_ctor api full addr (Suc 0) e = (m, e')" using assms(1) by simp
  from first_session [OF this assms(2,3)] show thesis by (auto intro: that)
qed

text \<open>What a list of callbacks leaves in the handler.\<close>

lemma deliver_whole:
  "foldl (\<lambda>h a. deliver a h) h (OnHeadersComplete msg # map (\<lambda>b. OnBody (Some b)) parts @ [OnEOM, DetachTransaction]) =
     h\<lparr>ch_response := Some msg, ch_output := (if parts = [] then ch_output h else Some (iobuf_bytes (last parts))),
       ch_log := ch_log h @ VLOG 5 ''leon_debug onHeadersComplete'' # replicate (length parts) (VLOG 5 ''leon_debug onBody'')
         @ [VLOG 5 ''leon_debug onEOM'', VLOG 5 ''leon_debug detach txn'']\<rparr>"
  by (cases h) (simp add: deliver_parts CliHandle_onHeadersComplete_def CliHandle_onEOM_def CliHandle_detachTransaction_def
      CliHandle_log_def)

lemma send_one_session:
  assumes "CliManage_ctor api full addr 1 e = (m, e')"
    and "case env_connect e of [] \<Rightarrow> True | b # bs \<Rightarrow> b" and "env_fresh e \<notin> env_dead e \<union> env_busy e"
    and "stringToMethod api meth = Some httpMethod"
    and "arrivals (send_calls api httpMethod (addr @ url) head req)
      = OnHeadersComplete msg # map (\<lambda>b. OnBody (Some b)) parts @ [OnEOM, DetachTransaction]"
  shows "CliManage_send api arrivals e' meth url head req m rsp rspHead =
    Inr (if parts = [] then rsp else iobuf_bytes (last parts), map_of (rsp_headers msg) ++ rspHead,
      send_calls api httpMethod (addr @ url) head req)"
proof -
  from one_session [OF assms(1-3)] obtain c cs where
    "cm_sesses m = c # cs" "cs_sess c = Session (env_fresh e)" "env_fresh e \<notin> env_dead e'"
    "env_fresh e \<notin> env_busy e'" "cm_addr m = addr" .
  with send_run [OF this(1-3) assms(4) refl] assms(5) show ?thesis
    by (simp add: deliver_whole sent_handle_def Let_def del: foldl_append foldl_Cons)
qed

text \<open>The same send when the transaction ends in an error before any header has arrived.\<close>

lemma send_one_session_error:
  assumes "CliManage_ctor api full addr 1 e = (m, e')"
    and "case env_connect e of [] \<Rightarrow> True | b # bs \<Rightarrow> b" and "env_fresh e \<notin> env_dead e \<union> env_busy e"
    and "stringToMethod api meth = Some httpMethod"
    and "arrivals (send_calls api httpMethod (addr @ url) head req) = [OnError what, DetachTransaction]"
  shows "CliManage_send api arrivals e' meth url head req m rsp rspHead = Inl NullDeref"
proof -
  from one_session [OF assms(1-3)] obtain c cs where
    "cm_sesses m = c # cs" "cs_sess c = Session (env_fresh e)" "env_fresh e \<notin> env_dead e'"
    "env_fresh e \<notin> env_busy e'" "cm_addr m = addr" .
  with send_run [OF this(1-3) assms(4) refl] assms(5) show ?thesis
    by (simp add: sent_handle_def CliHandle_onError_def CliHandle_detachTransaction_def CliHandle_log_def Let_def)
qed

section \<open>Properties\<close>

text \<open>
  C22. One send of the pooled client, on a session whose event base is alive and with an answer of a
  header, any parts of a body and an end: the request goes out with the parsed and the default
  headers, with the body only for POST and PUT when it is not empty, and ends once; the answer's
  headers are merged, a name already in the map keeping its value and the first of two equal names
  counting; and the body the caller gets is that of the last part alone, or its old string when
  there was none.
\<close>

theorem client_send_result:
  assumes "CliManage_ctor api full addr 1 e = (m, e')"
    and "case env_connect e of [] \<Rightarrow> True | b # bs \<Rightarrow> b" and "env_fresh e \<notin> env_dead e \<union> env_busy e"
    and "stringToMethod api meth = Some httpMethod"
    and "\<And>calls. arrivals calls = OnHeadersComplete msg # map (\<lambda>b. OnBody (Some b)) parts @ [OnEOM, DetachTransaction]"
  shows "CliManage_send api arrivals e' meth url head req m rsp rspHead =
    Inr (if parts = [] then rsp else iobuf_bytes (last parts), map_of (rsp_headers msg) ++ rspHead,
      [NewTransaction, SendHeaders (sent_request api httpMethod (url_parse (url_ops api) (addr @ url))
         (parseHeaders (folly_split api) head))]
      @ (if (httpMethod = POST \<or> httpMethod = PUT) \<and> req \<noteq> [] then [SendBody req] else []) @ [SendEOM])"
  using send_one_session [OF assms(1-4), of arrivals url head req msg parts rsp rspHead] assms(5)
  by (simp add: send_calls_def)

theorem client_send_result_witness:
  "\<exists>m e' hs calls.
     CliManage_ctor ref_net (\<lambda>_. True) ''h'' 1 fresh_env = (m, e')
     \<and> CliManage_send ref_net (\<lambda>_. [OnHeadersComplete \<lparr>rsp_status = 200, rsp_headers = [(''k'', ''v'')]\<rparr>,
         OnBody (Some ([1], [[2]])), OnBody (Some ([3], [])), OnEOM, DetachTransaction]) e' ''POST'' ''/x'' [] [7] m [] Map.empty
       = Inr ([3], hs, calls)
     \<and> hs ''k'' = Some ''v'' \<and> drop 2 calls = [SendBody [7], SendEOM]"
proof -
  let ?msg = "\<lparr>rsp_status = 200, rsp_headers = [(''k'', ''v'')]\<rparr>"
  obtain m e' where m: "CliManage_ctor ref_net (\<lambda>_. True) ''h'' 1 fresh_env = (m, e')"
    by fastforce
  have "stringToMethod ref_net ''POST'' = Some POST" by (simp add: ref_net_def)
  from client_send_result [OF m _ _ this, of "\<lambda>_. OnHeadersComplete ?msg # map (\<lambda>b. OnBody (Some b))
      [([1], [[2]]), ([3], [])] @ [OnEOM, DetachTransaction]" ?msg "[([1], [[2]]), ([3], [])]" "''/x''" "[]" "[7]" "[]" Map.empty]
  show ?thesis using m by (simp add: iobuf_bytes_def)
qed

text \<open>
  C24. A pool loses its first session when its vector grows: if any session added after the first
  makes the vector move its elements, then every send of the pool runs on a destroyed event base;
  otherwise no send does.
\<close>

theorem growing_pool_dangles:
  assumes "CliManage_ctor api full addr (Suc n) e = (m, e')"
    and "case env_connect e of [] \<Rightarrow> True | b # bs \<Rightarrow> b" and "env_fresh e \<notin> env_dead e \<union> env_busy e"
  shows "CliManage_send api arrivals e' meth url head req m rsp rspHead = Inl UseAfterFree
    \<longleftrightarrow> list_ex full [1..<Suc n]"
proof -
  from first_session [OF assms] obtain c cs where
    "cm_sesses m = c # cs" "cs_sess c = Session (env_fresh e)"
    and dead: "env_fresh e \<in> env_dead e' \<longleftrightarrow> list_ex full [1..<Suc n]"
    by blast
  then show ?thesis
    by (auto simp: CliManage_send_def CliSession_getSession_def CliHandle_ctor_def CliHandle_getRspBody_def
        CliHandle_getRspHeader_def sendMsg_calls Let_def simp del: upt_Suc split: option.splits)
qed

theorem growing_pool_dangles_witness:
  "\<exists>m e'. CliManage_ctor ref_net (\<lambda>n. n = 1) ''h'' 2 fresh_env = (m, e')
     \<and> CliManage_send ref_net (\<lambda>_. []) e' ''GET'' ''/x'' [] [] m [] Map.empty = Inl UseAfterFree"
proof -
  obtain m e' where m: "CliManage_ctor ref_net (\<lambda>n. n = 1) ''h'' 2 fresh_env = (m, e')"
    by fastforce
  then have "CliManage_ctor ref_net (\<lambda>n. n = 1) ''h'' (Suc 1) fresh_env = (m, e')"
    by (simp only: numeral_2_eq_2 One_nat_def)
  from growing_pool_dangles [OF this] m show ?thesis by auto
qed



end
