(* ===== verification/CurlPool.thy ===== *)
theory CurlPool
  imports ClientFactory
begin

text \<open>
  The older pooled client of feature-server/back-code/curl (CurlClient.h, CurlClient.cpp, HttpCli.h,
  HttpCli.cpp): one long-lived client object per connection, which keeps its request, its body and
  its response from one send to the next, and the pool that picks a connection at random.
\<close>

section \<open>State\<close>

text \<open>
  \<open>outputStr_\<close> has no initialiser, and is a pointer to a string of the caller afterwards. The world
  holds those strings, the calls made on each transaction, the number of the next transaction, the
  transactions whose handler has been destroyed, what was printed and what was logged.
\<close>

datatype out_ptr = Garbage | Null | Out nat

record pool_world =
  pw_mem :: "nat \<rightharpoonup> bytes"
  pw_calls :: "(nat \<times> txn_call) list"
  pw_fresh :: nat
  pw_gone :: "nat list"
  pw_printed :: bytes
  pw_log :: "log_line list"

record PushHandler =
  ph_seenOnHeadersComplete :: bool
  ph_pushedTxn :: "nat option"
  ph_promise :: "HTTPResponse option"
  ph_response :: "HTTPResponse option"

record 'url CurlClient =
  cc_txn :: "nat option"
  cc_session :: bool
  cc_httpMethod :: "HTTPMethod option"
  cc_urlPrefix :: string
  cc_url :: 'url
  cc_request :: HTTPRequest
  cc_recvWindow :: i32
  cc_loggingEnabled :: bool
  cc_h2c :: bool
  cc_httpMajor :: "16 word"
  cc_httpMinor :: "16 word"
  cc_egressPaused :: bool
  cc_partiallyReliable :: bool
  cc_inputStr :: bytes
  cc_outputStr :: out_ptr
  cc_response :: "HTTPResponse option"
  cc_pushTxnHandlers :: "PushHandler list"
  cc_eomFunc :: "(pool_world \<Rightarrow> pool_world) option"

definition CurlClient_ctor ::
  "string \<Rightarrow> 'url \<Rightarrow> bool \<Rightarrow> 16 word \<Rightarrow> 16 word \<Rightarrow> bool \<Rightarrow> 'url CurlClient" where
  "CurlClient_ctor urlPrefix url h2c httpMajor httpMinor pr =
     \<lparr>cc_txn = None, cc_session = False, cc_httpMethod = None, cc_urlPrefix = urlPrefix, cc_url = url,
      cc_request = HTTPRequest, cc_recvWindow = 0, cc_loggingEnabled = False, cc_h2c = h2c,
      cc_httpMajor = httpMajor, cc_httpMinor = httpMinor, cc_egressPaused = False,
      cc_partiallyReliable = pr, cc_inputStr = [], cc_outputStr = Garbage, cc_response = None,
      cc_pushTxnHandlers = [], cc_eomFunc = None\<rparr>"

section \<open>Setters\<close>

definition CurlClient_setFlowControlSettings :: "i32 \<Rightarrow> 'url CurlClient \<Rightarrow> 'url CurlClient" where
  "CurlClient_setFlowControlSettings recvWindow c = c\<lparr>cc_recvWindow := recvWindow\<rparr>"

definition CurlClient_setSendMsg :: "bytes \<Rightarrow> 'url CurlClient \<Rightarrow> 'url CurlClient" where
  "CurlClient_setSendMsg req c = c\<lparr>cc_inputStr := req\<rparr>"

definition CurlClient_setRespMsg :: "out_ptr \<Rightarrow> 'url CurlClient \<Rightarrow> 'url CurlClient" where
  "CurlClient_setRespMsg rsp c = c\<lparr>cc_outputStr := rsp\<rparr>"

text \<open>Each header is added to those the request already has.\<close>

definition CurlClient_setHeader :: "HTTPHeaders \<Rightarrow> 'url CurlClient \<Rightarrow> 'url CurlClient" where
  "CurlClient_setHeader headers c =
     c\<lparr>cc_request := (cc_request c)\<lparr>rq_headers :=
       foldl (\<lambda>hs (header, val). hs @ [(header, val)]) (rq_headers (cc_request c)) headers\<rparr>\<rparr>"

definition CurlClient_setMethod :: "HTTPMethod \<Rightarrow> 'url CurlClient \<Rightarrow> 'url CurlClient" where
  "CurlClient_setMethod httpMethod c = c\<lparr>cc_httpMethod := Some httpMethod\<rparr>"

definition CurlClient_setUrl :: "'url net_api \<Rightarrow> string \<Rightarrow> 'url CurlClient \<Rightarrow> 'url CurlClient" where
  "CurlClient_setUrl api url c = c\<lparr>cc_url := url_parse (url_ops api) (cc_urlPrefix c @ url)\<rparr>"

definition CurlClient_parseHeaders :: "(char \<Rightarrow> string \<Rightarrow> string list) \<Rightarrow> string \<Rightarrow> HTTPHeaders" where
  "CurlClient_parseHeaders split headersString =
     foldl (\<lambda>headers headerPair. parse_pair split headerPair headers) [] (split CHR '','' headersString)"

lemma CurlClient_parseHeaders_eq [simp]: "CurlClient_parseHeaders = parseHeaders"
  by (simp add: fun_eq_iff CurlClient_parseHeaders_def parseHeaders_def)

definition CurlClient_getResponse :: "'url CurlClient \<Rightarrow> HTTPResponse option" where
  [simp]: "CurlClient_getResponse c = cc_response c"

definition CurlClient_hasConnect :: "'url CurlClient \<Rightarrow> bool" where
  "CurlClient_hasConnect c = (cc_txn c \<noteq> None)"

definition CurlClient_setLogging :: "bool \<Rightarrow> 'url CurlClient \<Rightarrow> 'url CurlClient" where
  "CurlClient_setLogging enabled c = c\<lparr>cc_loggingEnabled := enabled\<rparr>"

definition CurlClient_setEOMFunc :: "(pool_world \<Rightarrow> pool_world) \<Rightarrow> 'url CurlClient \<Rightarrow> 'url CurlClient" where
  "CurlClient_setEOMFunc eomFunc c = c\<lparr>cc_eomFunc := Some eomFunc\<rparr>"

definition CurlClient_initializeSsl ::
  "'url net_api \<Rightarrow> string \<Rightarrow> string \<Rightarrow> string \<Rightarrow> string \<Rightarrow> 'url CurlClient \<Rightarrow> ssl_context \<times> 'url CurlClient" where
  "CurlClient_initializeSsl api caPath nextProtos certPath keyPath c =
     (\<lparr>ssl_trusted = (if caPath \<noteq> [] then Some caPath else None),
       ssl_cert_key = (if certPath \<noteq> [] \<and> keyPath \<noteq> [] then Some (certPath, keyPath) else None),
       ssl_protocols = folly_split api CHR '','' nextProtos\<rparr>,
      c\<lparr>cc_h2c := False\<rparr>)"

text \<open>\<open>LOG\<close>, \<open>VLOG\<close> and \<open>LOG_IF\<close>.\<close>

definition pool_log :: "log_line \<Rightarrow> pool_world \<Rightarrow> pool_world" where
  "pool_log l w = w\<lparr>pw_log := pw_log w @ [l]\<rparr>"

definition pool_log_if :: "bool \<Rightarrow> log_line \<Rightarrow> pool_world \<Rightarrow> pool_world" where
  "pool_log_if b l w = (if b then pool_log l w else w)"

text \<open>A session that is not a TLS one casts to the null pointer.\<close>

definition CurlClient_sslHandshakeFollowup :: "transport \<Rightarrow> pool_world \<Rightarrow> pool_world res" where
  "CurlClient_sslHandshakeFollowup t w =
     (case t of
        PlainSocket \<Rightarrow> Inl NullDeref
      | SSLSocket nextProto \<Rightarrow>
          (case nextProto of
             Some p \<Rightarrow> Inr (pool_log (VLOG 1 (''Client selected next protocol '' @ p)) w)
           | None \<Rightarrow> Inr (pool_log (VLOG 1 ''Client did not select a next protocol'') w)))"

section \<open>Sending\<close>

definition CurlClient_setupHeaders :: "'url net_api \<Rightarrow> 'url CurlClient \<Rightarrow> 'url CurlClient" where
  "CurlClient_setupHeaders api c =
     (let u = url_ops api;
          rq = (cc_request c)\<lparr>rq_method := cc_httpMethod c,
            rq_version := (cc_httpMajor c, cc_httpMinor c),
            rq_url := makeRelativeURL u (cc_url c),
            rq_secure := isSecure u (cc_url c)\<rparr>;
          rq = (if cc_h2c c then requestUpgrade api rq else rq);
          rq = rq\<lparr>rq_headers := default_headers api (cc_url c) (rq_headers rq)\<rparr>;
          rq = (if cc_partiallyReliable c then rq\<lparr>rq_partiallyReliable := True\<rparr> else rq)
      in c\<lparr>cc_request := rq\<rparr>)"

definition on_txn :: "nat \<Rightarrow> txn_call list \<Rightarrow> pool_world \<Rightarrow> pool_world" where
  "on_txn t cs w = w\<lparr>pw_calls := pw_calls w @ map (\<lambda>c. (t, c)) cs\<rparr>"

text \<open>\<open>session->newTransaction(this)\<close>.\<close>

definition newTransaction :: "pool_world \<Rightarrow> nat \<times> pool_world" where
  "newTransaction w = (pw_fresh w, on_txn (pw_fresh w) [NewTransaction] (w\<lparr>pw_fresh := Suc (pw_fresh w)\<rparr>))"

text \<open>
  A null argument asks for a new transaction of the stored session. The line logged shows a pointer:
  here the number of the transaction.
\<close>

definition CurlClient_sendRequest ::
  "'url net_api \<Rightarrow> nat option \<Rightarrow> 'url CurlClient \<Rightarrow> pool_world \<Rightarrow> ('url CurlClient \<times> pool_world) res" where
  "CurlClient_sendRequest api txn c w =
     res_bind
       (case txn of
          Some t \<Rightarrow> Inr (t, w)
        | None \<Rightarrow> if cc_session c then Inr (newTransaction w) else Inl NullDeref) (\<lambda>(t, w).
     let c = CurlClient_setupHeaders api (c\<lparr>cc_txn := Some t\<rparr>);
         w = pool_log (LOG_INFO (''leon_debug '' @ dec_string t)) w;
         w = on_txn t [SendHeaders (cc_request c)] w
     in if cc_httpMethod c = Some POST \<or> cc_httpMethod c = Some PUT then
          if length (cc_inputStr c) \<noteq> 0 then
            if \<not> cc_egressPaused c then Inr (c, on_txn t [SendBody (cc_inputStr c), SendEOM] w)
            else Inr (c, w)
          else Inr (c, w)
        else Inr (c, on_txn t [SendEOM] w))"

definition CurlClient_connectSuccess ::
  "'url net_api \<Rightarrow> transport \<Rightarrow> 'url CurlClient \<Rightarrow> pool_world \<Rightarrow> ('url CurlClient \<times> pool_world) res" where
  "CurlClient_connectSuccess api tr c w =
     res_bind (if isSecure (url_ops api) (cc_url c) then CurlClient_sslHandshakeFollowup tr w else Inr w) (\<lambda>w.
     let n = cc_recvWindow c;
         (t, w) = newTransaction (on_txn (pw_fresh w) [SetFlowControl n n n] w)
     in res_bind (CurlClient_sendRequest api (Some t) c w) (\<lambda>(c, w).
          Inr (c\<lparr>cc_session := True\<rparr>, w)))"

definition CurlClient_connectError ::
  "'url net_api \<Rightarrow> string \<Rightarrow> 'url CurlClient \<Rightarrow> pool_world \<Rightarrow> pool_world" where
  "CurlClient_connectError api ex c w =
     pool_log_if (cc_loggingEnabled c)
       (LOG_ERROR (''Coudln't connect to '' @ getHostAndPort (url_ops api) (cc_url c) @ '':'' @ ex)) w"

section \<open>Callbacks\<close>

definition CurlClient_printMessageImpl :: "string \<Rightarrow> 'url CurlClient \<Rightarrow> pool_world \<Rightarrow> pool_world" where
  "CurlClient_printMessageImpl tag c w =
     (if \<not> cc_loggingEnabled c then w else w\<lparr>pw_printed := pw_printed w @ ascii (tag @ [CHR 0x0A])\<rparr>)"

definition CurlClient_onHeadersComplete ::
  "HTTPResponse \<Rightarrow> 'url CurlClient \<Rightarrow> pool_world \<Rightarrow> 'url CurlClient \<times> pool_world" where
  "CurlClient_onHeadersComplete msg c w =
     (c\<lparr>cc_response := Some msg\<rparr>, CurlClient_printMessageImpl [] c w)"

fun append_to :: "nat \<Rightarrow> bytes list \<Rightarrow> pool_world \<Rightarrow> pool_world res" where
  "append_to a [] w = Inr w"
| "append_to a (p # ps) w =
     (case pw_mem w a of
        None \<Rightarrow> Inl UseAfterFree
      | Some s \<Rightarrow> append_to a ps (w\<lparr>pw_mem := (pw_mem w)(a \<mapsto> s @ p)\<rparr>))"

definition CurlClient_onBody ::
  "IOBuf option \<Rightarrow> 'url CurlClient \<Rightarrow> pool_world \<Rightarrow> pool_world res" where
  "CurlClient_onBody chain c w =
     (case cc_outputStr c of
        Null \<Rightarrow> Inl CheckFailed
      | Garbage \<Rightarrow> (case chain of None \<Rightarrow> Inr w | Some b \<Rightarrow> Inl WildPointer)
      | Out a \<Rightarrow> (case chain of None \<Rightarrow> Inr w | Some b \<Rightarrow> append_to a (fst b # snd b) w))"

definition CurlClient_onEOM :: "'url CurlClient \<Rightarrow> pool_world \<Rightarrow> pool_world" where
  "CurlClient_onEOM c w =
     (let w = pool_log_if (cc_loggingEnabled c) (LOG_INFO ''Got EOM'') w
      in case cc_eomFunc c of None \<Rightarrow> w | Some f \<Rightarrow> f w)"

definition CurlClient_onTrailers :: "'url CurlClient \<Rightarrow> pool_world \<Rightarrow> pool_world" where
  "CurlClient_onTrailers c w = pool_log_if (cc_loggingEnabled c) (LOG_INFO ''Discarding trailers'') w"

definition CurlClient_onUpgrade :: "'url CurlClient \<Rightarrow> pool_world \<Rightarrow> pool_world" where
  "CurlClient_onUpgrade c w = pool_log_if (cc_loggingEnabled c) (LOG_INFO ''Discarding upgrade protocol'') w"

definition CurlClient_onError :: "string \<Rightarrow> 'url CurlClient \<Rightarrow> pool_world \<Rightarrow> pool_world" where
  "CurlClient_onError what c w =
     pool_log_if (cc_loggingEnabled c) (LOG_ERROR (''An error occurred: '' @ what)) w"

text \<open>Both have an empty body.\<close>

definition CurlClient_setTransaction :: "nat \<Rightarrow> 'url CurlClient \<Rightarrow> 'url CurlClient" where
  "CurlClient_setTransaction txn c = c"

definition CurlClient_detachTransaction :: "'url CurlClient \<Rightarrow> 'url CurlClient" where
  "CurlClient_detachTransaction c = c"

definition CurlClient_onEgressPaused :: "'url CurlClient \<Rightarrow> pool_world \<Rightarrow> 'url CurlClient \<times> pool_world" where
  "CurlClient_onEgressPaused c w =
     (c\<lparr>cc_egressPaused := True\<rparr>, pool_log_if (cc_loggingEnabled c) (LOG_INFO ''Egress paused'') w)"

definition CurlClient_onEgressResumed ::
  "'url CurlClient \<Rightarrow> pool_world \<Rightarrow> ('url CurlClient \<times> pool_world) res" where
  "CurlClient_onEgressResumed c w =
     (let w = pool_log_if (cc_loggingEnabled c) (LOG_INFO ''Egress resumed'') w;
          c = c\<lparr>cc_egressPaused := False\<rparr>
      in if length (cc_inputStr c) \<noteq> 0 then
           (case cc_txn c of
              None \<Rightarrow> Inl NullDeref
            | Some t \<Rightarrow> Inr (c, on_txn t [SendBody (cc_inputStr c), SendEOM] w))
         else Inr (c, w))"

definition PushHandler_ctor :: PushHandler where
  "PushHandler_ctor = \<lparr>ph_seenOnHeadersComplete = False, ph_pushedTxn = None, ph_promise = None, ph_response = None\<rparr>"

definition CurlClient_onPushedTransaction ::
  "nat \<Rightarrow> 'url CurlClient \<Rightarrow> pool_world \<Rightarrow> 'url CurlClient \<times> pool_world" where
  "CurlClient_onPushedTransaction pushedTxn c w =
     (let c = c\<lparr>cc_pushTxnHandlers := cc_pushTxnHandlers c @ [PushHandler_ctor]\<rparr>
      in (c, on_txn pushedTxn [SetHandler (length (cc_pushTxnHandlers c) - 1)] w))"

definition CurlClient_getServerName :: "'url net_api \<Rightarrow> 'url CurlClient \<Rightarrow> string" where
  "CurlClient_getServerName api c =
     (let vs = filter (\<lambda>h. is_common api HTTP_HEADER_HOST (fst h)) (rq_headers (cc_request c));
          res = (if length vs = 1 then snd (hd vs) else [])
      in if res = [] then getHost (url_ops api) (cc_url c) else res)"

definition PushHandler_onHeadersComplete ::
  "HTTPResponse \<Rightarrow> 'url CurlClient \<Rightarrow> PushHandler \<Rightarrow> pool_world \<Rightarrow> PushHandler \<times> pool_world" where
  "PushHandler_onHeadersComplete msg parent h w =
     (if \<not> ph_seenOnHeadersComplete h
      then (h\<lparr>ph_seenOnHeadersComplete := True, ph_promise := Some msg\<rparr>,
            CurlClient_printMessageImpl ''[PP] '' parent w)
      else (h\<lparr>ph_response := Some msg\<rparr>, CurlClient_printMessageImpl ''[PR] '' parent w))"

definition PushHandler_onBody ::
  "IOBuf option \<Rightarrow> 'url CurlClient \<Rightarrow> pool_world \<Rightarrow> pool_world res" where
  "PushHandler_onBody chain parent w = CurlClient_onBody chain parent w"

definition PushHandler_setTransaction ::
  "nat \<Rightarrow> 'url CurlClient \<Rightarrow> PushHandler \<Rightarrow> pool_world \<Rightarrow> PushHandler \<times> pool_world" where
  "PushHandler_setTransaction txn parent h w =
     (h\<lparr>ph_pushedTxn := Some txn\<rparr>,
      pool_log_if (cc_loggingEnabled parent) (LOG_INFO ''Received pushed transaction'') w)"

definition PushHandler_detachTransaction :: "'url CurlClient \<Rightarrow> pool_world \<Rightarrow> pool_world" where
  "PushHandler_detachTransaction parent w =
     pool_log_if (cc_loggingEnabled parent) (LOG_INFO ''Detached pushed transaction'') w"

definition PushHandler_onEOM :: "'url CurlClient \<Rightarrow> pool_world \<Rightarrow> pool_world" where
  "PushHandler_onEOM parent w = pool_log_if (cc_loggingEnabled parent) (LOG_INFO ''Got PushTxn EOM'') w"

definition PushHandler_onError :: "string \<Rightarrow> 'url CurlClient \<Rightarrow> pool_world \<Rightarrow> pool_world" where
  "PushHandler_onError what parent w = CurlClient_onError what parent w"

text \<open>Trailers, upgrades, pauses and resumptions of a pushed transaction are ignored.\<close>

definition PushHandler_ignored :: "PushHandler \<Rightarrow> PushHandler" where
  "PushHandler_ignored h = h"

section \<open>The pool\<close>

record 'url CurlManage =
  hm_addr :: "string \<times> 16 word"
  hm_conns :: "'url CurlClient list"
  hm_num :: nat

text \<open>The loop that makes the connections; \<open>i\<close> counts those made.\<close>

fun make_conns :: "string \<Rightarrow> 'url \<Rightarrow> nat \<Rightarrow> 'url CurlClient list" where
  "make_conns addrUrl url 0 = []"
| "make_conns addrUrl url (Suc i) =
     make_conns addrUrl url i
       @ [CurlClient_setFlowControlSettings 65536 (CurlClient_ctor addrUrl url False 1 1 False)]"

definition CurlManage_ctor :: "'url net_api \<Rightarrow> string \<Rightarrow> nat \<Rightarrow> 'url CurlManage" where
  "CurlManage_ctor api addrUrl num =
     (let url = url_parse (url_ops api) addrUrl
      in \<lparr>hm_addr = (getHost (url_ops api) url, getPort (url_ops api) url),
          hm_conns = make_conns addrUrl url num, hm_num = num\<rparr>)"

text \<open>The callbacks of a pushed transaction run on its handler, which may reach into the client.\<close>

fun on_pushed ::
  "push_callback \<Rightarrow> 'url CurlClient \<Rightarrow> PushHandler \<Rightarrow> pool_world \<Rightarrow> (PushHandler \<times> pool_world) res" where
  "on_pushed (PushSetTransaction t) parent h w = Inr (PushHandler_setTransaction t parent h w)"
| "on_pushed PushDetach parent h w = Inr (h, PushHandler_detachTransaction parent w)"
| "on_pushed (PushHeadersComplete msg) parent h w = Inr (PushHandler_onHeadersComplete msg parent h w)"
| "on_pushed (PushBody chain) parent h w = res_bind (PushHandler_onBody chain parent w) (\<lambda>w. Inr (h, w))"
| "on_pushed PushEndOfMessage parent h w = Inr (h, PushHandler_onEOM parent w)"
| "on_pushed (PushError what) parent h w = Inr (h, PushHandler_onError what parent w)"
| "on_pushed PushOther parent h w = Inr (PushHandler_ignored h, w)"

fun callback ::
  "'url net_api \<Rightarrow> client_callback \<Rightarrow> 'url CurlClient \<Rightarrow> pool_world \<Rightarrow> ('url CurlClient \<times> pool_world) res"
where
  "callback api (ConnectSuccess tr) c w = CurlClient_connectSuccess api tr c w"
| "callback api (ConnectError ex) c w = Inr (c, CurlClient_connectError api ex c w)"
| "callback api (SetTransaction t) c w = Inr (CurlClient_setTransaction t c, w)"
| "callback api Detach c w = Inr (CurlClient_detachTransaction c, w)"
| "callback api Trailers c w = Inr (c, CurlClient_onTrailers c w)"
| "callback api Upgrade c w = Inr (c, CurlClient_onUpgrade c w)"
| "callback api (TxnError what) c w = Inr (c, CurlClient_onError what c w)"
| "callback api (HeadersComplete msg) c w = Inr (CurlClient_onHeadersComplete msg c w)"
| "callback api (BodyPart chain) c w = res_bind (CurlClient_onBody chain c w) (\<lambda>w. Inr (c, w))"
| "callback api EndOfMessage c w = Inr (c, CurlClient_onEOM c w)"
| "callback api EgressPaused c w = Inr (CurlClient_onEgressPaused c w)"
| "callback api EgressResumed c w = CurlClient_onEgressResumed c w"
| "callback api (PushedTransaction t) c w = Inr (CurlClient_onPushedTransaction t c w)"
| "callback api (Pushed i e) c w =
     (if i < length (cc_pushTxnHandlers c) then
        res_bind (on_pushed e c (cc_pushTxnHandlers c ! i) w) (\<lambda>(h, w).
          Inr (c\<lparr>cc_pushTxnHandlers := (cc_pushTxnHandlers c)[i := h]\<rparr>, w))
      else Inl OutOfRange)"

text \<open>
  What comes in, each callback with the transaction that makes it, or \<open>None\<close> for the connector. The
  handler of a transaction is the client, or one of its push handlers, or an object that is gone.
\<close>

fun callbacks ::
  "'url net_api \<Rightarrow> (nat option \<times> client_callback) list \<Rightarrow> 'url CurlClient \<Rightarrow> pool_world
   \<Rightarrow> ('url CurlClient \<times> pool_world) res"
where
  "callbacks api [] c w = Inr (c, w)"
| "callbacks api ((t, e) # es) c w =
     (if (case t of None \<Rightarrow> False | Some t \<Rightarrow> t \<in> set (pw_gone w)) then Inl UseAfterFree
      else res_bind (callback api e c w) (\<lambda>(c, w). callbacks api es c w))"

text \<open>The setters a send calls on the connection it has picked.\<close>

definition prepare_client ::
  "'url net_api \<Rightarrow> string \<Rightarrow> string \<Rightarrow> string \<Rightarrow> bytes \<Rightarrow> out_ptr \<Rightarrow> 'url CurlClient \<Rightarrow> 'url CurlClient res"
where
  "prepare_client api meth url head req rsp c =
     (let c = CurlClient_setSendMsg req c;
          c = CurlClient_setRespMsg rsp c;
          c = CurlClient_setHeader (CurlClient_parseHeaders (folly_split api) head) c
      in case stringToMethod api meth of
           None \<Rightarrow> Inl BadOptional
         | Some httpMethod \<Rightarrow>
             let c = CurlClient_setMethod httpMethod c
             in Inr (if length url > 0 then CurlClient_setUrl api url c else c))"

text \<open>
  One send. \<open>r\<close> is what \<open>rand\<close> returns and \<open>cbs\<close> what arrives within the sleep of a tenth of a
  second; \<open>newEx\<close> is the transaction of \<open>newExTransaction\<close>, which no file of the repository declares.
  Its handler is \<open>pushHandle\<close>, a local object of the block that sends the request: it is destroyed at
  the end of the block, before the sleep. A null transaction makes \<open>sendRequest\<close> open one itself, with
  the client as its handler.
\<close>

definition CurlManage_send ::
  "'url net_api \<Rightarrow> nat \<Rightarrow> nat option \<Rightarrow> (nat option \<times> client_callback) list \<Rightarrow> string \<Rightarrow> string \<Rightarrow> string \<Rightarrow> bytes
   \<Rightarrow> out_ptr \<Rightarrow> (string \<rightharpoonup> string) \<Rightarrow> 'url CurlManage \<Rightarrow> pool_world
   \<Rightarrow> ((string \<rightharpoonup> string) \<times> 'url CurlManage \<times> pool_world) res" where
  "CurlManage_send api r newEx cbs meth url head req rsp rspHead m w =
     (if hm_num m = 0 then Inl DivByZero
      else let i = r mod hm_num m
      in if \<not> i < length (hm_conns m) then Inl OutOfRange
      else
        res_bind (prepare_client api meth url head req rsp (hm_conns m ! i)) (\<lambda>c.
        res_bind (if CurlClient_hasConnect c then
                    res_bind (CurlClient_sendRequest api newEx c w) (\<lambda>(c, w).
                      Inr (c, w\<lparr>pw_gone := (case newEx of None \<Rightarrow> [] | Some pushedTxn \<Rightarrow> [pushedTxn]) @ pw_gone w\<rparr>))
                  else Inr (c, pool_log (LOG_INFO ''leon_debug run in thread'') w)) (\<lambda>(c, w).
        let w = pool_log (LOG_INFO ''leon_debug run thread'') w
        in res_bind (callbacks api cbs c w) (\<lambda>(c, w).
        case CurlClient_getResponse c of
          None \<Rightarrow> Inl NullDeref
        | Some msg \<Rightarrow>
            Inr (foldl (\<lambda>m x. insert_header x m) rspHead (rsp_headers msg),
              m\<lparr>hm_conns := (hm_conns m)[i := c]\<rparr>, w)))))"

section \<open>The factory\<close>

definition HttpCli_addCliManage ::
  "'url net_api \<Rightarrow> string \<Rightarrow> string \<Rightarrow> nat \<Rightarrow> (string \<rightharpoonup> (string \<times> 'url CurlManage) list) \<Rightarrow> unit
   \<Rightarrow> (string \<rightharpoonup> (string \<times> 'url CurlManage) list) \<times> unit" where
  "HttpCli_addCliManage api name addrUrl num cliMap e =
     (let cliMap = (if cliMap name = None then cliMap(name \<mapsto> []) else cliMap)
      in (cliMap(name \<mapsto> (case cliMap name of None \<Rightarrow> [] | Some v \<Rightarrow> v)
            @ [(addrUrl, CurlManage_ctor api addrUrl num)]), e))"

definition HttpCli_getClient ::
  "nat \<Rightarrow> string \<Rightarrow> (string \<rightharpoonup> 'm list) \<Rightarrow> 'm option res" where
  "HttpCli_getClient r name cliMap =
     (case cliMap name of
        None \<Rightarrow> Inr None
      | Some cliv \<Rightarrow>
          if length cliv = 0 then Inl DivByZero
          else if r mod length cliv < length cliv then Inr (Some (cliv ! (r mod length cliv)))
          else Inl OutOfRange)"

definition HttpCli_CliManageFactory_ctor :: "nat \<Rightarrow> (string \<times> 'url CurlManage) CliManageFactory" where
  "HttpCli_CliManageFactory_ctor default_tick =
     \<lparr>cf_timer = \<lparr>wt_interval = default_tick, wt_timeout = 5000\<rparr>, cf_cliMap = Map.empty\<rparr>"

definition HttpCli_singleton ::
  "nat \<Rightarrow> (string \<times> 'url CurlManage) CliManageFactory option \<Rightarrow> (string \<times> 'url CurlManage) CliManageFactory"
where
  "HttpCli_singleton default_tick cmfac =
     (case cmfac of None \<Rightarrow> HttpCli_CliManageFactory_ctor default_tick | Some f \<Rightarrow> f)"

definition HttpCli_getTimer :: "(string \<times> 'url CurlManage) CliManageFactory \<Rightarrow> HHWheelTimer" where
  "HttpCli_getTimer f = cf_timer f"

text \<open>\<open>cliChgAddr\<close> has an empty body, although it is declared to return a \<open>bool\<close>.\<close>

definition HttpCli_cliChgAddr :: "AddrOp \<Rightarrow> string \<Rightarrow> string \<Rightarrow> (string \<rightharpoonup> 'm list) \<Rightarrow> (string \<rightharpoonup> 'm list)" where
  "HttpCli_cliChgAddr op name addr cliMap = cliMap"

text \<open>The pools are kept with the address they were added with, which the class does not store.\<close>

interpretation http_cli: client_factory "HttpCli_addCliManage api" HttpCli_getClient fst for api
  by unfold_locales
    (auto simp: HttpCli_addCliManage_def HttpCli_getClient_def pools_def Let_def split: option.splits if_splits)

section \<open>Lemmas\<close>

text \<open>The calls one request makes after its headers.\<close>

definition after_headers :: "'url CurlClient \<Rightarrow> txn_call list" where
  "after_headers c =
     (if cc_httpMethod c = Some POST \<or> cc_httpMethod c = Some PUT
      then if cc_inputStr c \<noteq> [] \<and> \<not> cc_egressPaused c then [SendBody (cc_inputStr c), SendEOM] else []
      else [SendEOM])"

lemma setupHeaders_keeps [simp]:
  "cc_httpMethod (CurlClient_setupHeaders api c) = cc_httpMethod c"
  "cc_inputStr (CurlClient_setupHeaders api c) = cc_inputStr c"
  "cc_egressPaused (CurlClient_setupHeaders api c) = cc_egressPaused c"
  "cc_response (CurlClient_setupHeaders api c) = cc_response c"
  "cc_outputStr (CurlClient_setupHeaders api c) = cc_outputStr c"
  "cc_eomFunc (CurlClient_setupHeaders api c) = cc_eomFunc c"
  "cc_url (CurlClient_setupHeaders api c) = cc_url c"
  "cc_h2c (CurlClient_setupHeaders api c) = cc_h2c c"
  by (simp_all add: CurlClient_setupHeaders_def Let_def)

lemma on_txn_simps [simp]:
  "pw_mem (on_txn t cs w) = pw_mem w"
  "pw_calls (on_txn t cs w) = pw_calls w @ map (\<lambda>c. (t, c)) cs"
  "on_txn t [] w = w"
  "pw_gone (on_txn t cs w) = pw_gone w"
  by (simp_all add: on_txn_def)

lemma pool_log_simps [simp]:
  "pw_mem (pool_log l w) = pw_mem w" "pw_calls (pool_log l w) = pw_calls w"
  "pw_mem (pool_log_if b l w) = pw_mem w" "pw_calls (pool_log_if b l w) = pw_calls w"
  "pw_gone (pool_log l w) = pw_gone w" "pw_gone (pool_log_if b l w) = pw_gone w"
  by (simp_all add: pool_log_def pool_log_if_def)

lemma sendRequest_eq:
  "CurlClient_sendRequest api (Some t) c w =
     (let c' = CurlClient_setupHeaders api (c\<lparr>cc_txn := Some t\<rparr>)
      in Inr (c', on_txn t (SendHeaders (cc_request c') # after_headers c)
           (pool_log (LOG_INFO (''leon_debug '' @ dec_string t)) w)))"
  by (simp add: CurlClient_sendRequest_def after_headers_def on_txn_def Let_def)

lemma sendRequest_keeps:
  assumes "CurlClient_sendRequest api txn c w = Inr (c', w')"
  shows "cc_response c' = cc_response c" "cc_outputStr c' = cc_outputStr c"
    "cc_eomFunc c' = cc_eomFunc c" "pw_mem w' = pw_mem w" "pw_gone w' = pw_gone w"
proof -
  obtain t v where "CurlClient_sendRequest api (Some t) c v = Inr (c', w')" "pw_mem v = pw_mem w" "pw_gone v = pw_gone w"
  proof (cases txn)
    case None
    with assms have "CurlClient_sendRequest api (Some (fst (newTransaction w))) c (snd (newTransaction w))
        = Inr (c', w')"
      by (simp add: CurlClient_sendRequest_def split_beta split: if_splits)
    then show thesis by (rule that) (simp_all add: newTransaction_def)
  qed (use assms that in blast)
  then show "cc_response c' = cc_response c" "cc_outputStr c' = cc_outputStr c"
    "cc_eomFunc c' = cc_eomFunc c" "pw_mem w' = pw_mem w" "pw_gone w' = pw_gone w"
    by (auto simp: sendRequest_eq Let_def)
qed

lemma append_to_eq:
  "pw_mem w a = Some s \<Longrightarrow> append_to a ps w = Inr (w\<lparr>pw_mem := (pw_mem w)(a \<mapsto> s @ concat ps)\<rparr>)"
proof (induction ps arbitrary: w s)
  case Nil
  then have "(pw_mem w)(a \<mapsto> s) = pw_mem w" by auto
  then show ?case by simp
qed simp

lemma onBody_appends:
  assumes "CurlClient_onBody chain c w = Inr w'" and "cc_outputStr c = Out a" and "pw_mem w a = Some s"
  shows "pw_mem w' a = Some (s @ (case chain of None \<Rightarrow> [] | Some b \<Rightarrow> iobuf_bytes b))" and "pw_gone w' = pw_gone w"
  using assms
  by (cases chain;
      simp add: CurlClient_onBody_def iobuf_bytes_def append_to_eq del: append_to.simps; auto)+

lemma sslHandshakeFollowup_keeps:
  "CurlClient_sslHandshakeFollowup tr w = Inr w' \<Longrightarrow> pw_mem w' = pw_mem w \<and> pw_gone w' = pw_gone w"
  by (auto simp: CurlClient_sslHandshakeFollowup_def split: transport.splits option.splits)

lemma callback_keeps:
  assumes "callback api e c w = Inr (c', w')" and "cc_outputStr c = Out a" and "pw_mem w a = Some s"
    and "cc_eomFunc c = None"
  shows "cc_response c' = last_response [e] (cc_response c)" and "cc_outputStr c' = Out a"
    and "pw_mem w' a = Some (s @ body_of [e])" and "cc_eomFunc c' = None" and "pw_gone w' = pw_gone w"
proof -
  have "cc_response c' = last_response [e] (cc_response c) \<and> cc_outputStr c' = Out a
    \<and> pw_mem w' a = Some (s @ body_of [e]) \<and> cc_eomFunc c' = None \<and> pw_gone w' = pw_gone w"
  proof (cases e)
    case (ConnectSuccess tr)
    with assms show ?thesis
      by (auto simp: CurlClient_connectSuccess_def newTransaction_def sendRequest_eq res_bind_Inr Let_def
          split: if_splits dest: sslHandshakeFollowup_keeps)
  next
    case (BodyPart chain)
    with assms onBody_appends [OF _ assms(2,3), of chain] show ?thesis
      by (cases chain) (auto simp: res_bind_Inr)
  next
    case (Pushed i p)
    with assms onBody_appends [OF _ assms(2,3)] show ?thesis
      by (cases p)
        (auto simp: res_bind_Inr PushHandler_onBody_def PushHandler_setTransaction_def
          PushHandler_detachTransaction_def PushHandler_onHeadersComplete_def CurlClient_printMessageImpl_def
          PushHandler_onEOM_def PushHandler_onError_def CurlClient_onError_def split: if_splits option.splits)
  next
    case EgressResumed
    with assms show ?thesis
      by (auto simp: CurlClient_onEgressResumed_def Let_def split: if_splits option.splits)
  qed (use assms in \<open>auto simp: CurlClient_onHeadersComplete_def CurlClient_printMessageImpl_def
      CurlClient_onEOM_def CurlClient_onEgressPaused_def CurlClient_onPushedTransaction_def
      CurlClient_connectError_def CurlClient_setTransaction_def CurlClient_detachTransaction_def
      CurlClient_onTrailers_def CurlClient_onUpgrade_def CurlClient_onError_def Let_def\<close>)
  then show "cc_response c' = last_response [e] (cc_response c)" "cc_outputStr c' = Out a"
    "pw_mem w' a = Some (s @ body_of [e])" "cc_eomFunc c' = None" "pw_gone w' = pw_gone w" by simp_all
qed

lemma callbacks_keep:
  assumes "callbacks api es c w = Inr (c', w')" and "cc_outputStr c = Out a" and "pw_mem w a = Some s"
    and "cc_eomFunc c = None"
  shows "cc_response c' = last_response (map snd es) (cc_response c) \<and> pw_mem w' a = Some (s @ body_of (map snd es))
    \<and> (\<forall>t\<in>set (pw_gone w). Some t \<notin> fst ` set es)"
  using assms
proof (induction es arbitrary: c w s)
  case (Cons e es)
  obtain t x where e: "e = (t, x)" by (cases e)
  with Cons.prems(1) obtain c1 w1 where step: "callback api x c w = Inr (c1, w1)" "callbacks api es c1 w1 = Inr (c', w')"
    and t: "case t of None \<Rightarrow> True | Some t \<Rightarrow> t \<notin> set (pw_gone w)"
    by (auto simp: res_bind_Inr split: if_splits option.splits)
  note k = callback_keeps [OF step(1) Cons.prems(2-4)]
  from Cons.IH [OF step(2) k(2,3,4)] k(1,5) t show ?case
    by (auto simp: e last_response_Cons [of x "map snd es"] body_of_Cons [of x "map snd es"] split: option.splits)
qed simp

lemma prepare_client_keeps:
  assumes "prepare_client api meth url head req rsp c = Inr c'"
  shows "cc_outputStr c' = rsp" "cc_eomFunc c' = cc_eomFunc c" "cc_response c' = cc_response c"
    "CurlClient_hasConnect c' = CurlClient_hasConnect c"
  using assms
  by (auto simp: prepare_client_def CurlClient_setUrl_def CurlClient_setMethod_def CurlClient_setHeader_def
      CurlClient_setRespMsg_def CurlClient_setSendMsg_def CurlClient_hasConnect_def Let_def split: option.splits if_splits)

text \<open>A send that returns, cut before its callbacks.\<close>

lemma CurlManage_send_Inr:
  assumes "CurlManage_send api r newEx cbs meth url head req rsp rspHead m w = Inr (rspHead', m', w')"
  obtains c1 w1 c2 msg where "cc_outputStr c1 = rsp"
    and "cc_eomFunc c1 = cc_eomFunc (hm_conns m ! (r mod hm_num m))"
    and "cc_response c1 = cc_response (hm_conns m ! (r mod hm_num m))" and "pw_mem w1 = pw_mem w"
    and "callbacks api cbs c1 w1 = Inr (c2, w')" and "cc_response c2 = Some msg"
    and "rspHead' = map_of (rsp_headers msg) ++ rspHead"
    and "CurlClient_hasConnect (hm_conns m ! (r mod hm_num m)) \<Longrightarrow> set_option newEx \<subseteq> set (pw_gone w1)"
proof -
  let ?started = "pool_log (LOG_INFO ''leon_debug run in thread'') w"
  let ?slept = "\<lambda>w. pool_log (LOG_INFO ''leon_debug run thread'') w"
  let ?left = "\<lambda>w. w\<lparr>pw_gone := (case newEx of None \<Rightarrow> [] | Some pushedTxn \<Rightarrow> [pushedTxn]) @ pw_gone w\<rparr>"
  from assms obtain e c1 w1 c2 msg where
    e: "prepare_client api meth url head req rsp (hm_conns m ! (r mod hm_num m)) = Inr e"
    and send: "(if CurlClient_hasConnect e
        then res_bind (CurlClient_sendRequest api newEx e w) (\<lambda>(c, w). Inr (c, ?left w)) else Inr (e, ?started)) = Inr (c1, w1)"
    and cbs: "callbacks api cbs c1 (?slept w1) = Inr (c2, w')" "cc_response c2 = Some msg"
    "rspHead' = map_of (rsp_headers msg) ++ rspHead"
    unfolding CurlManage_send_def Let_def
    by (fastforce simp: res_bind_Inr insert_headers split: if_split_asm option.split_asm)
  have "cc_outputStr c1 = cc_outputStr e" "cc_eomFunc c1 = cc_eomFunc e" "cc_response c1 = cc_response e"
    "pw_mem (?slept w1) = pw_mem w"
    "CurlClient_hasConnect e \<Longrightarrow> set_option newEx \<subseteq> set (pw_gone (?slept w1))"
    using send by (auto simp: res_bind_Inr split: if_splits option.splits dest: sendRequest_keeps)
  with that [OF _ _ _ _ cbs] prepare_client_keeps [OF e] show thesis by simp
qed

text \<open>
  A send on a connected client whose new transaction is the only one to call back: the first of its
  callbacks reaches a destroyed handler.
\<close>

lemma connected_send:
  assumes "CurlClient_hasConnect (hm_conns m ! (r mod hm_num m))" and "r mod hm_num m < length (hm_conns m)"
    and "hm_num m \<noteq> 0" and "stringToMethod api meth \<noteq> None" and "\<forall>e\<in>set cbs. fst e = Some t"
  shows "let result = CurlManage_send api r (Some t) cbs meth url head req rsp rspHead m w
    in if cbs \<noteq> [] then result = Inl UseAfterFree
       else case cc_response (hm_conns m ! (r mod hm_num m)) of
           None \<Rightarrow> result = Inl NullDeref
         | Some msg \<Rightarrow> \<exists>m' w'. result = Inr (map_of (rsp_headers msg) ++ rspHead, m', w') \<and> pw_mem w' = pw_mem w"
proof -
  obtain c where c: "prepare_client api meth url head req rsp (hm_conns m ! (r mod hm_num m)) = Inr c"
    using assms(4) by (auto simp: prepare_client_def Let_def)
  note keeps = prepare_client_keeps [OF c]
  obtain c1 w1 where run: "CurlClient_sendRequest api (Some t) c w = Inr (c1, w1)"
    by (simp add: sendRequest_eq Let_def)
  note sent = sendRequest_keeps [OF run]
  from assms(1-3,5) keeps(3,4) c run sent show ?thesis
    by (cases cbs) (auto simp: CurlManage_send_def insert_headers Let_def split: option.splits)
qed

text \<open>The requests one connection makes for a list of headers, each on its transaction.\<close>

fun send_again ::
  "'url net_api \<Rightarrow> nat \<Rightarrow> string list \<Rightarrow> 'url CurlClient \<Rightarrow> pool_world \<Rightarrow> ('url CurlClient \<times> pool_world) res"
where
  "send_again api t [] c w = Inr (c, w)"
| "send_again api t (head # heads) c w =
     res_bind (CurlClient_sendRequest api (Some t)
         (CurlClient_setHeader (parseHeaders (folly_split api) head) c) w) (\<lambda>(c, w).
       send_again api (Suc t) heads c w)"

lemma one_more:
  assumes "CurlClient_sendRequest api (Some t) (CurlClient_setHeader hs c) w = Inr (c', w')" and "\<not> cc_h2c c"
  shows "rq_headers (cc_request c') = default_headers api (cc_url c) (rq_headers (cc_request c) @ hs)"
    and "cc_url c' = cc_url c" and "\<not> cc_h2c c'"
    and "\<exists>cs. pw_calls w' = pw_calls w @ (t, SendHeaders (cc_request c')) # cs"
  using assms
  by (auto simp: sendRequest_eq CurlClient_setHeader_def CurlClient_setupHeaders_def add_headers Let_def)

lemma send_again_full:
  assumes "header_table api" and "send_again api t heads c w = Inr (c', w')" and "\<not> cc_h2c c"
    and "\<And>h. has_header api h (rq_headers (cc_request c))"
  shows "rq_headers (cc_request c') =
      rq_headers (cc_request c) @ concat (map (parseHeaders (folly_split api)) heads)"
  using assms(2-)
proof (induction heads arbitrary: t c w)
  case (Cons head heads)
  let ?hs = "parseHeaders (folly_split api) head"
  obtain c1 w1 where step: "CurlClient_sendRequest api (Some t) (CurlClient_setHeader ?hs c) w = Inr (c1, w1)"
    and rest: "send_again api (Suc t) heads c1 w1 = Inr (c', w')"
    using Cons.prems(1) by (auto simp: res_bind_Inr)
  have full: "has_header api h (rq_headers (cc_request c) @ hs)" for h hs
    using Cons.prems(3) [of h] by (simp add: has_header_def)
  have c1: "rq_headers (cc_request c1) = rq_headers (cc_request c) @ ?hs"
    unfolding one_more(1) [OF step Cons.prems(2)]
    by (rule header_table.default_headers_full [OF assms(1) full])
  have "has_header api h (rq_headers (cc_request c1))" for h
    unfolding c1 by (rule full)
  from Cons.IH [OF rest one_more(3) [OF step Cons.prems(2)] this] c1 show ?case by simp
qed simp

text \<open>
  The pool connects with \<open>connect\<close>, never \<open>connectSSL\<close>, so a client with a secure URL finds a plain
  socket under its session and dereferences the null pointer of the failed cast.
\<close>

lemma secure_pool_faults:
  assumes "isSecure (url_ops api) (cc_url c)"
  shows "callbacks api ((None, ConnectSuccess PlainSocket) # es) c w = Inl NullDeref"
  using assms by (simp add: CurlClient_connectSuccess_def CurlClient_sslHandshakeFollowup_def)

section \<open>Properties\<close>

text \<open>
  C26. One send of the older pool, whatever comes in while it sleeps. If it returns, the caller's map is
  completed from the last response the connection has seen, which is the answer of an earlier send when
  no new one arrived in time, and the caller's string has grown by every part of the body, those of
  pushed transactions included, in the order of arrival; and on a client that was connected, the
  transaction opened for the send has not called back. For that transaction's handler is gone before
  the sleep: when it is the only one to call back, its first callback is a use after free, and without
  one the caller gets the earlier answer, or a null pointer. A pool of no connections divides by zero.
\<close>

theorem pool_send_result:
  assumes "cc_eomFunc (hm_conns m ! (r mod hm_num m)) = None" and "pw_mem w a = Some s"
  shows "(case CurlManage_send api r newEx cbs meth url head req (Out a) rspHead m w of
      Inl e \<Rightarrow> hm_num m = 0 \<longrightarrow> e = DivByZero
    | Inr (rspHead', m', w') \<Rightarrow> (\<exists>msg.
        last_response (map snd cbs) (cc_response (hm_conns m ! (r mod hm_num m))) = Some msg
        \<and> rspHead' = map_of (rsp_headers msg) ++ rspHead \<and> pw_mem w' a = Some (s @ body_of (map snd cbs)))
        \<and> (CurlClient_hasConnect (hm_conns m ! (r mod hm_num m)) \<longrightarrow> (\<forall>t. newEx = Some t \<longrightarrow> Some t \<notin> fst ` set cbs)))
    \<and> (\<forall>t. newEx = Some t \<and> CurlClient_hasConnect (hm_conns m ! (r mod hm_num m))
          \<and> hm_num m \<noteq> 0 \<and> r mod hm_num m < length (hm_conns m) \<and> stringToMethod api meth \<noteq> None
          \<and> (\<forall>e\<in>set cbs. fst e = Some t) \<longrightarrow>
        (let result = CurlManage_send api r newEx cbs meth url head req (Out a) rspHead m w
         in if cbs \<noteq> [] then result = Inl UseAfterFree
            else case cc_response (hm_conns m ! (r mod hm_num m)) of
                None \<Rightarrow> result = Inl NullDeref
              | Some msg \<Rightarrow> \<exists>m' w'. result = Inr (map_of (rsp_headers msg) ++ rspHead, m', w') \<and> pw_mem w' a = Some s))"
proof
  show "case CurlManage_send api r newEx cbs meth url head req (Out a) rspHead m w of
      Inl e \<Rightarrow> hm_num m = 0 \<longrightarrow> e = DivByZero
    | Inr (rspHead', m', w') \<Rightarrow> (\<exists>msg.
        last_response (map snd cbs) (cc_response (hm_conns m ! (r mod hm_num m))) = Some msg
        \<and> rspHead' = map_of (rsp_headers msg) ++ rspHead \<and> pw_mem w' a = Some (s @ body_of (map snd cbs)))
        \<and> (CurlClient_hasConnect (hm_conns m ! (r mod hm_num m)) \<longrightarrow> (\<forall>t. newEx = Some t \<longrightarrow> Some t \<notin> fst ` set cbs))"
  proof (cases "CurlManage_send api r newEx cbs meth url head req (Out a) rspHead m w")
    case (Inr x)
    then obtain rspHead' m' w' where x: "x = (rspHead', m', w')" by (cases x)
    from CurlManage_send_Inr [OF Inr [unfolded x]] obtain c1 w1 c2 msg where
      c1: "cc_outputStr c1 = Out a" "cc_eomFunc c1 = None"
      "cc_response c1 = cc_response (hm_conns m ! (r mod hm_num m))" "pw_mem w1 a = Some s"
      and run: "callbacks api cbs c1 w1 = Inr (c2, w')" and msg: "cc_response c2 = Some msg"
      "rspHead' = map_of (rsp_headers msg) ++ rspHead"
      and gone: "CurlClient_hasConnect (hm_conns m ! (r mod hm_num m)) \<Longrightarrow> set_option newEx \<subseteq> set (pw_gone w1)"
      using assms by metis
    note keep = callbacks_keep [OF run c1(1,4,2)]
    then have "last_response (map snd cbs) (cc_response (hm_conns m ! (r mod hm_num m))) = Some msg"
      "pw_mem w' a = Some (s @ body_of (map snd cbs))"
      using c1(3) msg(1) by simp_all
    moreover have "Some t \<notin> fst ` set cbs"
      if "CurlClient_hasConnect (hm_conns m ! (r mod hm_num m))" "newEx = Some t" for t
      using gone [OF that(1)] that(2) keep by simp
    ultimately show ?thesis unfolding Inr x sum.case prod.case using msg(2) by blast
  qed (auto simp: CurlManage_send_def)
next
  show "\<forall>t. newEx = Some t \<and> CurlClient_hasConnect (hm_conns m ! (r mod hm_num m))
          \<and> hm_num m \<noteq> 0 \<and> r mod hm_num m < length (hm_conns m) \<and> stringToMethod api meth \<noteq> None
          \<and> (\<forall>e\<in>set cbs. fst e = Some t) \<longrightarrow>
        (let result = CurlManage_send api r newEx cbs meth url head req (Out a) rspHead m w
         in if cbs \<noteq> [] then result = Inl UseAfterFree
            else case cc_response (hm_conns m ! (r mod hm_num m)) of
                None \<Rightarrow> result = Inl NullDeref
              | Some msg \<Rightarrow> \<exists>m' w'. result = Inr (map_of (rsp_headers msg) ++ rspHead, m', w') \<and> pw_mem w' a = Some s)"
    using connected_send [of m r api meth cbs _ url head req "Out a" rspHead w] assms(2)
    by (fastforce simp: Let_def split: option.splits)
qed

text \<open>
  A connection, kept from an earlier send, which has had an answer. A send on it with a transaction that
  \<open>sendRequest\<close> opens itself gets the answer of a GET in two parts; with one of \<open>newExTransaction\<close> it dies of that
  answer, and without one it is given the old answer.
\<close>

definition ex_conn :: "(string \<times> string) CurlClient" where
  "ex_conn = (CurlClient_ctor ''h'' (url_parse ref_url ''h'') False 1 1 False)
     \<lparr>cc_txn := Some 0, cc_session := True\<rparr>"

definition ex_answered :: "(string \<times> string) CurlClient" where
  "ex_answered = ex_conn\<lparr>cc_response := Some \<lparr>rsp_status = 404, rsp_headers = [(''k'', ''old'')]\<rparr>\<rparr>"

definition ex_pool :: "(string \<times> string) CurlManage" where
  "ex_pool = \<lparr>hm_addr = (''h'', 80), hm_conns = [ex_answered], hm_num = 1\<rparr>"

definition ex_world :: pool_world where
  "ex_world = \<lparr>pw_mem = [5 \<mapsto> [9]], pw_calls = [], pw_fresh = 1, pw_gone = [], pw_printed = [], pw_log = []\<rparr>"

definition ex_cbs :: "client_callback list" where
  "ex_cbs = [HeadersComplete \<lparr>rsp_status = 200, rsp_headers = [(''k'', ''v'')]\<rparr>,
     BodyPart (Some ([1], [[2]])), BodyPart (Some ([3], [])), EndOfMessage]"

theorem pool_send_result_witness:
  "(\<exists>m' w'. CurlManage_send ref_net 3 None (map (Pair (Some 1)) ex_cbs) ''GET'' [] [] [] (Out 5) Map.empty ex_pool ex_world
       = Inr ([''k'' \<mapsto> ''v''], m', w') \<and> pw_mem w' 5 = Some [9, 1, 2, 3])
   \<and> CurlManage_send ref_net 3 (Some 7) (map (Pair (Some 7)) ex_cbs) ''GET'' [] [] [] (Out 5) Map.empty ex_pool ex_world
       = Inl UseAfterFree
   \<and> (\<exists>m' w'. CurlManage_send ref_net 3 (Some 7) [] ''GET'' [] [] [] (Out 5) Map.empty ex_pool ex_world
       = Inr ([''k'' \<mapsto> ''old''], m', w') \<and> pw_mem w' 5 = Some [9])"
proof -
  have c: "cc_eomFunc (hm_conns ex_pool ! (3 mod hm_num ex_pool)) = None"
    "CurlClient_hasConnect (hm_conns ex_pool ! (3 mod hm_num ex_pool))" "hm_num ex_pool \<noteq> 0"
    "3 mod hm_num ex_pool < length (hm_conns ex_pool)" "stringToMethod ref_net ''GET'' \<noteq> None"
    "cc_response (hm_conns ex_pool ! (3 mod hm_num ex_pool)) = Some \<lparr>rsp_status = 404, rsp_headers = [(''k'', ''old'')]\<rparr>"
    by (simp_all add: ex_pool_def ex_answered_def ex_conn_def CurlClient_ctor_def CurlClient_hasConnect_def ref_net_def)
  have w: "pw_mem ex_world 5 = Some [9]" by (simp add: ex_world_def)
  note p = pool_send_result [OF c(1) w, where api = ref_net and meth = "''GET''" and url = "[]" and head = "[]"
      and req = "[]" and rspHead = Map.empty]
  obtain rh m' w' where run:
    "CurlManage_send ref_net 3 None (map (Pair (Some 1)) ex_cbs) ''GET'' [] [] [] (Out 5) Map.empty ex_pool ex_world
      = Inr (rh, m', w')"
    by (simp add: CurlManage_send_def prepare_client_def ex_pool_def ex_answered_def ex_conn_def CurlClient_ctor_def
        ex_world_def ex_cbs_def ref_net_def CurlClient_setSendMsg_def CurlClient_setRespMsg_def
        CurlClient_setHeader_def parseHeaders_def parse_pair_def CurlClient_setMethod_def
        CurlClient_hasConnect_def CurlClient_sendRequest_def newTransaction_def on_txn_def pool_log_def
        CurlClient_onHeadersComplete_def CurlClient_printMessageImpl_def CurlClient_onBody_def
        CurlClient_onEOM_def CurlClient_setupHeaders_def pool_log_if_def Let_def)
  have ex: "map snd (map (Pair (Some 1)) ex_cbs) = ex_cbs" by (simp add: comp_def)
  have "\<exists>m' w'. CurlManage_send ref_net 3 None (map (Pair (Some 1)) ex_cbs) ''GET'' [] [] [] (Out 5) Map.empty ex_pool ex_world
       = Inr ([''k'' \<mapsto> ''v''], m', w') \<and> pw_mem w' 5 = Some [9, 1, 2, 3]"
    using conjunct1 [OF p [where newEx = None and cbs = "map (Pair (Some 1)) ex_cbs"], unfolded run ex] run by (simp add: ex_cbs_def iobuf_bytes_def)
  moreover have "CurlManage_send ref_net 3 (Some 7) (map (Pair (Some 7)) ex_cbs) ''GET'' [] [] [] (Out 5) Map.empty ex_pool
      ex_world = Inl UseAfterFree"
    using conjunct2 [OF p [where newEx = "Some 7" and cbs = "map (Pair (Some 7)) ex_cbs"]] c by (simp add: ex_cbs_def)
  moreover have "\<exists>m' w'. CurlManage_send ref_net 3 (Some 7) [] ''GET'' [] [] [] (Out 5) Map.empty ex_pool ex_world
       = Inr ([''k'' \<mapsto> ''old''], m', w') \<and> pw_mem w' 5 = Some [9]"
    using conjunct2 [OF p [where newEx = "Some 7" and cbs = "[]"]] c by simp
  ultimately show ?thesis by blast
qed

text \<open>
  C27. A connection of the older pool never forgets a header: the request of each send carries the
  headers of every earlier send on that connection before its own, with the defaults chosen at the
  first send only.
\<close>

theorem headers_accumulate:
  assumes "header_table api" and "\<not> cc_h2c c" and "send_again api t (head # heads) c w = Inr (c', w')"
  shows "rq_headers (cc_request c') =
    default_headers api (cc_url c) (rq_headers (cc_request c) @ parseHeaders (folly_split api) head)
      @ concat (map (parseHeaders (folly_split api)) heads)"
proof -
  obtain c1 w1 where step: "CurlClient_sendRequest api (Some t)
      (CurlClient_setHeader (parseHeaders (folly_split api) head) c) w = Inr (c1, w1)"
    and rest: "send_again api (Suc t) heads c1 w1 = Inr (c', w')"
    using assms(3) by (auto simp: res_bind_Inr)
  note one = one_more [OF step assms(2)]
  have "has_header api h (rq_headers (cc_request c1))" for h
    unfolding one(1) by (rule header_table.default_headers_has [OF assms(1)])
  from send_again_full [OF assms(1) rest one(3) this] one(1) show ?thesis by simp
qed

theorem headers_accumulate_witness:
  "\<exists>c' w'. send_again ref_net 1 [''Host=a,Accept=b,User-Agent=c'', ''k=v''] ex_conn ex_world = Inr (c', w')
     \<and> rq_headers (cc_request c')
       = [(''Host'', ''a''), (''Accept'', ''b''), (''User-Agent'', ''c''), (''k'', ''v'')]"
proof -
  obtain c' w' where run: "send_again ref_net 1 [''Host=a,Accept=b,User-Agent=c'', ''k=v''] ex_conn ex_world = Inr (c', w')"
    by (auto simp: sendRequest_eq Let_def)
  have h2c: "\<not> cc_h2c ex_conn" by (simp add: ex_conn_def CurlClient_ctor_def)
  have hs: "parseHeaders (folly_split ref_net) ''Host=a,Accept=b,User-Agent=c''
      = [(''Host'', ''a''), (''Accept'', ''b''), (''User-Agent'', ''c'')]"
    "parseHeaders (folly_split ref_net) ''k=v'' = [(''k'', ''v'')]"
    by (simp_all add: parseHeaders_def parse_pair_def ref_net_def)
  have full: "default_headers ref_net url (rq_headers HTTPRequest @ [(''Host'', ''a''), (''Accept'', ''b''), (''User-Agent'', ''c'')])
      = [(''Host'', ''a''), (''Accept'', ''b''), (''User-Agent'', ''c'')]" for url
    by (simp add: default_headers_def has_header_def ref_net_def HTTPRequest_def)
  from headers_accumulate [OF ref_header_table.header_table_axioms h2c run] run hs full show ?thesis
    by (simp add: ex_conn_def CurlClient_ctor_def)
qed

text \<open>
  What a request of the older client sends, on every branch: its headers, then for POST and PUT
  the body and one end of message, or neither when the body is empty or the transaction is paused,
  so that such a request is never ended; for every other meth one end of message.
\<close>

theorem request_calls:
  assumes "CurlClient_sendRequest api (Some t) c w = Inr (c', w')"
  shows "pw_calls w' = pw_calls w @ map (\<lambda>x. (t, x)) (SendHeaders (cc_request c') #
    (if cc_httpMethod c = Some POST \<or> cc_httpMethod c = Some PUT
     then if cc_inputStr c \<noteq> [] \<and> \<not> cc_egressPaused c then [SendBody (cc_inputStr c), SendEOM] else []
     else [SendEOM]))"
  using assms by (auto simp: sendRequest_eq after_headers_def Let_def)

theorem request_calls_witness:
  "\<exists>c' w'. CurlClient_sendRequest ref_net (Some 7) (ex_conn\<lparr>cc_httpMethod := Some POST\<rparr>) ex_world = Inr (c', w')
     \<and> pw_calls w' = [(7, SendHeaders (cc_request c'))]"
proof -
  let ?c = "ex_conn\<lparr>cc_httpMethod := Some POST\<rparr>"
  obtain c' w' where run: "CurlClient_sendRequest ref_net (Some 7) ?c ex_world = Inr (c', w')"
    by (auto simp: sendRequest_eq Let_def)
  from request_calls [OF run] run show ?thesis
    by (simp add: ex_conn_def CurlClient_ctor_def ex_world_def)
qed

end
