(* ===== verification/ClientServer.thy ===== *)
theory ClientServer
  imports ServiceProps HttpClient CurlPool
begin

text \<open>
  The clients of feature-server/back-code against the feature server: the request that the calls on a
  transaction put on the wire, what the server makes of it, and what comes back. Nothing is assumed of
  the network but that it keeps the order of the bytes: the body of a request reaches the server in any
  pieces, and of the answer, in any parts, as much reaches the client in time as the network likes.
\<close>

section \<open>The wire\<close>

text \<open>
  The request of a transaction that was ended: one header, the parts of the body, one end of message,
  and at most the wish to close the session when it is idle.
\<close>

fun ended_bodies :: "txn_call list \<Rightarrow> bytes list option" where
  "ended_bodies [SendEOM] = Some []"
| "ended_bodies [SendEOM, CloseWhenIdle] = Some []"
| "ended_bodies (SendBody b # cs) = map_option ((#) b) (ended_bodies cs)"
| "ended_bodies cs = None"

fun wire_request :: "txn_call list \<Rightarrow> (HTTPRequest \<times> bytes list) option" where
  "wire_request (SetFlowControl a b c # cs) = wire_request cs"
| "wire_request (NewTransaction # SendHeaders rq # cs) = map_option (Pair rq) (ended_bodies cs)"
| "wire_request cs = None"

fun method_string :: "HTTPMethod \<Rightarrow> string" where
  "method_string GET = ''GET''"
| "method_string POST = ''POST''"
| "method_string PUT = ''PUT''"
| "method_string (OtherMethod m) = m"

definition server_message :: "HTTPRequest \<Rightarrow> HTTPMessage" where
  "server_message rq =
     \<lparr>http_method = (case rq_method rq of None \<Rightarrow> [] | Some m \<Rightarrow> method_string m),
      http_url = rq_url rq, http_headers = rq_headers rq\<rparr>"

definition response_head :: "Response list \<Rightarrow> HTTPResponse" where
  "response_head rs =
     (case rs of
        [] \<Rightarrow> \<lparr>rsp_status = 0, rsp_headers = []\<rparr>
      | r # rs' \<Rightarrow> \<lparr>rsp_status = (case rb_status r of None \<Rightarrow> 0 | Some st \<Rightarrow> fst st), rsp_headers = rb_headers r\<rparr>)"

text \<open>
  The server's side of one request of a client, whose body comes in these pieces: HTTP does not keep the
  boundaries of the parts a client has sent.
\<close>

definition serve_wire ::
  "('c, 'e, 'u) libs \<Rightarrow> HTTPRequest \<times> IOBuf list \<Rightarrow> ('c, 'e) server \<Rightarrow> (Response list \<times> ('c, 'e) server) res" where
  "serve_wire libs w s = serve libs (server_message (fst w), snd w) s"

text \<open>The answer, cut into parts, and how much of it has come to the client when it stops waiting.\<close>

definition cut_of :: "Response list \<Rightarrow> IOBuf list \<Rightarrow> bool" where
  "cut_of rs parts \<longleftrightarrow> concat (map iobuf_bytes parts) = response_body rs"

definition answer_arrives ::
  "HTTPRequest \<times> bytes list \<Rightarrow> Response list \<Rightarrow> IOBuf list \<Rightarrow> nat \<Rightarrow> txn_call list \<Rightarrow> arrival list" where
  "answer_arrives w rs parts n cs =
     (if wire_request cs = Some w
      then take n (OnHeadersComplete (response_head rs) # map (\<lambda>b. OnBody (Some b)) parts @ [OnEOM, DetachTransaction])
      else [])"

definition last_part :: "bytes \<Rightarrow> IOBuf list \<Rightarrow> bytes" where
  "last_part rsp ps = (if ps = [] then rsp else iobuf_bytes (last ps))"

section \<open>The pooled client over the network\<close>

lemma deliver_end:
  "ch_response (foldl (\<lambda>h a. deliver a h) h (take n [OnEOM, DetachTransaction])) = ch_response h"
  "ch_output (foldl (\<lambda>h a. deliver a h) h (take n [OnEOM, DetachTransaction])) = ch_output h"
  "ch_calls (foldl (\<lambda>h a. deliver a h) h (take n [OnEOM, DetachTransaction])) = ch_calls h"
  by (auto simp: take_Cons' CliHandle_onEOM_def CliHandle_detachTransaction_def CliHandle_log_def)

text \<open>
  A pool of one live session sends a POST and waits for two turns of its loop: when nothing has come it
  dies, else it has the headers, and the string of the caller is the last part that has come.
\<close>

lemma pooled_post:
  assumes "CliManage_ctor api full addr 1 ce = (m, ce')"
    and "case env_connect ce of [] \<Rightarrow> True | b # bs \<Rightarrow> b" and "env_fresh ce \<notin> env_dead ce \<union> env_busy ce"
    and "stringToMethod api meth = Some POST" and "req \<noteq> []"
    and "rq = sent_request api POST (url_parse (url_ops api) (addr @ url)) (parseHeaders (folly_split api) head)"
  shows "\<exists>calls. wire_request calls = Some (rq, [req])
    \<and> CliManage_send api (answer_arrives (rq, [req]) rs parts n) ce' meth url head req m rsp rspHead
      = (if n = 0 then Inl NullDeref
         else Inr (last_part rsp (take (n - 1) parts), map_of (rsp_headers (response_head rs)) ++ rspHead, calls))"
proof -
  from one_session [OF assms(1-3)] obtain c cs where s: "cm_sesses m = c # cs" "cs_sess c = Session (env_fresh ce)"
    "env_fresh ce \<notin> env_dead ce'" and busy: "env_fresh ce \<notin> env_busy ce'" and addr: "cm_addr m = addr" .
  let ?cs = "[NewTransaction, SendHeaders rq] @ [SendBody req] @ [SendEOM]"
  have cs: "?cs = send_calls api POST (cm_addr m @ url) head req"
    using assms(5,6) addr by (simp add: send_calls_def)
  have arr: "answer_arrives (rq, [req]) rs parts n ?cs = (if n = 0 then [] else OnHeadersComplete (response_head rs)
      # map (\<lambda>b. OnBody (Some b)) (take (n - 1) parts) @ take (n - 1 - length parts) [OnEOM, DetachTransaction])"
    by (cases n) (simp_all add: answer_arrives_def take_map del: take_Cons')
  note run = send_run [OF s assms(4) cs, of "answer_arrives (rq, [req]) rs parts n" rsp rspHead]
  have "CliManage_send api (answer_arrives (rq, [req]) rs parts n) ce' meth url head req m rsp rspHead
      = (if n = 0 then Inl NullDeref
         else Inr (last_part rsp (take (n - 1) parts), map_of (rsp_headers (response_head rs)) ++ rspHead, ?cs))"
    unfolding run arr
    using busy
    by (simp add: deliver_end deliver_parts sent_handle_def CliHandle_onHeadersComplete_def CliHandle_log_def last_part_def
        Let_def)
  then show ?thesis by (intro exI [of _ ?cs] conjI) simp
qed

section \<open>What the server makes of a pull and of a push\<close>

definition pull_wire :: "('u, 's) wire_rt \<Rightarrow> 'u PullReq \<Rightarrow> bytes" where
  "pull_wire rt a = PullReq_InternalSerialize rt (snd (PullReq_ByteSizeLong rt a))"

definition push_wire :: "('u, 'u oneInfo) wire_rt \<Rightarrow> 'u PushReq \<Rightarrow> bytes" where
  "push_wire rt a = PushReq_InternalSerialize rt (snd (PushReq_ByteSizeLong rt a))"

lemma pull_wire_parses:
  assumes "pb_runtime rt varint pb" and "PullReq_fits rt a"
  shows "PullReq_InternalParse rt PullReq_SharedCtor (pull_wire rt a)
    = Some (PullReq_MergeFrom PullReq_SharedCtor a, AtLimit)"
  unfolding pull_wire_def
  by (rule wire_runtime.PullReq_parse_serialized [OF push_runtime.axioms [OF pb_runtime.axioms(1) [OF assms(1)]] assms(2)])

lemma push_wire_parses:
  assumes "pb_runtime rt varint pb" and "PushReq_fits rt a"
  shows "PushReq_InternalParse rt PushReq_SharedCtor (push_wire rt a)
    = Some (PushReq_MergeFrom PushReq_SharedCtor a, AtLimit)"
  unfolding push_wire_def
  by (rule push_runtime.PushReq_parse_serialized [OF pb_runtime.axioms(1) [OF assms(1)] assms(2)])

lemma pull_wire_nonempty:
  assumes "pb_runtime rt varint pb" and "PullReq_fits rt a" and "PullReq_keys a \<noteq> []"
  shows "pull_wire rt a \<noteq> []"
proof
  assume "pull_wire rt a = []"
  with pull_wire_parses [OF assms(1,2)] have "PullReq_keys (PullReq_MergeFrom PullReq_SharedCtor a) = []"
    by (simp add: PullReq_InternalParse_def) (simp add: PullReq_SharedCtor_def)
  with assms(3) show False by (simp add: PullReq_MergeFrom_default)
qed

lemma push_wire_nonempty:
  assumes "pb_runtime rt varint pb" and "PushReq_fits rt a" and "PushReq_infos a \<noteq> []"
  shows "push_wire rt a \<noteq> []"
proof
  assume "push_wire rt a = []"
  with push_wire_parses [OF assms(1,2)] have "PushReq_infos (PushReq_MergeFrom PushReq_SharedCtor a) = []"
    by (simp add: PushReq_InternalParse_def) (simp add: PushReq_SharedCtor_def)
  with assms(3) show False by (simp add: PushReq_MergeFrom_default)
qed

text \<open>The answer to a request with one part of a body is what \<open>onBody\<close> sends.\<close>

lemma serve_wire_one:
  assumes "serve_wire libs (rq, [b]) s = Inr (rs, s')"
  obtains r where "FsHandler_onBody libs b (FsHandlerFactory_onRequest (server_message rq)) s
      = Inr (r, FsHandlerFactory_onRequest (server_message rq), s')"
    and "response_body rs = response_body r"
    and "response_head rs = \<lparr>rsp_status = 200,
       rsp_headers = map (\<lambda>(name, value). (''x-echo-'' @ name, value)) (rq_headers rq)\<rparr>"
proof -
  from assms obtain r where r: "run_bodies (FsHandler_ops libs) [b] (FsHandlerFactory_onRequest (server_message rq)) s
      = Inr (r, FsHandlerFactory_onRequest (server_message rq), s')"
    and rs: "rs = [ResponseBuilder\<lparr>rb_status := Some (200, ''OK''), rb_headers :=
          map (\<lambda>(name, value). (''x-echo-'' @ name, value)) (rq_headers rq)\<rparr>] @ r @ [ResponseBuilder\<lparr>rb_eom := True\<rparr>]"
    by (auto simp: serve_wire_def serve_parts server_message_def)
  from r obtain r1 where "FsHandler_onBody libs b (FsHandlerFactory_onRequest (server_message rq)) s
      = Inr (r1, FsHandlerFactory_onRequest (server_message rq), s')" "r = r1"
    by (auto simp: FsHandler_ops_def res_bind_Inr)
  with rs that [of r1] show thesis
    by (simp add: response_head_def ResponseBuilder_def)
qed

text \<open>A pull that comes in one piece and meets no failure of redis.\<close>

definition pull_answer ::
  "('c, 'e, 'u) libs \<Rightarrow> ('u, 's) wire_rt \<Rightarrow> (i32 \<Rightarrow> (bytes \<times> bytes) list) \<Rightarrow> 'u PullReq \<Rightarrow> bytes \<Rightarrow> bytes list \<Rightarrow> bool" where
  "pull_answer libs rt h a body data \<longleftrightarrow>
     list_all2 (\<lambda>k x. value_of (to_int64 (lib_host libs)) (h (ucast k)) x) (PullReq_keys a) data
     \<and> (fst (PullRsp_ByteSizeLong rt (PullRsp_SharedCtor\<lparr>PullRsp_data := data\<rparr>)) < wire_max \<longrightarrow>
        PullRsp_InternalParse rt PullRsp_SharedCtor body = Some (PullRsp_SharedCtor\<lparr>PullRsp_data := data\<rparr>, AtLimit))"

lemma pull_served:
  assumes "feature_store libs look cap ok hash dec failed" and "pb_runtime rt varint (lib_pb libs)"
    and "feature_store.inv libs look cap ok hash dec failed s" and "PullReq_fits rt a" and "rq_url rq = ''/pull''"
    and "serve_wire libs (rq, [(pull_wire rt a, [])]) s = Inr (rs, s')" and "\<not> failed (env (db s'))"
  shows "\<exists>data. pull_answer libs rt (hash (env (db s))) a (response_body rs) data"
proof -
  note fs = assms(1) and pb = assms(2)
  let ?m = "InOutMsg_ctor (lib_pb libs) (pull_wire rt a) Pull"
  from pb_runtime.decode_pull [OF pb pull_wire_parses [OF pb assms(4)]] have
    m: "map info_id (msg_infos ?m) = PullReq_keys a" "msg_t ?m = Pull"
    by (simp_all add: PullReq_MergeFrom_default comp_def)
  have url: "FsHandlerFactory_onRequest (server_message rq) = \<lparr>reqType = Pull\<rparr>"
    using assms(5) by (simp add: FsHandlerFactory_onRequest_def server_message_def)
  from serve_wire_one [OF assms(6)] obtain r where
    r: "FsHandler_onBody libs (pull_wire rt a, []) \<lparr>reqType = Pull\<rparr> s = Inr (r, \<lparr>reqType = Pull\<rparr>, s')"
    "response_body rs = response_body r"
    unfolding url by blast
  obtain msg where msg: "r = [send_body (InOutMsg_EncodeRsp (lib_pb libs) 0 msg)]"
    and f: "feature_store.filled libs look cap ok hash dec failed 0 (map info_id (msg_infos ?m)) ?m s msg s'"
    using feature_store.handle_pull_answers [OF fs assms(3), of ?m] r(1)
    by (auto simp: FsHandler_onBody_def Let_def)
  from feature_store.filled_all [OF fs f, unfolded m] assms(7)
  have "list_all2 (\<lambda>k x. value_of (to_int64 (lib_host libs)) (hash (env (db s)) (ucast k)) x)
      (PullReq_keys a) (map info_d (msg_infos msg))" and "msg_t msg = Pull"
    by simp_all
  moreover have "response_body rs = InOutMsg_EncodeRsp (lib_pb libs) 0 msg"
    unfolding r(2) msg by (simp add: iobuf_bytes_def)
  ultimately show ?thesis
    using pb_runtime.encode_pull [OF pb, of msg]
    by (auto simp: pb_runtime.encodable_def [OF pb] pull_answer_def)
qed

lemma push_served:
  assumes "feature_store libs look cap ok hash dec failed" and "pb_runtime rt varint (lib_pb libs)"
    and "feature_store.inv libs look cap ok hash dec failed s" and "PushReq_fits rt a" and "rq_url rq = ''/push''"
    and "serve_wire libs (rq, [(push_wire rt a, [])]) s = Inr (rs, s')"
  shows "\<not> failed (env (db s')) \<longrightarrow> pushed dec (reads_as (lib_host libs))
      (map (\<lambda>i. \<lparr>info_id = oneInfo_key i, info_d = oneInfo_data i\<rparr>) (PushReq_infos a))
      (hash (env (db s))) (hash (env (db s')))"
    and "feature_store.inv libs look cap ok hash dec failed s'"
proof -
  note fs = assms(1) and pb = assms(2)
  let ?m = "InOutMsg_ctor (lib_pb libs) (push_wire rt a) Push"
  have m: "msg_infos ?m = map (\<lambda>i. \<lparr>info_id = oneInfo_key i, info_d = oneInfo_data i\<rparr>) (PushReq_infos a)"
    unfolding pb_runtime.decode_push [OF pb push_wire_parses [OF pb assms(4)]]
    by (simp add: PushReq_MergeFrom_default comp_def)
  have url: "FsHandlerFactory_onRequest (server_message rq) = \<lparr>reqType = Push\<rparr>"
    using assms(5) by (simp add: FsHandlerFactory_onRequest_def server_message_def)
  from serve_wire_one [OF assms(6)] obtain r where
    r: "FsHandler_onBody libs (push_wire rt a, []) \<lparr>reqType = Push\<rparr> s = Inr (r, \<lparr>reqType = Push\<rparr>, s')"
    unfolding url by blast
  from feature_store.handle_push_answers [OF fs assms(3), of ?m] r
  show "\<not> failed (env (db s')) \<longrightarrow> pushed dec (reads_as (lib_host libs))
      (map (\<lambda>i. \<lparr>info_id = oneInfo_key i, info_d = oneInfo_data i\<rparr>) (PushReq_infos a))
      (hash (env (db s))) (hash (env (db s')))"
    by (auto simp: FsHandler_onBody_def Let_def m)
  from feature_store.onBody_keeps [OF fs assms(3) r]
  show "feature_store.inv libs look cap ok hash dec failed s'" by simp
qed

text \<open>
  However the body of a pull is cut, the server dies of two things only, a connection that an earlier
  push has freed and a command without a reply; and when it answers, the store is as it was.
\<close>

lemma serve_pull_stop:
  assumes "feature_store libs look cap ok hash dec failed"
    and "feature_store.inv libs look cap ok hash dec failed s" and "rq_url rq = ''/pull''"
  shows "serve_wire libs (rq, pieces) s = Inl f \<Longrightarrow> f = UseAfterFree \<and> (\<exists>d\<in>set (insts s). dbCon d \<in> set (freed (db s)))
      \<or> f = NullDeref \<and> mute (lib_host libs) ''HGETALL %d''"
    and "serve_wire libs (rq, pieces) s = Inr (rs, s') \<Longrightarrow> feature_store.inv libs look cap ok hash dec failed s'
      \<and> hash (env (db s')) = hash (env (db s)) \<and> (\<not> failed (env (db s')) \<longrightarrow> \<not> failed (env (db s)))"
proof -
  have "push_bodies [(server_message rq, pieces)] = 0"
    using assms(3) by (simp add: push_bodies_def server_message_def)
  then have "\<not> 0 < push_bodies [(server_message rq, pieces)]" by simp
  note stop = feature_store.serve_stop [OF assms(1,2), of "(server_message rq, pieces)", simplified this, simplified]
  show "f = UseAfterFree \<and> (\<exists>d\<in>set (insts s). dbCon d \<in> set (freed (db s)))
      \<or> f = NullDeref \<and> mute (lib_host libs) ''HGETALL %d''"
    if "serve_wire libs (rq, pieces) s = Inl f"
    using stop that
    by (auto simp: serve_wire_def feature_store.ends_def [OF assms(1)] feature_store.live_def [OF assms(1)] list_all_iff)
  show "feature_store.inv libs look cap ok hash dec failed s'
      \<and> hash (env (db s')) = hash (env (db s)) \<and> (\<not> failed (env (db s')) \<longrightarrow> \<not> failed (env (db s)))"
    if "serve_wire libs (rq, pieces) s = Inr (rs, s')"
    using stop that by (auto simp: serve_wire_def feature_store.same_def [OF assms(1)])
qed

lemma value_of_single: "value_of num [(f, y)] x \<Longrightarrow> x = c_str y"
  by (auto simp: value_of_def is_latest_def split: option.splits)

section \<open>The older client over the network\<close>

definition fresh_conn :: "'url net_api \<Rightarrow> string \<Rightarrow> 'url CurlClient" where
  "fresh_conn api addr =
     CurlClient_setFlowControlSettings 65536 (CurlClient_ctor addr (url_parse (url_ops api) addr) False 1 1 False)"

lemma fresh_pool:
  assumes "i < num"
  shows "hm_conns (CurlManage_ctor api addr num) ! i = fresh_conn api addr"
    and "length (hm_conns (CurlManage_ctor api addr num)) = num" and "hm_num (CurlManage_ctor api addr num) = num"
proof -
  have "make_conns addr u n = replicate n (CurlClient_setFlowControlSettings 65536 (CurlClient_ctor addr u False 1 1 False))"
    for n and u :: 'a
    by (induction n) (simp_all add: replicate_append_same)
  with assms show "hm_conns (CurlManage_ctor api addr num) ! i = fresh_conn api addr"
    "length (hm_conns (CurlManage_ctor api addr num)) = num" "hm_num (CurlManage_ctor api addr num) = num"
    by (simp_all add: CurlManage_ctor_def fresh_conn_def Let_def)
qed

lemma callbacks_parts:
  assumes "cc_outputStr c = Out p" and "pw_mem w p = Some old" and "t \<notin> set (pw_gone w)"
  shows "callbacks api (map (\<lambda>b. (Some t, BodyPart (Some b))) parts @ es) c w =
    callbacks api es c (w\<lparr>pw_mem := (pw_mem w)(p \<mapsto> old @ concat (map iobuf_bytes parts))\<rparr>)"
  using assms(2,3)
proof (induction parts arbitrary: w old)
  case Nil
  then have "(pw_mem w)(p \<mapsto> old) = pw_mem w" by auto
  then show ?case by simp
next
  case (Cons b parts)
  let ?w = "w\<lparr>pw_mem := (pw_mem w)(p \<mapsto> old @ iobuf_bytes b)\<rparr>"
  have "CurlClient_onBody (Some b) c w = Inr ?w"
    using assms(1) Cons.prems by (simp add: CurlClient_onBody_def append_to_eq iobuf_bytes_def del: append_to.simps)
  moreover have "pw_mem ?w p = Some (old @ iobuf_bytes b)" by simp
  ultimately show ?case using Cons.IH [of ?w "old @ iobuf_bytes b"] Cons.prems(2)
    by (simp add: fun_upd_def if_distrib cong: if_cong)
qed

text \<open>
  The first send on a connection: it connects, and what the new transaction \<open>t\<close> of the session brings of
  the answer within the sleep goes to the client.
\<close>

definition first_answer ::
  "transport \<Rightarrow> nat \<Rightarrow> HTTPResponse \<Rightarrow> IOBuf list \<Rightarrow> nat \<Rightarrow> (nat option \<times> client_callback) list" where
  "first_answer tr t msg parts n =
     (None, ConnectSuccess tr)
     # take n ((Some t, HeadersComplete msg) # map (\<lambda>b. (Some t, BodyPart (Some b))) parts @ [(Some t, EndOfMessage)])"

lemma older_post:
  assumes "stringToMethod api meth = Some POST" and "url \<noteq> []" and "req \<noteq> []"
    and "\<not> isSecure (url_ops api) (url_parse (url_ops api) (addr @ url))" and "pw_mem w p = Some old" and "0 < num"
    and "pw_fresh w \<notin> set (pw_gone w)"
    and "rq = sent_request api POST (url_parse (url_ops api) (addr @ url)) (parseHeaders (folly_split api) head)"
  shows "if n = 0
    then CurlManage_send api r newEx (first_answer tr (pw_fresh w) msg parts n) meth url head req (Out p) rspHead
        (CurlManage_ctor api addr num) w = Inl NullDeref
    else \<exists>m' w' cs. CurlManage_send api r newEx (first_answer tr (pw_fresh w) msg parts n) meth url head req (Out p) rspHead
        (CurlManage_ctor api addr num) w
      = Inr (map_of (rsp_headers msg) ++ rspHead, m', w')
    \<and> pw_mem w' p = Some (old @ concat (map iobuf_bytes (take (n - 1) parts)))
    \<and> pw_calls w' = pw_calls w @ map (Pair (pw_fresh w)) cs \<and> wire_request cs = Some (rq, [req])"
proof -
  let ?m = "CurlManage_ctor api addr num" and ?i = "r mod num"
  have i: "?i < num" using assms(6) by simp
  note pool = fresh_pool [OF i, of api addr]
  let ?c = "CurlClient_setUrl api url (CurlClient_setMethod POST (CurlClient_setHeader (parseHeaders (folly_split api) head)
    (CurlClient_setRespMsg (Out p) (CurlClient_setSendMsg req (fresh_conn api addr)))))"
  have prep: "prepare_client api meth url head req (Out p) (fresh_conn api addr) = Inr ?c"
    using assms(1,2) by (simp add: prepare_client_def Let_def)
  have fresh: "\<not> CurlClient_hasConnect ?c" "cc_url ?c = url_parse (url_ops api) (addr @ url)" "cc_outputStr ?c = Out p"
    "\<not> cc_loggingEnabled ?c" "cc_eomFunc ?c = None" "cc_response ?c = None"
    by (simp_all add: CurlClient_setUrl_def CurlClient_setMethod_def CurlClient_setHeader_def CurlClient_setRespMsg_def
        CurlClient_setSendMsg_def fresh_conn_def CurlClient_setFlowControlSettings_def CurlClient_ctor_def
        CurlClient_hasConnect_def)
  let ?t = "pw_fresh w"
  let ?cs = "[SetFlowControl 65536 65536 65536, NewTransaction, SendHeaders rq, SendBody req, SendEOM]"
  have request: "cc_request (CurlClient_setupHeaders api (?c\<lparr>cc_txn := Some ?t\<rparr>)) = rq"
    using assms(4,8)
    by (simp add: CurlClient_setupHeaders_def CurlClient_setUrl_def CurlClient_setMethod_def CurlClient_setHeader_def
        CurlClient_setRespMsg_def CurlClient_setSendMsg_def fresh_conn_def CurlClient_setFlowControlSettings_def
        CurlClient_ctor_def sent_request_def add_headers HTTPRequest_def Let_def)
  have after: "after_headers ?c = [SendBody req, SendEOM]" "cc_recvWindow ?c = 65536"
    using assms(3)
    by (simp_all add: after_headers_def CurlClient_setUrl_def CurlClient_setMethod_def CurlClient_setHeader_def
        CurlClient_setRespMsg_def CurlClient_setSendMsg_def fresh_conn_def CurlClient_setFlowControlSettings_def
        CurlClient_ctor_def)
  let ?w = "pool_log (LOG_INFO ''leon_debug run thread'') (pool_log (LOG_INFO ''leon_debug run in thread'') w)"
  have w: "pw_fresh ?w = ?t" "pw_calls ?w = pw_calls w" "pw_mem ?w p = Some old" "pw_gone ?w = pw_gone w"
    using assms(5) by (simp_all add: pool_log_def)
  obtain c1 w1 where conn: "CurlClient_connectSuccess api tr ?c ?w = Inr (c1, w1)"
    and c1: "cc_outputStr c1 = Out p" "\<not> cc_loggingEnabled c1" "cc_eomFunc c1 = None" "cc_response c1 = None"
    and w1: "pw_mem w1 p = Some old" "pw_calls w1 = pw_calls w @ map (Pair ?t) ?cs" "?t \<notin> set (pw_gone w1)"
    using assms(4,7) fresh request after w
    by (simp add: CurlClient_connectSuccess_def newTransaction_def sendRequest_eq Let_def on_txn_def pool_log_def
        CurlClient_setupHeaders_def)
  let ?send = "CurlManage_send api r newEx (first_answer tr ?t msg parts n) meth url head req (Out p) rspHead ?m w"
  have send: "?send = res_bind (callbacks api (first_answer tr ?t msg parts n) ?c ?w) (\<lambda>(c, w).
      case cc_response c of None \<Rightarrow> Inl NullDeref
      | Some msg \<Rightarrow> Inr (map_of (rsp_headers msg) ++ rspHead, ?m\<lparr>hm_conns := (hm_conns ?m)[?i := c]\<rparr>, w))"
    using prep fresh(1) pool i assms(6) unfolding CurlManage_send_def by (simp only: insert_headers Let_def) simp
  show ?thesis
  proof (cases n)
    case 0
    with conn c1(4) show ?thesis unfolding send by (simp add: first_answer_def)
  next
    case (Suc k)
    let ?w2 = "w1\<lparr>pw_mem := (pw_mem w1)(p \<mapsto> old @ concat (map iobuf_bytes (take k parts)))\<rparr>"
    have "k - length parts = 0 \<or> k - length parts \<noteq> 0" by simp
    then have "callbacks api (first_answer tr ?t msg parts n) ?c ?w = Inr (c1\<lparr>cc_response := Some msg\<rparr>, ?w2)"
      using conn c1 w1(1,3) Suc
      by (auto simp: first_answer_def take_map CurlClient_onHeadersComplete_def CurlClient_printMessageImpl_def
          callbacks_parts CurlClient_onEOM_def pool_log_if_def take_Cons')
    then have "?send = Inr (map_of (rsp_headers msg) ++ rspHead,
        ?m\<lparr>hm_conns := (hm_conns ?m)[?i := c1\<lparr>cc_response := Some msg\<rparr>]\<rparr>, ?w2)"
      unfolding send by simp
    moreover have "wire_request ?cs = Some (rq, [req])" by simp
    moreover have "pw_calls ?w2 = pw_calls w @ map (Pair ?t) ?cs" "pw_mem ?w2 p = Some (old @ concat (map iobuf_bytes (take k parts)))"
      using w1(2) by simp_all
    moreover have "n \<noteq> 0" "n - 1 = k" using Suc by simp_all
    ultimately show ?thesis unfolding if_not_P [OF \<open>n \<noteq> 0\<close>] \<open>n - 1 = k\<close> by blast
  qed
qed

section \<open>Properties\<close>

text \<open>The concrete server, asked by either client.\<close>

lemma ex_serve_pull:
  assumes "rq_url rq = ''/pull''"
  shows "\<exists>rs. serve_wire ref_libs (rq, [(pull_wire srv_rt ex_pull_req, [])]) ex_pushed = Inr (rs, ex_pulled)"
proof -
  have url: "FsHandlerFactory_onRequest (server_message rq) = \<lparr>reqType = Pull\<rparr>"
    using assms by (simp add: FsHandlerFactory_onRequest_def server_message_def)
  have b: "pull_wire srv_rt ex_pull_req = ex_pull_body" by (simp add: pull_wire_def ex_pull_body_def)
  show ?thesis
    by (simp add: serve_wire_def serve_def run_request_def FsHandler_ops_def url b FsHandler_onRequest_eq
        FsHandler_onEOM_def ex_pull_run)
qed

lemma ex_serve_push:
  assumes "rq_url rq = ''/push''"
  shows "\<exists>rs. serve_wire ref_libs (rq, [(push_wire srv_rt ex_push_a, [])]) ex_start = Inr (rs, ex_pushed)"
proof -
  have url: "FsHandlerFactory_onRequest (server_message rq) = \<lparr>reqType = Push\<rparr>"
    using assms by (simp add: FsHandlerFactory_onRequest_def server_message_def)
  have b: "push_wire srv_rt ex_push_a = ex_push_body" by (simp add: push_wire_def ex_push_body_def)
  show ?thesis
    by (simp add: serve_wire_def serve_def run_request_def FsHandler_ops_def url b FsHandler_onRequest_eq
        FsHandler_onEOM_def ex_push_run)
qed

lemma ex_urls:
  "path \<in> {''/push'', ''/pull''} \<Longrightarrow> makeRelativeURL (url_ops ref_net) (url_parse (url_ops ref_net) (''h'' @ path)) = path"
  "\<not> isSecure (url_ops ref_net) u"
  "stringToMethod ref_net ''POST'' = Some POST"
  by (auto simp: ref_net_def ref_url_def)

lemma ex_pull_keys: "PullReq_keys ex_pull_req = [300]"
  by (simp add: ex_pull_req_def PullReq_add_keys_def PullReq_SharedCtor_def)

lemma ref_libs_pb: "pb_runtime srv_rt varint_ref (lib_pb ref_libs)"
  using ref_msgs_conforms by (simp add: ref_libs_def)



text \<open>
  C25. What the older client makes of the same pull on the first send of a new pool, to a URL that is not
  secure: it connects and puts the same request on the wire, and however the answer is cut and as much of
  it as comes within the sleep, the caller's string is all of that, where the pooled client keeps the
  last part: the whole answer when its last part is in time. When not even the headers are, the process
  dies of a null pointer. The answer, of a request that reached the server in one piece and met no
  failure of redis, carries what the store holds for each key.
\<close>

theorem older_client_gets_whole_answer:
  assumes "feature_store libs look cap ok hash dec failed" and "\<forall>k. versioned dec (hash e k)"
    and "pb_runtime rt varint (lib_pb libs)"
    and "serve_all libs rqs (server_start libs e) = Inr (rs, s)"
    and "PullReq_fits rt a" and "PullReq_keys a \<noteq> []"
    and "stringToMethod api ''POST'' = Some POST" and "0 < num"
    and "makeRelativeURL (url_ops api) (url_parse (url_ops api) (addr @ ''/pull'')) = ''/pull''"
    and "\<not> isSecure (url_ops api) (url_parse (url_ops api) (addr @ ''/pull''))"
    and "rq = sent_request api POST (url_parse (url_ops api) (addr @ ''/pull'')) (parseHeaders (folly_split api) head)"
    and "serve_wire libs (rq, [(pull_wire rt a, [])]) s = Inr (rs', s')" and "\<not> failed (env (db s'))"
    and "cut_of rs' parts" and "pw_mem w p = Some []" and "pw_fresh w \<notin> set (pw_gone w)"
  shows "(if n = 0
      then CurlManage_send api r newEx (first_answer tr (pw_fresh w) (response_head rs') parts n)
          ''POST'' ''/pull'' head (pull_wire rt a) (Out p) rspHead (CurlManage_ctor api addr num) w = Inl NullDeref
      else \<exists>m' w' cs. CurlManage_send api r newEx (first_answer tr (pw_fresh w) (response_head rs') parts n)
          ''POST'' ''/pull'' head (pull_wire rt a) (Out p) rspHead (CurlManage_ctor api addr num) w
        = Inr (map_of (rsp_headers (response_head rs')) ++ rspHead, m', w')
        \<and> pw_calls w' = pw_calls w @ map (Pair (pw_fresh w)) cs \<and> wire_request cs = Some (rq, [pull_wire rt a])
        \<and> pw_mem w' p = Some (concat (map iobuf_bytes (take (n - 1) parts)))
        \<and> (length parts < n \<longrightarrow> pw_mem w' p = Some (response_body rs')))
    \<and> (\<exists>data. pull_answer libs rt (hash (env (db s))) a (response_body rs') data)"
proof
  note fs = assms(1)
  have url: "rq_url rq = ''/pull''" using assms(9,11) by (simp add: sent_request_def)
  have inv: "feature_store.inv libs look cap ok hash dec failed s"
    using feature_store.history_keeps [OF fs feature_store.start_inv(1) [OF fs assms(2)] assms(4)] by simp
  show "\<exists>data. pull_answer libs rt (hash (env (db s))) a (response_body rs') data"
    by (rule pull_served [OF fs assms(3) inv assms(5) url assms(12,13)])
  have ne: "''/pull'' \<noteq> []" by simp
  have whole: "length parts < n \<Longrightarrow> concat (map iobuf_bytes (take (n - 1) parts)) = response_body rs'"
    using assms(14) by (simp add: cut_of_def)
  show "if n = 0
      then CurlManage_send api r newEx (first_answer tr (pw_fresh w) (response_head rs') parts n)
          ''POST'' ''/pull'' head (pull_wire rt a) (Out p) rspHead (CurlManage_ctor api addr num) w = Inl NullDeref
      else \<exists>m' w' cs. CurlManage_send api r newEx (first_answer tr (pw_fresh w) (response_head rs') parts n)
          ''POST'' ''/pull'' head (pull_wire rt a) (Out p) rspHead (CurlManage_ctor api addr num) w
        = Inr (map_of (rsp_headers (response_head rs')) ++ rspHead, m', w')
        \<and> pw_calls w' = pw_calls w @ map (Pair (pw_fresh w)) cs \<and> wire_request cs = Some (rq, [pull_wire rt a])
        \<and> pw_mem w' p = Some (concat (map iobuf_bytes (take (n - 1) parts)))
        \<and> (length parts < n \<longrightarrow> pw_mem w' p = Some (response_body rs'))"
    using older_post [OF assms(7) ne pull_wire_nonempty [OF assms(3,5,6)] assms(10,15,8,16,11),
        of n r newEx tr "response_head rs'" parts rspHead] whole
    unfolding append_Nil by (cases "n = 0") (simp, metis)
qed

theorem older_client_gets_whole_answer_witness:
  "\<exists>rs m' w' cs data.
      serve_wire ref_libs (sent_request ref_net POST (url_parse (url_ops ref_net) (''h'' @ ''/pull''))
          (parseHeaders (folly_split ref_net) []), [(pull_wire srv_rt ex_pull_req, [])]) ex_pushed = Inr (rs, ex_pulled)
    \<and> CurlManage_send ref_net 5 None
        (first_answer PlainSocket 1 (response_head rs) (map (\<lambda>x. ([x], [])) (response_body rs)) (length (response_body rs) + 2))
        ''POST'' ''/pull'' [] (pull_wire srv_rt ex_pull_req) (Out 5) Map.empty (CurlManage_ctor ref_net ''h'' 3)
        (ex_world\<lparr>pw_mem := [5 \<mapsto> []]\<rparr>)
      = Inr (map_of (rsp_headers (response_head rs)) ++ Map.empty, m', w')
    \<and> pw_mem w' 5 = Some (response_body rs)
    \<and> pull_answer ref_libs srv_rt (ref_hash (env (db ex_pushed))) ex_pull_req (response_body rs) data"
proof -
  let ?rq = "sent_request ref_net POST (url_parse (url_ops ref_net) (''h'' @ ''/pull'')) (parseHeaders (folly_split ref_net) [])"
  have pull: "''/pull'' \<in> {''/push'', ''/pull''}" by simp
  have "rq_url ?rq = ''/pull''" using ex_urls(1) [OF pull] by (simp add: sent_request_def)
  from ex_serve_pull [OF this] obtain rs where served:
    "serve_wire ref_libs (?rq, [(pull_wire srv_rt ex_pull_req, [])]) ex_pushed = Inr (rs, ex_pulled)"
    by blast
  obtain hs where h: "serve_all ref_libs [ex_push_rq] (server_start ref_libs ex_env) = Inr (hs, ex_pushed)"
    using ex_history by blast
  have ne: "PullReq_keys ex_pull_req \<noteq> []" by (simp add: ex_pull_keys)
  let ?parts = "map (\<lambda>x. ([x], [])) (response_body rs)"
  have cut: "cut_of rs ?parts"
    by (simp add: cut_of_def iobuf_bytes_def comp_def)
  let ?w = "ex_world\<lparr>pw_mem := [5 \<mapsto> []]\<rparr>"
  have w: "pw_mem ?w 5 = Some []" "pw_fresh ?w \<notin> set (pw_gone ?w)" "pw_fresh ?w = 1" and three: "0 < (3 :: nat)"
    by (simp_all add: ex_world_def)
  have fine: "\<not> (\<lambda>e. False) (env (db ex_pulled))" by simp
  note p = older_client_gets_whole_answer [OF ref_store_conforms ex_env_versioned ref_libs_pb h ex_pull_req_fits ne
      ex_urls(3) three ex_urls(1) [OF pull] ex_urls(2) refl served fine cut w(1,2), of "length (response_body rs) + 2" 5 None
      PlainSocket Map.empty]
  from conjunct1 [OF p] obtain m' w' cs where "CurlManage_send ref_net 5 None
        (first_answer PlainSocket 1 (response_head rs) ?parts (length (response_body rs) + 2))
        ''POST'' ''/pull'' [] (pull_wire srv_rt ex_pull_req) (Out 5) Map.empty (CurlManage_ctor ref_net ''h'' 3) ?w
      = Inr (map_of (rsp_headers (response_head rs)) ++ Map.empty, m', w')"
    "pw_mem w' 5 = Some (response_body rs)"
    unfolding w(3) by auto
  moreover obtain data where "pull_answer ref_libs srv_rt (ref_hash (env (db ex_pushed))) ex_pull_req (response_body rs) data"
    using conjunct2 [OF p] by blast
  ultimately show ?thesis using served by (intro exI conjI)
qed

text \<open>
  C4. Read your writes over HTTP, whatever comes between: a pool pushes a key that has no value yet, the
  push reaches the server in one piece and its whole answer the client in time; other requests follow,
  and a pull of the same pool in one piece. As long as redis does not fail, the answer to that pull
  carries, at each place where it asks for the key, the pushed data up to its first NUL when that has at
  most 23 bytes, and for longer data what the \<open>%s\<close> conversion has read in place of it; the client
  returns the last part of the answer that is in time.
\<close>

theorem push_then_pull_over_http:
  assumes "feature_store libs look cap ok hash dec failed" and "\<forall>k. versioned dec (hash e k)"
    and "pb_runtime rt varint (lib_pb libs)"
    and "serve_all libs rqs (server_start libs e) = Inr (rs, s)"
    and "CliManage_ctor api full addr 1 ce = (m, ce')"
    and "case env_connect ce of [] \<Rightarrow> True | b # bs \<Rightarrow> b" and "env_fresh ce \<notin> env_dead ce \<union> env_busy ce"
    and "stringToMethod api ''POST'' = Some POST"
    and "\<forall>path\<in>{''/push'', ''/pull''}. makeRelativeURL (url_ops api) (url_parse (url_ops api) (addr @ path)) = path"
    and "PushReq_fits rt p" and "hash (env (db s)) (ucast k) = []"
    and "fresh_data (map (\<lambda>i. \<lparr>info_id = oneInfo_key i, info_d = oneInfo_data i\<rparr>) (PushReq_infos p)) (ucast k) = Some y"
    and "push_rq = sent_request api POST (url_parse (url_ops api) (addr @ ''/push'')) (parseHeaders (folly_split api) head)"
    and "serve_wire libs (push_rq, [(push_wire rt p, [])]) s = Inr (rs1, s1)"
    and "serve_all libs rqs2 s1 = Inr (rs2, s2)"
    and "PullReq_fits rt a" and "PullReq_keys a \<noteq> []"
    and "pull_rq = sent_request api POST (url_parse (url_ops api) (addr @ ''/pull'')) (parseHeaders (folly_split api) head2)"
    and "serve_wire libs (pull_rq, [(pull_wire rt a, [])]) s2 = Inr (rs3, s3)" and "\<not> failed (env (db s3))"
  shows "(\<exists>calls. CliManage_send api (answer_arrives (push_rq, [push_wire rt p]) rs1 parts1 (length parts1 + 3)) ce'
          ''POST'' ''/push'' head (push_wire rt p) m [] rspHead
        = Inr (last_part [] parts1, map_of (rsp_headers (response_head rs1)) ++ rspHead, calls))
    \<and> (\<exists>calls. CliManage_send api (answer_arrives (pull_rq, [pull_wire rt a]) rs3 parts n) ce'
          ''POST'' ''/pull'' head2 (pull_wire rt a) m [] rspHead'
        = (if n = 0 then Inl NullDeref
           else Inr (last_part [] (take (n - 1) parts), map_of (rsp_headers (response_head rs3)) ++ rspHead', calls)))
    \<and> (\<exists>data t. pull_answer libs rt (hash (env (db s2))) a (response_body rs3) data
        \<and> reads_as (lib_host libs) y t \<and> (length y \<le> 23 \<longrightarrow> c_str t = c_str y)
        \<and> (\<forall>i<length data. PullReq_keys a ! i = k \<longrightarrow> data ! i = c_str t))"
proof -
  note fs = assms(1) and pb = assms(3) and client = assms(5-8) and keeps = feature_store.keeps_def [OF assms(1)]
  have inv: "feature_store.inv libs look cap ok hash dec failed s"
    using feature_store.history_keeps [OF fs feature_store.start_inv(1) [OF fs assms(2)] assms(4)] by simp
  have url: "rq_url push_rq = ''/push''" "rq_url pull_rq = ''/pull''" using assms(9,13,18) by (simp_all add: sent_request_def)
  have ne: "PushReq_infos p \<noteq> []" using assms(12) by (auto simp: fresh_data_def)
  note push = push_served [OF fs pb inv assms(10) url(1) assms(14)]
  have h2: "feature_store.inv libs look cap ok hash dec failed s2" "feature_store.keeps hash failed s1 s2"
    using feature_store.history_keeps [OF fs push(2) assms(15)] by simp_all
  have fine: "\<not> failed (env (db s2))" using serve_pull_stop(2) [OF fs h2(1) url(2) assms(19)] assms(20) by simp
  obtain v t where t: "reads_as (lib_host libs) y t" and v: "hash (env (db s1)) (ucast k) = [(dec v, t)]"
    using push(1) h2(2) fine assms(11,12) by (auto simp: keeps pushed_def dest!: spec [of _ "ucast k"])
  have v2: "hash (env (db s2)) (ucast k) = [(dec v, t)]" using v h2(2) fine by (simp add: keeps)
  obtain data where data: "pull_answer libs rt (hash (env (db s2))) a (response_body rs3) data"
    using pull_served [OF fs pb h2(1) assms(16) url(2) assms(19,20)] by blast
  have "data ! i = c_str t" if "i < length data" "PullReq_keys a ! i = k" for i
    using list_all2_nthD2 [OF conjunct1 [OF data [unfolded pull_answer_def]] that(1)] that(2) v2
    by (simp add: value_of_single)
  moreover have "length y \<le> 23 \<longrightarrow> c_str t = c_str y"
    using t redis_hashes.short_string [OF feature_store.axioms(2) [OF fs]] by (auto simp: reads_as_def c_str_no_nul)
  ultimately show ?thesis
    using pooled_post [OF client push_wire_nonempty [OF pb assms(10) ne] assms(13), of rs1 parts1 "length parts1 + 3" "[]" rspHead]
      pooled_post [OF client pull_wire_nonempty [OF pb assms(16,17)] assms(18), of rs3 parts n "[]" rspHead'] t data
    by auto
qed

theorem push_then_pull_over_http_witness:
  "\<exists>m ce' rs1 rs3 calls data. CliManage_ctor ref_net (\<lambda>_. True) ''h'' 1 fresh_env = (m, ce')
    \<and> serve_wire ref_libs (sent_request ref_net POST (url_parse (url_ops ref_net) (''h'' @ ''/push''))
        (parseHeaders (folly_split ref_net) []), [(push_wire srv_rt ex_push_a, [])]) ex_start = Inr (rs1, ex_pushed)
    \<and> CliManage_send ref_net (answer_arrives (sent_request ref_net POST (url_parse (url_ops ref_net) (''h'' @ ''/pull''))
        (parseHeaders (folly_split ref_net) []), [pull_wire srv_rt ex_pull_req]) rs3 [(response_body rs3, [])] 2) ce'
          ''POST'' ''/pull'' [] (pull_wire srv_rt ex_pull_req) m [] Map.empty
        = Inr (response_body rs3, map_of (rsp_headers (response_head rs3)), calls)
    \<and> pull_answer ref_libs srv_rt (ref_hash (env (db ex_pushed))) ex_pull_req (response_body rs3) data
    \<and> data = [[104, 105]]"
proof -
  obtain m ce' where m: "CliManage_ctor ref_net (\<lambda>_. True) ''h'' 1 fresh_env = (m, ce')" by fastforce
  let ?rq = "\<lambda>path. sent_request ref_net POST (url_parse (url_ops ref_net) (''h'' @ path)) (parseHeaders (folly_split ref_net) [])"
  have rqs: "rq_url (?rq ''/push'') = ''/push''" "rq_url (?rq ''/pull'') = ''/pull''"
    using ex_urls(1) by (simp_all add: sent_request_def)
  obtain rs1 where served1: "serve_wire ref_libs (?rq ''/push'', [(push_wire srv_rt ex_push_a, [])]) ex_start = Inr (rs1, ex_pushed)"
    using ex_serve_push [OF rqs(1)] by blast
  obtain rs3 where served2: "serve_wire ref_libs (?rq ''/pull'', [(pull_wire srv_rt ex_pull_req, [])]) ex_pushed = Inr (rs3, ex_pulled)"
    using ex_serve_pull [OF rqs(2)] by blast
  have start: "serve_all ref_libs [] (server_start ref_libs ex_env) = Inr ([], ex_start)"
    and rest: "serve_all ref_libs [] ex_pushed = Inr ([], ex_pushed)"
    by (simp_all add: ex_start_eq)
  have client: "case env_connect fresh_env of [] \<Rightarrow> True | b # bs \<Rightarrow> b" "env_fresh fresh_env \<notin> env_dead fresh_env \<union> env_busy fresh_env"
    and ne: "PullReq_keys ex_pull_req \<noteq> []"
    by (simp_all add: ex_pull_keys)
  have empty: "ref_hash (env (db ex_start)) (ucast (300 :: u64)) = []"
    by (simp add: ex_start_def ref_hash_def)
  have fresh: "fresh_data (map (\<lambda>i. \<lparr>info_id = oneInfo_key i, info_d = oneInfo_data i\<rparr>) (PushReq_infos ex_push_a))
      (ucast (300 :: u64)) = Some [104, 105]"
    by (simp add: ex_push_a_def PushReq_add_infos_def PushReq_SharedCtor_def oneInfo_set_key_def oneInfo_set_data_def
        fresh_data_def)
  have urls: "\<forall>path\<in>{''/push'', ''/pull''}.
      makeRelativeURL (url_ops ref_net) (url_parse (url_ops ref_net) (''h'' @ path)) = path"
    using ex_urls(1) by blast
  have fine: "\<not> (\<lambda>e. False) (env (db ex_pulled))" by simp
  note p = push_then_pull_over_http [OF ref_store_conforms ex_env_versioned ref_libs_pb start m client ex_urls(3) urls
      ex_push_a_fits empty fresh refl served1 rest ex_pull_req_fits ne refl served2 fine, where rspHead = Map.empty and rspHead' = Map.empty
      and parts = "[(response_body rs3, [])]" and n = 2]
  obtain calls where got: "CliManage_send ref_net (answer_arrives (?rq ''/pull'', [pull_wire srv_rt ex_pull_req]) rs3
        [(response_body rs3, [])] 2) ce' ''POST'' ''/pull'' [] (pull_wire srv_rt ex_pull_req) m [] Map.empty
      = Inr (response_body rs3, map_of (rsp_headers (response_head rs3)), calls)"
    using conjunct1 [OF conjunct2 [OF p]] by (auto simp: last_part_def iobuf_bytes_def)
  obtain data t where data: "pull_answer ref_libs srv_rt (ref_hash (env (db ex_pushed))) ex_pull_req (response_body rs3) data"
    and t: "length [104, 105 :: u8] \<le> 23 \<longrightarrow> c_str t = c_str [104, 105]"
    and all: "\<forall>i<length data. PullReq_keys ex_pull_req ! i = 300 \<longrightarrow> data ! i = c_str t"
    using conjunct2 [OF conjunct2 [OF p]] by (elim exE conjE) (rule that)
  have "length data = 1" using data by (auto simp: pull_answer_def ex_pull_keys dest: list_all2_lengthD)
  moreover have "c_str t = [104, 105]" using t by (simp add: c_str_def)
  ultimately have "data = [[104, 105]]" using all by (cases data) (simp_all add: ex_pull_keys)
  with m served1 got data show ?thesis by (intro exI conjI)
qed

end
