(* ===== verification/ToolServer.thy ===== *)
theory ToolServer
  imports ClientServer CurlTool
begin

text \<open>
  The command-line client of test-debug/curl as a whole program, against the feature server: from its
  flags and the file it posts to the request on the wire, the answer of the server, and what is
  printed in the end.
\<close>

section \<open>The request of the program\<close>

text \<open>The file in pieces of 4096 bytes; the last piece is shorter, and empty when the size is a multiple.\<close>

function upload_chunks :: "bytes \<Rightarrow> bytes list" where
  "upload_chunks d = (if length d < 4096 then [d] else take 4096 d # upload_chunks (drop 4096 d))"
  by pat_completeness auto
termination by (relation "measure length") auto

declare upload_chunks.simps [simp del]

lemma upload_chunks_short [simp]: "length d < 4096 \<Longrightarrow> upload_chunks d = [d]"
  by (simp add: upload_chunks.simps)

lemma chunks_unique:
  "concat chunks = d \<Longrightarrow> chunks \<noteq> [] \<Longrightarrow> list_all (\<lambda>b. length b = 4096) (butlast chunks) \<Longrightarrow>
     length (last chunks) < 4096 \<Longrightarrow> chunks = upload_chunks d"
proof (induction chunks arbitrary: d)
  case (Cons c cs)
  show ?case
  proof (cases "cs = []")
    case False
    with Cons.prems have c: "length c = 4096" "take 4096 d = c" "drop 4096 d = concat cs" by auto
    with Cons.IH [OF refl False] Cons.prems False have "cs = upload_chunks (drop 4096 d)" by simp
    with c Cons.prems(1) show ?thesis by (subst upload_chunks.simps) auto
  qed (use Cons.prems in simp)
qed simp

definition curl_client :: "'url net_api \<Rightarrow> curl_flags \<Rightarrow> 'url CurlTool" where
  "curl_client api fl =
     CurlTool_setLogging (cf_log_response fl) (CurlTool_setFlowControlSettings (cf_recv_window fl)
       (CurlTool_ctor api POST (url_parse (url_ops api) (cf_url fl)) None
          (CurlTool_parseHeaders (folly_split api) (cf_headers fl)) (cf_input_filename fl) (cf_h2c fl) 1 1 False))"

definition curl_request :: "'url net_api \<Rightarrow> curl_flags \<Rightarrow> HTTPRequest" where
  "curl_request api fl = ct_request (CurlTool_setupHeaders api (curl_client api fl))"

lemma curl_main_post:
  assumes "cf_http_method fl = ''POST''" and "stringToMethod api ''POST'' = Some POST"
    and "files w (cf_input_filename fl) = Some d" and "cf_proxy fl = []"
    and "\<not> isSecure (url_ops api) (url_parse (url_ops api) (cf_url fl))"
  shows "\<exists>start. curl_main api fl w = Inr (start, Some (curl_client api fl))"
  using assms by (simp add: curl_main_def curl_client_def Let_def)

text \<open>The connection: the whole file goes out when nothing pauses it.\<close>

definition after_connect :: "'url CurlTool \<Rightarrow> bool" where
  "after_connect c \<longleftrightarrow> ct_outputStream c = Some Stdout \<and> ct_loggingEnabled c \<and> ct_eomFunc c = None"

lemma sendRequest_keeps_output:
  assumes "CurlTool_sendRequest api c w = Inr (c', w')"
  shows "after_connect c' = after_connect c"
  using assms
  by (auto simp: CurlTool_sendRequest_def CurlTool_setupHeaders_def CurlTool_sendBodyFromFile_def after_connect_def Let_def
      split_beta split: option.splits if_splits)

lemma curl_connects:
  assumes "files w (cf_input_filename fl) = Some d" and "pauses w = []" and "calls w = []"
    and "cf_log_response fl"
    and "\<not> isSecure (url_ops api) (url_parse (url_ops api) (cf_url fl))"
  shows "\<exists>c' w'. CurlTool_connectSuccess api tr (curl_client api fl) w = Inr (c', w')
    \<and> after_connect c' \<and> printed w' = printed w
    \<and> wire_request (calls w') = Some (curl_request api fl, upload_chunks d)"
proof -
  let ?c = "curl_client api fl" and ?n = "cf_recv_window fl"
  let ?w = "w\<lparr>calls := [SetFlowControl ?n ?n ?n, NewTransaction]\<rparr>"
  let ?h = "CurlTool_setupHeaders api ?c"
  let ?pre = "[SetFlowControl ?n ?n ?n, NewTransaction, SendHeaders (ct_request ?h)]"
  let ?f = "\<lparr>if_rest = d, if_good = True\<rparr>"
  let ?cf = "?h\<lparr>ct_inputFile := Some ?f\<rparr>" and ?wf = "w\<lparr>calls := ?pre\<rparr>"
  have c: "ct_httpMethod ?h = POST" "ct_inputFilename ?h = cf_input_filename fl" "\<not> ct_egressPaused ?h"
    and start: "after_connect ?c" "ct_recvWindow ?c = ?n" "ct_url ?c = url_parse (url_ops api) (cf_url fl)"
    using assms(4)
    by (simp_all add: CurlTool_setupHeaders_def curl_client_def CurlTool_setLogging_def after_connect_def
        CurlTool_setFlowControlSettings_def CurlTool_ctor_def Let_def)
  have send: "CurlTool_sendRequest api ?c ?w = CurlTool_sendBodyFromFile ?cf ?wf"
    using assms(1) c by (simp add: CurlTool_sendRequest_def ifstream_open_def Let_def)
  have "chunked d ?f []" "ct_inputFile ?cf = Some ?f" "calls ?wf = ?pre @ map SendBody []"
    by (simp_all add: chunked_def)
  from sendBodyFromFile_progress [OF this(2,1,3)] assms(2) c obtain c' w' where
    run: "CurlTool_sendBodyFromFile ?cf ?wf = Inr (c', w')" and "uploaded ?pre d c' w'"
    by auto
  then obtain chunks where chunks: "concat chunks = d" "chunks \<noteq> []" "list_all (\<lambda>b. length b = 4096) (butlast chunks)"
    "length (last chunks) < 4096" "calls w' = ?pre @ map SendBody chunks @ [SendEOM]"
    by (auto simp: uploaded_def)
  have "ended_bodies (map SendBody cs @ [SendEOM, CloseWhenIdle]) = Some cs" for cs
    by (induction cs) simp_all
  then have "wire_request (calls w' @ [CloseWhenIdle]) = Some (curl_request api fl, upload_chunks d)"
    using chunks(5) chunks_unique [OF chunks(1-4)] by (simp add: curl_request_def)
  moreover have "printed w' = printed w"
    using run by (auto simp: CurlTool_sendBodyFromFile_def split_beta Let_def split: if_splits)
  moreover have "after_connect c'"
    using sendRequest_keeps_output [of api ?c ?w c' w'] send run start(1) by simp
  ultimately show ?thesis
    using send run assms(3,5) start by (simp add: CurlTool_connectSuccess_def)
qed

lemma write_chain_printed: "printed (write_chain Stdout ps w) = printed w @ concat ps \<and> calls (write_chain Stdout ps w) = calls w"
  by (induction ps arbitrary: w) (auto simp: write_out_def)

lemma answer_printed:
  assumes "after_connect c"
  shows "\<exists>c' w'. tool_callbacks api (map (\<lambda>b. BodyPart (Some b)) parts @ [EndOfMessage]) c w = Inr (c', w')
    \<and> printed w' = printed w @ concat (map iobuf_bytes parts) \<and> calls w' = calls w"
proof (induction parts arbitrary: w)
  case Nil
  show ?case using assms by (simp add: CurlTool_onEOM_def after_connect_def)
next
  case (Cons b parts)
  have "CurlTool_onBody (Some b) c w = Inr (write_chain Stdout (fst b # snd b) w)"
    using assms by (simp add: CurlTool_onBody_def after_connect_def)
  moreover have "printed (write_chain Stdout (fst b # snd b) w) = printed w @ iobuf_bytes b"
    "calls (write_chain Stdout (fst b # snd b) w) = calls w"
    using write_chain_printed [of "fst b # snd b" w] by (simp_all add: iobuf_bytes_def)
  ultimately show ?case
    using Cons [of "write_chain Stdout (fst b # snd b) w"] by (auto simp del: write_chain.simps)
qed

section \<open>The server's side of an upload\<close>

text \<open>
  The body of a request reaches the server in pieces that HTTP does not make the same as the parts the
  client has sent, but none is empty.
\<close>

definition delivers :: "bytes list \<Rightarrow> IOBuf list \<Rightarrow> bool" where
  "delivers chunks pieces \<longleftrightarrow>
     concat (map iobuf_bytes pieces) = concat chunks \<and> list_all (\<lambda>b. iobuf_bytes b \<noteq> []) pieces"

lemma delivers_length:
  assumes "delivers chunks pieces"
  shows "length pieces \<le> length (concat chunks)" and "pieces = [] \<longleftrightarrow> concat chunks = []"
proof -
  have "list_all (\<lambda>b. iobuf_bytes b \<noteq> []) ps \<Longrightarrow> length ps \<le> length (concat (map iobuf_bytes ps))" for ps
  proof (induction ps)
    case (Cons b ps)
    then have "length ps \<le> length (concat (map iobuf_bytes ps))" "0 < length (iobuf_bytes b)" by simp_all
    then show ?case unfolding list.map concat.simps length_append length_Cons by linarith
  qed simp
  from this [of pieces] assms show n: "length pieces \<le> length (concat chunks)"
    unfolding delivers_def by simp
  show "pieces = [] \<longleftrightarrow> concat chunks = []"
  proof
    assume "pieces = []"
    with assms show "concat chunks = []" unfolding delivers_def by simp
  next
    assume "concat chunks = []"
    with n show "pieces = []" by (simp del: concat_eq_Nil_conv)
  qed
qed

lemma concat_upload_chunks: "concat (upload_chunks d) = d"
proof (induction d rule: upload_chunks.induct)
  case (1 d)
  then show ?case by (subst upload_chunks.simps) simp
qed

text \<open>A pull is answered once for each piece in which its body comes.\<close>

definition bodies_of :: "Response list \<Rightarrow> nat" where
  "bodies_of rs = length (filter (\<lambda>r. rb_body r \<noteq> None) rs)"

lemma bodies_of_append [simp]: "bodies_of (rs @ rs') = bodies_of rs + bodies_of rs'"
  by (simp add: bodies_of_def)

lemma pull_bodies:
  "run_bodies (FsHandler_ops libs) bs \<lparr>reqType = Pull\<rparr> s = Inr (r, h, s') \<Longrightarrow> bodies_of r = length bs"
proof (induction bs arbitrary: s r)
  case (Cons b bs)
  then obtain r1 h1 s1 r2 where run: "FsHandler_onBody libs b \<lparr>reqType = Pull\<rparr> s = Inr (r1, h1, s1)"
    "run_bodies (FsHandler_ops libs) bs h1 s1 = Inr (r2, h, s')" "r = r1 @ r2"
    by (auto simp: res_bind_Inr FsHandler_ops_def)
  have "h1 = \<lparr>reqType = Pull\<rparr>" using FsHandler_onBody_sends(1) [OF run(1)] .
  moreover have "bodies_of r1 = 1"
    using run(1) by (auto simp: FsHandler_onBody_def handle_pull_def res_bind_Inr bodies_of_def Let_def)
  ultimately show ?case using Cons.IH [of s1 r2] run(2,3) by simp
qed (simp add: bodies_of_def)

lemma upload_answered_per_piece:
  assumes "rq_url rq = ''/pull''" and "serve_wire libs (rq, pieces) s = Inr (rs, s')"
  shows "bodies_of rs = length pieces"
proof -
  have "FsHandlerFactory_onRequest (server_message rq) = \<lparr>reqType = Pull\<rparr>"
    using assms(1) by (simp add: FsHandlerFactory_onRequest_def server_message_def)
  with assms(2) obtain r h s1 where
    "run_bodies (FsHandler_ops libs) pieces \<lparr>reqType = Pull\<rparr> s = Inr (r, h, s1)"
    and rs: "rs = [ResponseBuilder\<lparr>rb_status := Some (200, ''OK''), rb_headers :=
        map (\<lambda>(name, value). (''x-echo-'' @ name, value)) (rq_headers rq)\<rparr>] @ r @ [ResponseBuilder\<lparr>rb_eom := True\<rparr>]"
    by (auto simp: serve_wire_def serve_parts server_message_def)
  from pull_bodies [OF this(1)] show ?thesis
    unfolding rs by (simp add: bodies_of_def ResponseBuilder_def)
qed

section \<open>Properties\<close>

text \<open>
  C20. The command-line client posts a file to /pull, with logging on, to a URL that is not secure, over a
  connection that does not push back: the whole program exits with 0, puts the file on the wire in parts
  of 4096 bytes and a shorter one, and prints the server's answer, byte for byte and however it is cut.
  The server answers each piece in which the file reaches it as a request of its own, so how many answers
  there are is the network's choice: none for an empty file, else between one and one for every byte. A
  pull that reaches it in one piece is answered with what the store holds for each key, unless redis fails.
\<close>

theorem curl_prints_answers:
  assumes "feature_store libs look cap ok hash dec failed" and "\<forall>k. versioned dec (hash e k)"
    and "pb_runtime rt varint (lib_pb libs)"
    and "serve_all libs rqs (server_start libs e) = Inr (rs0, s)"
    and "cf_http_method fl = ''POST''" and "stringToMethod api ''POST'' = Some POST"
    and "files w (cf_input_filename fl) = Some d" and "pauses w = []" and "calls w = []"
    and "cf_log_response fl" and "cf_proxy fl = []"
    and "\<not> isSecure (url_ops api) (url_parse (url_ops api) (cf_url fl))"
    and "rq_url (curl_request api fl) = ''/pull''"
    and "delivers (upload_chunks d) pieces"
    and "serve_wire libs (curl_request api fl, pieces) s = Inr (rs, s')" and "cut_of rs parts"
  shows "\<exists>w'. curl_run api fl (ConnectSuccess tr # HeadersComplete (response_head rs)
          # map (\<lambda>b. BodyPart (Some b)) parts @ [EndOfMessage]) w = Inr (0, w')
      \<and> wire_request (calls w') = Some (curl_request api fl, upload_chunks d)
      \<and> printed w' = printed w @ response_body rs
      \<and> bodies_of rs = length pieces \<and> length pieces \<le> length d \<and> (bodies_of rs = 0 \<longleftrightarrow> d = [])
      \<and> (\<forall>a. PullReq_fits rt a \<and> pieces = [(pull_wire rt a, [])] \<and> \<not> failed (env (db s')) \<longrightarrow>
           (\<exists>data. pull_answer libs rt (hash (env (db s))) a (response_body rs) data))"
proof -
  obtain start where main: "curl_main api fl w = Inr (start, Some (curl_client api fl))"
    using curl_main_post [OF assms(5-7,11,12)] by blast
  obtain c1 w1 where con: "CurlTool_connectSuccess api tr (curl_client api fl) w = Inr (c1, w1)"
    "after_connect c1" "printed w1 = printed w" "wire_request (calls w1) = Some (curl_request api fl, upload_chunks d)"
    using curl_connects [OF assms(7-10,12)] by blast
  let ?c2 = "c1\<lparr>ct_response := Some (response_head rs)\<rparr>"
  have head: "CurlTool_onHeadersComplete (response_head rs) c1 w1 = (?c2, w1)" "after_connect ?c2"
    using con(2) by (simp_all add: CurlTool_onHeadersComplete_def CurlTool_printMessageImpl_def after_connect_def ascii_def)
  from answer_printed [OF head(2), of api parts w1] obtain c3 w3 where
    "tool_callbacks api (map (\<lambda>b. BodyPart (Some b)) parts @ [EndOfMessage]) ?c2 w1 = Inr (c3, w3)"
    "printed w3 = printed w1 @ response_body rs" "calls w3 = calls w1"
    using assms(16) by (auto simp: cut_of_def)
  then have run: "curl_run api fl (ConnectSuccess tr # HeadersComplete (response_head rs)
      # map (\<lambda>b. BodyPart (Some b)) parts @ [EndOfMessage]) w = Inr (0, w3)"
    and out: "printed w3 = printed w @ response_body rs" "wire_request (calls w3) = Some (curl_request api fl, upload_chunks d)"
    using main con head(1) by (simp_all add: curl_run_def)
  have inv: "feature_store.inv libs look cap ok hash dec failed s"
    using feature_store.history_keeps [OF assms(1) feature_store.start_inv(1) [OF assms(1,2)] assms(4)] by simp
  have n: "bodies_of rs = length pieces" by (rule upload_answered_per_piece [OF assms(13,15)])
  moreover have "length pieces \<le> length d" "bodies_of rs = 0 \<longleftrightarrow> d = []"
    using delivers_length [OF assms(14)] n by (simp_all add: concat_upload_chunks)
  moreover have "\<exists>data. pull_answer libs rt (hash (env (db s))) a (response_body rs) data"
    if "PullReq_fits rt a" "pieces = [(pull_wire rt a, [])]" "\<not> failed (env (db s'))" for a
    by (rule pull_served [OF assms(1,3) inv that(1) assms(13) _ that(3)]) (use assms(15) that(2) in simp)
  ultimately show ?thesis using run out by (intro exI [of _ w3] conjI allI impI) simp_all
qed

definition ex_flags :: curl_flags where
  "ex_flags = \<lparr>cf_http_method = ''POST'', cf_url = ''h/pull'', cf_input_filename = ''f'', cf_connect_timeout = 1000,
     cf_ca_path = [], cf_cert_path = [], cf_key_path = [], cf_next_protos = [], cf_plaintext_proto = [],
     cf_recv_window = 65536, cf_h2c = False, cf_headers = [], cf_proxy = [], cf_log_response = True\<rparr>"

definition ex_curl_world :: tool_world where
  "ex_curl_world = \<lparr>files = [''f'' \<mapsto> pull_wire srv_rt ex_pull_req], writable = (\<lambda>_. True), printed = [], calls = [],
     pauses = [], logged = []\<rparr>"

theorem curl_prints_answers_witness:
  "\<exists>rs parts w' data. curl_run ref_net ex_flags (ConnectSuccess PlainSocket # HeadersComplete (response_head rs)
        # map (\<lambda>b. BodyPart (Some b)) parts @ [EndOfMessage]) ex_curl_world = Inr (0, w')
    \<and> printed w' = response_body rs \<and> bodies_of rs = 1 \<and> length parts = 1
    \<and> pull_answer ref_libs srv_rt (ref_hash (env (db ex_pushed))) ex_pull_req (response_body rs) data"
proof -
  let ?d = "pull_wire srv_rt ex_pull_req"
  obtain rs0 where h: "serve_all ref_libs [ex_push_rq] (server_start ref_libs ex_env) = Inr (rs0, ex_pushed)"
    using ex_history by blast
  have fl: "cf_http_method ex_flags = ''POST''" "files ex_curl_world (cf_input_filename ex_flags) = Some ?d"
    "pauses ex_curl_world = []" "calls ex_curl_world = []" "cf_log_response ex_flags" "cf_proxy ex_flags = []"
    by (simp_all add: ex_flags_def ex_curl_world_def)
  have "''/pull'' \<in> {''/push'', ''/pull''}" by simp
  from ex_urls(1) [OF this] have url: "rq_url (curl_request ref_net ex_flags) = ''/pull''"
    by (simp add: curl_request_def curl_client_def CurlTool_setupHeaders_def CurlTool_setLogging_def
        CurlTool_setFlowControlSettings_def CurlTool_ctor_def ex_flags_def Let_def)
  obtain rs where served: "serve_wire ref_libs (curl_request ref_net ex_flags, [(?d, [])]) ex_pushed = Inr (rs, ex_pulled)"
    using ex_serve_pull [OF url] by blast
  have "?d \<noteq> []" by (rule pull_wire_nonempty [OF ref_libs_pb ex_pull_req_fits]) (simp add: ex_pull_keys)
  then have one: "delivers (upload_chunks ?d) [(?d, [])]"
    by (simp add: delivers_def concat_upload_chunks iobuf_bytes_def)
  have cut: "cut_of rs [(response_body rs, [])]" by (simp add: cut_of_def iobuf_bytes_def)
  note p = curl_prints_answers [OF ref_store_conforms ex_env_versioned ref_libs_pb h fl(1) ex_urls(3) fl(2-6) ex_urls(2) url
      one served cut, where tr = PlainSocket]
  then obtain w' where w': "curl_run ref_net ex_flags (ConnectSuccess PlainSocket # HeadersComplete (response_head rs)
        # map (\<lambda>b. BodyPart (Some b)) [(response_body rs, [])] @ [EndOfMessage]) ex_curl_world = Inr (0, w')"
    and pr: "printed w' = printed ex_curl_world @ response_body rs" and n: "bodies_of rs = length [(?d, [] :: bytes list)]"
    and vals: "\<forall>a. PullReq_fits srv_rt a \<and> [(?d, [] :: bytes list)] = [(pull_wire srv_rt a, [])] \<and> \<not> False \<longrightarrow>
           (\<exists>data. pull_answer ref_libs srv_rt (ref_hash (env (db ex_pushed))) a (response_body rs) data)"
    by (elim exE conjE) (rule that)
  from vals [rule_format, of ex_pull_req] ex_pull_req_fits obtain data where
    "pull_answer ref_libs srv_rt (ref_hash (env (db ex_pushed))) ex_pull_req (response_body rs) data"
    by blast
  moreover have "printed w' = response_body rs" "bodies_of rs = 1"
    using pr n by (simp_all add: ex_curl_world_def)
  ultimately show ?thesis using w' by (intro exI [of _ rs] exI [of _ "[(response_body rs, [])]"] exI conjI) simp_all
qed

end
