(* ===== verification/Conversations.thy ===== *)
theory Conversations
  imports ClientServer
begin

text \<open>
  A caller that sends again and again through one pool of the client of back-code/client. Each send
  turns the event loop twice, so a part of an answer that is late is not waited for: the transaction
  stays open, its handler is gone from the stack, and the session, which over HTTP/1.1 has one
  transaction at a time, gives the next send a null pointer.
\<close>

section \<open>Exchanges\<close>

text \<open>
  One send with the pieces in which its body reaches the server, the answer that comes to it, its parts,
  and the number of callbacks at the end of the answer that come too late for the two turns of the loop.
\<close>

record exchange =
  x_meth :: string
  x_url :: string
  x_head :: string
  x_req :: bytes
  x_pieces :: "IOBuf list"
  x_msg :: HTTPResponse
  x_parts :: "IOBuf list"
  x_late :: nat

definition full_answer :: "exchange \<Rightarrow> arrival list" where
  "full_answer x =
     OnHeadersComplete (x_msg x) # map (\<lambda>b. OnBody (Some b)) (x_parts x) @ [OnEOM, DetachTransaction]"

definition arrived :: "exchange \<Rightarrow> arrival list" where
  "arrived x = take (length (full_answer x) - x_late x) (full_answer x)"

abbreviation in_time :: "exchange \<Rightarrow> bool" where
  "in_time x \<equiv> x_late x = 0"

text \<open>The transaction is over when it is detached; until then the session takes no other.\<close>

definition after_send :: "nat \<Rightarrow> exchange \<Rightarrow> client_env \<Rightarrow> client_env" where
  "after_send evb x e =
     (if DetachTransaction \<in> set (arrived x) then e else e\<lparr>env_busy := insert evb (env_busy e)\<rparr>)"

text \<open>What the caller has, and the fault that ended the process, if any.\<close>

fun sends ::
  "'url net_api \<Rightarrow> nat \<Rightarrow> exchange list \<Rightarrow> 'url CliManage \<Rightarrow> client_env
   \<Rightarrow> (bytes \<times> (string \<rightharpoonup> string)) list \<times> fault option" where
  "sends api evb [] m e = ([], None)"
| "sends api evb (x # xs) m e =
     (case CliManage_send api (\<lambda>_. arrived x) e (x_meth x) (x_url x) (x_head x) (x_req x) m [] Map.empty of
        Inl f \<Rightarrow> ([], Some f)
      | Inr (rsp, heads, calls) \<Rightarrow>
          let (rs, f) = sends api evb xs m (after_send evb x e) in ((rsp, heads) # rs, f))"

section \<open>What a send returns\<close>

text \<open>The last part of the body that is in time, and the headers.\<close>

definition received :: "exchange \<Rightarrow> bytes \<times> (string \<rightharpoonup> string)" where
  "received x =
     (let ps = take (length (x_parts x) + 2 - x_late x) (x_parts x)
      in (if ps = [] then [] else iobuf_bytes (last ps), map_of (rsp_headers (x_msg x))))"

definition unanswered :: "exchange \<Rightarrow> bool" where
  "unanswered x \<longleftrightarrow> length (x_parts x) + 3 \<le> x_late x"

lemma arrived_eq:
  "arrived x = (if unanswered x then [] else OnHeadersComplete (x_msg x)
     # map (\<lambda>b. OnBody (Some b)) (take (length (x_parts x) + 2 - x_late x) (x_parts x))
     @ take (2 - x_late x) [OnEOM, DetachTransaction])"
proof (cases "unanswered x")
  case False
  then have n: "length (full_answer x) - x_late x = Suc (length (x_parts x) + 2 - x_late x)"
    by (simp add: full_answer_def unanswered_def)
  have "length (x_parts x) + 2 - x_late x - length (x_parts x) = 2 - x_late x" by simp
  with False show ?thesis
    unfolding arrived_def n by (simp add: full_answer_def take_map del: take_Cons')
qed (simp add: arrived_def unanswered_def full_answer_def)

lemma detached_in_time: "DetachTransaction \<in> set (arrived x) \<longleftrightarrow> in_time x"
proof -
  have "DetachTransaction \<in> set (take (2 - x_late x) [OnEOM, DetachTransaction]) \<longleftrightarrow> in_time x"
    by (auto simp: take_Cons' split: if_splits)
  moreover have "in_time x \<Longrightarrow> \<not> unanswered x" by (simp add: unanswered_def)
  ultimately show ?thesis by (auto simp: arrived_eq)
qed

lemma send_arrived:
  assumes "cm_sesses m = c # cs" and "cs_sess c = Session evb" and "evb \<notin> env_dead e"
    and "stringToMethod api (x_meth x) \<noteq> None"
  shows "(if evb \<in> env_busy e \<or> unanswered x
     then CliManage_send api (\<lambda>_. arrived x) e (x_meth x) (x_url x) (x_head x) (x_req x) m [] Map.empty = Inl NullDeref
     else \<exists>calls. CliManage_send api (\<lambda>_. arrived x) e (x_meth x) (x_url x) (x_head x) (x_req x) m [] Map.empty
       = Inr (fst (received x), snd (received x), calls))"
proof -
  obtain hm where "stringToMethod api (x_meth x) = Some hm" using assms(4) by blast
  note run = send_run [OF assms(1-3) this refl]
  show ?thesis
    by (simp add: run arrived_eq deliver_end deliver_parts sent_handle_def CliHandle_onHeadersComplete_def
        CliHandle_log_def received_def Let_def)
qed

text \<open>
  A conversation: all sends in time are answered whole, the first late one with what has come, unless
  nothing has, and the next one ends the process.
\<close>

definition in_step :: "exchange list \<Rightarrow> (bytes \<times> (string \<rightharpoonup> string)) list \<times> fault option" where
  "in_step xs =
     (let good = takeWhile in_time xs
      in case dropWhile in_time xs of
           [] \<Rightarrow> (map received good, None)
         | x # ys \<Rightarrow>
             if unanswered x then (map received good, Some NullDeref)
             else (map received good @ [received x], if ys = [] then None else Some NullDeref))"

lemma in_step_Cons:
  "in_time x \<Longrightarrow> in_step (x # xs) = (received x # fst (in_step xs), snd (in_step xs))"
  using dropWhile_eq_Nil_conv [of in_time xs]
  by (cases "dropWhile in_time xs") (simp_all add: in_step_def Let_def del: dropWhile_eq_Nil_conv)

lemma sends_busy:
  assumes "cm_sesses m = c # cs" and "cs_sess c = Session evb" and "evb \<notin> env_dead e" and "evb \<in> env_busy e"
    and "\<forall>x\<in>set xs. stringToMethod api (x_meth x) \<noteq> None"
  shows "sends api evb xs m e = ([], if xs = [] then None else Some NullDeref)"
  using send_arrived [OF assms(1-3), of api "hd xs"] assms(4,5) by (cases xs) auto

lemma sends_in_step:
  assumes "cm_sesses m = c # cs" and "cs_sess c = Session evb" and "evb \<notin> env_dead e" and "evb \<notin> env_busy e"
    and "\<forall>x\<in>set xs. stringToMethod api (x_meth x) \<noteq> None"
  shows "sends api evb xs m e = in_step xs"
  using assms(5)
proof (induction xs)
  case (Cons x xs)
  note one = send_arrived [OF assms(1-3), of api x]
  show ?case
  proof (cases "in_time x")
    case True
    then have "\<not> unanswered x" by (simp add: unanswered_def)
    with one assms(4) Cons.prems obtain calls where
      "CliManage_send api (\<lambda>_. arrived x) e (x_meth x) (x_url x) (x_head x) (x_req x) m [] Map.empty
        = Inr (fst (received x), snd (received x), calls)"
      by auto
    with True Cons show ?thesis
      by (simp add: after_send_def detached_in_time in_step_Cons split_beta)
  next
    case late: False
    show ?thesis
    proof (cases "unanswered x")
      case True
      with one late Cons.prems show ?thesis by (simp add: in_step_def)
    next
      case False
      with one assms(4) Cons.prems obtain calls where
        "CliManage_send api (\<lambda>_. arrived x) e (x_meth x) (x_url x) (x_head x) (x_req x) m [] Map.empty
          = Inr (fst (received x), snd (received x), calls)"
        by auto
      moreover have "sends api evb xs m (after_send evb x e) = ([], if xs = [] then None else Some NullDeref)"
        by (rule sends_busy [OF assms(1,2)]) (use assms(3) Cons.prems late in \<open>auto simp: after_send_def detached_in_time\<close>)
      ultimately show ?thesis using False late by (simp add: in_step_def)
    qed
  qed
qed (simp add: in_step_def)

section \<open>Pulls answered by the server\<close>

text \<open>
  The answers of the exchanges are those of the server, served one after the other, in some cut; it ends
  in the state \<open>s'\<close>.
\<close>

fun answered_by ::
  "('c, 'e, 'u) libs \<Rightarrow> 'url net_api \<Rightarrow> string \<Rightarrow> exchange list \<Rightarrow> ('c, 'e) server \<Rightarrow> ('c, 'e) server \<Rightarrow> bool" where
  "answered_by libs api addr [] s s' = (s' = s)"
| "answered_by libs api addr (x # xs) s s' =
     (case stringToMethod api (x_meth x) of
        None \<Rightarrow> False
      | Some hm \<Rightarrow>
          (case wire_request (send_calls api hm (addr @ x_url x) (x_head x) (x_req x)) of
             None \<Rightarrow> False
           | Some w \<Rightarrow>
               (case serve_wire libs (fst w, x_pieces x) s of
                  Inl f \<Rightarrow> False
                | Inr (rs, t) \<Rightarrow>
                    x_msg x = response_head rs \<and> cut_of rs (x_parts x) \<and> answered_by libs api addr xs t s')))"

definition pull_exchange :: "('u, 's) wire_rt \<Rightarrow> 'u PullReq \<Rightarrow> exchange \<Rightarrow> bool" where
  "pull_exchange rt a x \<longleftrightarrow> x_meth x = ''POST'' \<and> x_url x = ''/pull'' \<and> x_req x = pull_wire rt a
     \<and> x_pieces x = [(pull_wire rt a, [])] \<and> PullReq_fits rt a \<and> PullReq_keys a \<noteq> []"

text \<open>What the parts of an answer carry, put together.\<close>

definition carries_values ::
  "('c, 'e, 'u) libs \<Rightarrow> ('u, 's) wire_rt \<Rightarrow> (32 word \<Rightarrow> (bytes \<times> bytes) list) \<Rightarrow> 'u PullReq \<Rightarrow> exchange \<Rightarrow> bool" where
  "carries_values libs rt h a x \<longleftrightarrow> (\<exists>data. pull_answer libs rt h a (concat (map iobuf_bytes (x_parts x))) data)"

lemma pulls_carry_values:
  assumes "feature_store libs look cap ok hash dec failed" and "pb_runtime rt varint (lib_pb libs)"
    and "feature_store.inv libs look cap ok hash dec failed s"
    and "stringToMethod api ''POST'' = Some POST"
    and "makeRelativeURL (url_ops api) (url_parse (url_ops api) (addr @ ''/pull'')) = ''/pull''"
    and "list_all2 (pull_exchange rt) as xs" and "answered_by libs api addr xs s s'" and "\<not> failed (env (db s'))"
  shows "list_all2 (carries_values libs rt (hash (env (db s)))) as xs \<and> \<not> failed (env (db s))"
  using assms(6,7,3)
proof (induction as xs arbitrary: s rule: list_all2_induct)
  case (Cons a as x xs)
  let ?rq = "sent_request api POST (url_parse (url_ops api) (addr @ ''/pull'')) (parseHeaders (folly_split api) (x_head x))"
  have x: "x_meth x = ''POST''" "x_url x = ''/pull''" "x_req x = pull_wire rt a" "x_pieces x = [(pull_wire rt a, [])]"
    "PullReq_fits rt a" "PullReq_keys a \<noteq> []"
    using Cons.hyps(1) by (simp_all add: pull_exchange_def)
  have url: "rq_url ?rq = ''/pull''" using assms(5) by (simp add: sent_request_def)
  have w: "wire_request (send_calls api POST (addr @ ''/pull'') (x_head x) (pull_wire rt a)) = Some (?rq, [pull_wire rt a])"
    using pull_wire_nonempty [OF assms(2) x(5,6)] by (simp add: send_calls_def)
  from Cons.prems(1) x w assms(4) obtain rs t where served: "serve_wire libs (?rq, [(pull_wire rt a, [])]) s = Inr (rs, t)"
    "cut_of rs (x_parts x)" "answered_by libs api addr xs t s'"
    by (auto split: sum.splits)
  note store = serve_pull_stop(2) [OF assms(1) Cons.prems(2) url served(1)]
  note rest = Cons.IH [OF served(3) conjunct1 [OF store]]
  from pull_served [OF assms(1,2) Cons.prems(2) x(5) url served(1)] served(2) rest
  have "carries_values libs rt (hash (env (db s))) a x"
    unfolding carries_values_def cut_of_def by simp
  with rest store show ?case by simp
qed (use assms(8) in simp)

text \<open>
  C23. A conversation over one pool, after any history of requests to the server: as long as each answer
  has come when the two turns of the loop are over, the pulls are answered one by one, each with the last
  part of an answer that carries the values of the store. The first answer that is late ends it: the
  caller gets the last part that has come, or the process dies at once when nothing has; and the next
  send dies, because the session has no second transaction to give. Each pull reaches the server in one
  piece; the values are those of the store when no command of redis has failed by the last answer.
\<close>

theorem pulls_in_step:
  assumes "feature_store libs look cap ok hash dec failed" and "\<forall>k. versioned dec (hash e k)"
    and "pb_runtime rt varint (lib_pb libs)"
    and "serve_all libs rqs (server_start libs e) = Inr (rs, s)"
    and "CliManage_ctor api full addr 1 ce = (m, ce')"
    and "case env_connect ce of [] \<Rightarrow> True | b # bs \<Rightarrow> b" and "env_fresh ce \<notin> env_dead ce \<union> env_busy ce"
    and "stringToMethod api ''POST'' = Some POST"
    and "makeRelativeURL (url_ops api) (url_parse (url_ops api) (addr @ ''/pull'')) = ''/pull''"
    and "list_all2 (pull_exchange rt) as xs" and "answered_by libs api addr xs s s'"
  shows "sends api (env_fresh ce) xs m ce' = in_step xs
    \<and> (\<not> failed (env (db s')) \<longrightarrow> list_all2 (carries_values libs rt (hash (env (db s)))) as xs)"
proof
  from one_session [OF assms(5-7)] obtain c cs where
    "cm_sesses m = c # cs" "cs_sess c = Session (env_fresh ce)" "env_fresh ce \<notin> env_dead ce'" "env_fresh ce \<notin> env_busy ce'" .
  then show "sends api (env_fresh ce) xs m ce' = in_step xs"
  proof (rule sends_in_step)
    show "\<forall>x\<in>set xs. stringToMethod api (x_meth x) \<noteq> None"
      using assms(8,10) by (auto simp: list_all2_conv_all_nth in_set_conv_nth pull_exchange_def)
  qed
  have "feature_store.inv libs look cap ok hash dec failed s"
    using feature_store.history_keeps [OF assms(1) feature_store.start_inv(1) [OF assms(1,2)] assms(4)] by simp
  from pulls_carry_values [OF assms(1,3) this assms(8-11)]
  show "\<not> failed (env (db s')) \<longrightarrow> list_all2 (carries_values libs rt (hash (env (db s)))) as xs" by simp
qed

text \<open>Three pulls on the concrete server: in time, late by all but the header, and one too many.\<close>

lemma ex_serve_again:
  assumes "rq_url rq = ''/pull''"
  shows "\<exists>rs. serve_wire ref_libs (rq, [(pull_wire srv_rt ex_pull_req, [])]) ex_pulled = Inr (rs, ex_pulled)"
proof -
  have url: "FsHandlerFactory_onRequest (server_message rq) = \<lparr>reqType = Pull\<rparr>"
    using assms by (simp add: FsHandlerFactory_onRequest_def server_message_def)
  have b: "pull_wire srv_rt ex_pull_req = ex_pull_body" by (simp add: pull_wire_def ex_pull_body_def)
  have "FsHandler_onBody ref_libs (ex_pull_body, []) \<lparr>reqType = Pull\<rparr> ex_pulled
    = Inr ([send_body (InOutMsg_EncodeRsp ref_pb 0
          \<lparr>msg_infos = [\<lparr>info_id = 300, info_d = [104, 105]\<rparr>], msg_fields = {}, msg_t = Pull\<rparr>)],
        \<lparr>reqType = Pull\<rparr>, ex_pulled)"
    by (simp add: FsHandler_onBody_def ref_libs_def ex_pull_msg handle_pull_def pull_key_def
        ex_pulled_def ex_pushed_def ex_start_def InOutMsg_getPullIds_def CacheSpace_get_def lru_ops_def
        lru_find_def InOutMsg_setPullData_def CacheSpace_singleton_def Let_def)
  then show ?thesis
    by (simp add: serve_wire_def serve_def run_request_def FsHandler_ops_def url b FsHandler_onRequest_eq FsHandler_onEOM_def)
qed

definition ex_exchange :: "Response list \<Rightarrow> nat \<Rightarrow> exchange" where
  "ex_exchange rs late = \<lparr>x_meth = ''POST'', x_url = ''/pull'', x_head = [], x_req = pull_wire srv_rt ex_pull_req,
     x_pieces = [(pull_wire srv_rt ex_pull_req, [])], x_msg = response_head rs, x_parts = [(response_body rs, [])], x_late = late\<rparr>"

lemma ex_exchange_served:
  assumes "\<And>rq. rq_url rq = ''/pull'' \<Longrightarrow> \<exists>rs. serve_wire ref_libs (rq, [(pull_wire srv_rt ex_pull_req, [])]) s = Inr (rs, s')"
  obtains rs where "\<And>late xs u. answered_by ref_libs ref_net ''h'' (ex_exchange rs late # xs) s u
    \<longleftrightarrow> answered_by ref_libs ref_net ''h'' xs s' u"
proof -
  let ?rq = "sent_request ref_net POST (url_parse (url_ops ref_net) (''h'' @ ''/pull'')) (parseHeaders (folly_split ref_net) [])"
  have ne: "pull_wire srv_rt ex_pull_req \<noteq> []"
    by (rule pull_wire_nonempty [OF ref_libs_pb ex_pull_req_fits]) (simp add: ex_pull_keys)
  have "rq_url ?rq = ''/pull''"
    using ex_urls(1) [of "''/pull''"] by (simp add: sent_request_def)
  from assms [OF this] obtain rs where
    "serve_wire ref_libs (?rq, [(pull_wire srv_rt ex_pull_req, [])]) s = Inr (rs, s')" by blast
  with ne have "answered_by ref_libs ref_net ''h'' (ex_exchange rs late # xs) s u
      \<longleftrightarrow> answered_by ref_libs ref_net ''h'' xs s' u" for late xs u
    by (simp add: ex_exchange_def ex_urls(3) send_calls_def cut_of_def iobuf_bytes_def)
  then show thesis by (rule that)
qed

theorem pulls_in_step_witness:
  "\<exists>m ce' rs1 rs2 rs3 heads1 heads2. CliManage_ctor ref_net (\<lambda>_. True) ''h'' 1 fresh_env = (m, ce')
    \<and> sends ref_net 0 [ex_exchange rs1 0, ex_exchange rs2 3, ex_exchange rs3 0] m ce'
      = ([(response_body rs1, heads1), ([], heads2)], Some NullDeref)
    \<and> carries_values ref_libs srv_rt (ref_hash (env (db ex_pushed))) ex_pull_req (ex_exchange rs1 0)"
proof -
  obtain m ce' where m: "CliManage_ctor ref_net (\<lambda>_. True) ''h'' 1 fresh_env = (m, ce')" by fastforce
  obtain rs where h: "serve_all ref_libs [ex_push_rq] (server_start ref_libs ex_env) = Inr (rs, ex_pushed)"
    using ex_history by blast
  obtain rs1 where a1: "\<And>late xs u. answered_by ref_libs ref_net ''h'' (ex_exchange rs1 late # xs) ex_pushed u
      \<longleftrightarrow> answered_by ref_libs ref_net ''h'' xs ex_pulled u"
    using ex_exchange_served [OF ex_serve_pull] by blast
  obtain rs2 where a2: "\<And>late xs u. answered_by ref_libs ref_net ''h'' (ex_exchange rs2 late # xs) ex_pulled u
      \<longleftrightarrow> answered_by ref_libs ref_net ''h'' xs ex_pulled u"
    using ex_exchange_served [OF ex_serve_again] by blast
  let ?xs = "[ex_exchange rs1 0, ex_exchange rs2 3, ex_exchange rs2 0]"
  have client: "case env_connect fresh_env of [] \<Rightarrow> True | b # bs \<Rightarrow> b" "env_fresh fresh_env \<notin> env_dead fresh_env \<union> env_busy fresh_env"
    by simp_all
  have pull: "''/pull'' \<in> {''/push'', ''/pull''}" by simp
  have ps: "list_all2 (pull_exchange srv_rt) [ex_pull_req, ex_pull_req, ex_pull_req] ?xs"
    using ex_pull_req_fits by (simp add: pull_exchange_def ex_exchange_def ex_pull_keys)
  have ans: "answered_by ref_libs ref_net ''h'' ?xs ex_pushed ex_pulled" by (simp only: a1 a2 answered_by.simps(1))
  note p = pulls_in_step [OF ref_store_conforms ex_env_versioned ref_libs_pb h m client ex_urls(3) ex_urls(1) [OF pull] ps ans]
  have "in_step ?xs = ([(response_body rs1, map_of (rsp_headers (response_head rs1))),
      ([], map_of (rsp_headers (response_head rs2)))], Some NullDeref)"
    by (simp add: in_step_def received_def unanswered_def ex_exchange_def iobuf_bytes_def)
  with conjunct1 [OF p] have run: "sends ref_net 0 ?xs m ce' = ([(response_body rs1, map_of (rsp_headers (response_head rs1))),
      ([], map_of (rsp_headers (response_head rs2)))], Some NullDeref)"
    by (simp only: fresh_env_simps)
  have "carries_values ref_libs srv_rt (ref_hash (env (db ex_pushed))) ex_pull_req (ex_exchange rs1 0)"
    using conjunct2 [OF p] by (simp only: list_all2_Cons not_False_eq_True simp_thms)
  with m run show ?thesis by (intro exI conjI)
qed

end
