(* ===== verification/AbstractStore.thy ===== *)
theory AbstractStore
  imports ServiceProps
begin

text \<open>
  What the feature server promises, without its cache, its ten connections, the random choice among
  them and the versions in redis: a map from 32-bit keys to values that is written once. The server
  refines it: over any history it sends what the map says, byte for byte.
\<close>

section \<open>The abstract server\<close>

type_synonym store = "i32 \<rightharpoonup> bytes"

definition value_in :: "store \<Rightarrow> i32 \<Rightarrow> bytes" where
  "value_in m k = (case m k of None \<Rightarrow> [] | Some x \<Rightarrow> x)"

text \<open>
  \<open>txt k d\<close> is what is read back of the data \<open>d\<close> that a push hands to redis for the key \<open>k\<close>. A key is
  written once, so a function of the key tells all there is to tell.
\<close>

fun spec_push :: "(i32 \<Rightarrow> bytes \<Rightarrow> bytes) \<Rightarrow> DataInfo list \<Rightarrow> store \<Rightarrow> store" where
  "spec_push txt [] m = m"
| "spec_push txt (kv # kvs) m =
     (let k = ucast (info_id kv)
      in spec_push txt kvs (case m k of None \<Rightarrow> m(k \<mapsto> txt k (info_d kv)) | Some x \<Rightarrow> m))"

definition spec_pull :: "store \<Rightarrow> InOutMsg \<Rightarrow> InOutMsg" where
  "spec_pull m msg =
     msg\<lparr>msg_infos := map (\<lambda>i. i\<lparr>info_d := value_in m (ucast (info_id i))\<rparr>) (msg_infos msg)\<rparr>"

definition spec_body ::
  "('c, 'e, 'u) libs \<Rightarrow> (i32 \<Rightarrow> bytes \<Rightarrow> bytes) \<Rightarrow> MsgType \<Rightarrow> IOBuf \<Rightarrow> store \<Rightarrow> Response list \<times> store" where
  "spec_body libs txt t b m =
     (let msg = InOutMsg_ctor (lib_pb libs) (fst b) t;
          answer = (\<lambda>code msg. send_body (InOutMsg_EncodeRsp (lib_pb libs) code msg))
      in case t of
           Unknow \<Rightarrow> ([answer 1 msg], m)
         | Pull \<Rightarrow> ([answer 0 (spec_pull m msg)], m)
         | Push \<Rightarrow> ([answer 0 msg, answer 0 msg], spec_push txt (msg_infos msg) m)
         | DelCache \<Rightarrow> ([answer 0 msg], m))"

fun spec_bodies ::
  "('c, 'e, 'u) libs \<Rightarrow> (i32 \<Rightarrow> bytes \<Rightarrow> bytes) \<Rightarrow> MsgType \<Rightarrow> IOBuf list \<Rightarrow> store \<Rightarrow> Response list \<times> store"
where
  "spec_bodies libs txt t [] m = ([], m)"
| "spec_bodies libs txt t (b # bs) m =
     (let (r, m) = spec_body libs txt t b m; (rs, m) = spec_bodies libs txt t bs m in (r @ rs, m))"

definition spec_serve ::
  "('c, 'e, 'u) libs \<Rightarrow> (i32 \<Rightarrow> bytes \<Rightarrow> bytes) \<Rightarrow> HTTPMessage \<times> IOBuf list \<Rightarrow> store \<Rightarrow> Response list \<times> store" where
  "spec_serve libs txt rq m =
     (let (r, m) = spec_bodies libs txt (reqType (FsHandlerFactory_onRequest (fst rq))) (snd rq) m
      in ([ResponseBuilder\<lparr>rb_status := Some (200, ''OK''), rb_headers :=
             map (\<lambda>(name, value). (''x-echo-'' @ name, value)) (http_headers (fst rq))\<rparr>]
          @ r @ [ResponseBuilder\<lparr>rb_eom := True\<rparr>], m))"

fun spec_all ::
  "('c, 'e, 'u) libs \<Rightarrow> (i32 \<Rightarrow> bytes \<Rightarrow> bytes) \<Rightarrow> (HTTPMessage \<times> IOBuf list) list \<Rightarrow> store \<Rightarrow> Response list list \<times> store" where
  "spec_all libs txt [] m = ([], m)"
| "spec_all libs txt (rq # rqs) m =
     (let (r, m) = spec_serve libs txt rq m; (rs, m) = spec_all libs txt rqs m in (r # rs, m))"

text \<open>The map that stands for the hashes of the store.\<close>

definition represents :: "(bytes \<Rightarrow> i64 option) \<Rightarrow> (i32 \<Rightarrow> (bytes \<times> bytes) list) \<Rightarrow> store \<Rightarrow> bool" where
  "represents num h m \<longleftrightarrow> (\<forall>k. case m k of None \<Rightarrow> h k = [] | Some x \<Rightarrow> h k \<noteq> [] \<and> value_of num (h k) x)"

lemma represents_value: "represents num h m \<Longrightarrow> value_of num (h k) (value_in m k)"
  by (auto simp: represents_def value_in_def value_of_def split: option.splits dest!: spec [of _ k])

lemma spec_push_at:
  "spec_push txt kvs m j = (case m j of None \<Rightarrow> map_option (txt j) (fresh_data kvs j) | Some x \<Rightarrow> Some x)"
proof (induction kvs arbitrary: m)
  case (Cons kv kvs)
  show ?case
    by (simp only: spec_push.simps Cons Let_def) (auto simp: fresh_data_def split: option.splits)
qed (simp add: fresh_data_def split: option.splits)

lemma DataInfo_lists:
  "map info_id xs = map info_id ys \<Longrightarrow> map info_d xs = map info_d ys \<Longrightarrow> xs = (ys :: DataInfo list)"
proof (induction xs arbitrary: ys)
  case (Cons x xs)
  then show ?case by (cases ys) auto
qed simp

section \<open>The refinement\<close>

context redis_hashes
begin

text \<open>A hash as the code writes it has one latest value.\<close>

lemma latest_unique:
  assumes "versioned dec h" and "is_latest (to_int64 api) h v x" and "is_latest (to_int64 api) h u y"
  shows "x = y"
proof -
  from assms(2) obtain f x' where f: "(f, x') \<in> set h" "to_int64 api (c_str f) = Some v" "c_str x' = x"
    by (auto simp: is_latest_def list_ex_iff)
  from assms(3) obtain g y' where g: "(g, y') \<in> set h" "to_int64 api (c_str g) = Some u" "c_str y' = y"
    by (auto simp: is_latest_def list_ex_iff)
  have "sint v \<le> sint u" using assms(3) f(1,2) by (fastforce simp: is_latest_def list_all_iff)
  moreover have "sint u \<le> sint v" using assms(2) g(1,2) by (fastforce simp: is_latest_def list_all_iff)
  ultimately have "sint u = sint v" by simp
  then have "u = v" by (rule signed_word_eqI)
  moreover obtain n where "f = dec n" using assms(1) f(1) by (auto simp: versioned_def list_all_iff)
  moreover obtain k where "g = dec k" using assms(1) g(1) by (auto simp: versioned_def list_all_iff)
  ultimately have "f = g" using f(2) g(2) by (simp add: dec_number dec_no_nul) (metis ucast_scast_i64)
  with f(1,3) g(1,3) assms(1) show ?thesis
    by (auto simp: versioned_def dest: eq_key_imp_eq_value)
qed

lemma value_of_unique:
  assumes "versioned dec h" and "value_of (to_int64 api) h x" and "value_of (to_int64 api) h y"
  shows "x = y"
proof (cases "h = []")
  case False
  then obtain u v where "is_latest (to_int64 api) h v x" "is_latest (to_int64 api) h u y"
    using assms(2,3) by (auto simp: value_of_def list_ex_iff split: option.splits)
  then show ?thesis by (rule latest_unique [OF assms(1)])
qed (use assms(2,3) in \<open>simp add: value_of_def\<close>)

text \<open>The texts that a store holds in the end, where it holds one version.\<close>

definition texts_of :: "(i32 \<Rightarrow> bytes \<Rightarrow> bytes) \<Rightarrow> (i32 \<Rightarrow> (bytes \<times> bytes) list) \<Rightarrow> bool" where
  "texts_of txt h \<longleftrightarrow> (\<forall>k n t d. h k = [(dec n, t)] \<longrightarrow> reads_as api d t \<longrightarrow> txt k d = c_str t)"

lemma texts_exist:
  "\<exists>txt. texts_of txt h \<and> (\<forall>k d. (length d \<le> 23 \<longrightarrow> txt k d = c_str d)
    \<and> ((\<exists>t. reads_as api d t) \<longrightarrow> (\<exists>t. reads_as api d t \<and> txt k d = c_str t)))"
proof -
  have "\<exists>x. (\<forall>n t. h k = [(dec n, t)] \<longrightarrow> reads_as api d t \<longrightarrow> x = c_str t)
      \<and> (length d \<le> 23 \<longrightarrow> x = c_str d) \<and> ((\<exists>t. reads_as api d t) \<longrightarrow> (\<exists>t. reads_as api d t \<and> x = c_str t))" for k d
  proof (cases "\<exists>n t. h k = [(dec n, t)] \<and> reads_as api d t")
    case True
    then obtain n t where t: "h k = [(dec n, t)]" "reads_as api d t" by blast
    moreover have "length d \<le> 23 \<Longrightarrow> t = c_str d" using t(2) short_string by (auto simp: reads_as_def)
    ultimately show ?thesis by (intro exI [of _ "c_str t"]) (auto simp: c_str_no_nul)
  next
    case False
    show ?thesis
    proof (cases "\<exists>t. reads_as api d t")
      case True
      then obtain t where t: "reads_as api d t" by blast
      moreover have "length d \<le> 23 \<Longrightarrow> t = c_str d" using t short_string by (auto simp: reads_as_def)
      ultimately show ?thesis using False by (intro exI [of _ "c_str t"]) (auto simp: c_str_no_nul)
    qed (use False in \<open>auto intro: exI [of _ "c_str d"]\<close>)
  qed
  then have "\<exists>txt. \<forall>k d. (\<forall>n t. h k = [(dec n, t)] \<longrightarrow> reads_as api d t \<longrightarrow> txt k d = c_str t)
      \<and> (length d \<le> 23 \<longrightarrow> txt k d = c_str d)
      \<and> ((\<exists>t. reads_as api d t) \<longrightarrow> (\<exists>t. reads_as api d t \<and> txt k d = c_str t))"
    by metis
  then show ?thesis unfolding texts_of_def by blast
qed

lemma represents_pushed:
  assumes "represents (to_int64 api) h m" and "pushed dec (reads_as api) kvs h h'"
    and "texts_of txt g" and "\<forall>k. h' k \<noteq> [] \<longrightarrow> g k = h' k"
  shows "represents (to_int64 api) h' (spec_push txt kvs m)"
  unfolding represents_def spec_push_at
proof
  fix k
  have new: "value_of (to_int64 api) [(dec n, y)] (c_str y)" for n y
    by (rule value_of_latest [where v = "scast n"]) (simp_all add: is_latest_def dec_number dec_no_nul)
  have tx: "txt k d = c_str t" if "h' k = [(dec n, t)]" "reads_as api d t" for n t d
    using assms(3,4) that by (simp add: texts_of_def)
  show "case (case m k of None \<Rightarrow> map_option (txt k) (fresh_data kvs k) | Some x \<Rightarrow> Some x) of
      None \<Rightarrow> h' k = [] | Some x \<Rightarrow> h' k \<noteq> [] \<and> value_of (to_int64 api) (h' k) x"
    using assms(1) [unfolded represents_def, rule_format, of k] assms(2) [unfolded pushed_def, rule_format, of k]
    by (auto simp: new tx split: option.splits)
qed

end

context feature_store
begin

lemma filled_spec:
  assumes "inv s" and "represents (to_int64 (lib_host libs)) (hash (env (db s))) m"
    and f: "filled 0 (map info_id (msg_infos msg)) msg s msg' s'" and ok: "fine s'"
  shows "msg' = spec_pull m msg"
proof -
  have "list_all2 (\<lambda>k x. x = value_in m (ucast k)) (map info_id (msg_infos msg)) (map info_d (msg_infos msg'))"
  proof (rule list_all2_mono [OF filled_all(1) [OF f]])
    fix k :: u64 and x
    assume "fine s' \<longrightarrow> value_of (to_int64 (lib_host libs)) (hash (env (db s)) (ucast k)) x"
    with ok have "value_of (to_int64 (lib_host libs)) (hash (env (db s)) (ucast k)) x" by simp
    moreover have "versioned dec (hash (env (db s)) (ucast k))" using assms(1) by (simp add: inv_def redis.good_def)
    ultimately show "x = value_in m (ucast k)"
      by (intro redis.value_of_unique [OF _ _ represents_value [OF assms(2)]])
  qed
  then have "map info_d (msg_infos msg') = map (\<lambda>i. value_in m (ucast (info_id i))) (msg_infos msg)"
    by (auto simp: list_all2_conv_all_nth intro!: nth_equalityI)
  with filled_all(3) [OF f] have "msg_infos msg' = msg_infos (spec_pull m msg)"
    by (intro DataInfo_lists) (simp_all add: spec_pull_def comp_def)
  with f show ?thesis by (cases msg, cases msg') (simp add: filled_def spec_pull_def)
qed

definition abstracts :: "('c, 'e) server \<Rightarrow> store \<Rightarrow> bool" where
  "abstracts s m \<longleftrightarrow> inv s \<and> represents (to_int64 (lib_host libs)) (hash (env (db s))) m"

text \<open>
  The texts are those of the store at the end, \<open>g\<close>, in which every hash that is not empty now is the same.
\<close>

definition ends_in :: "('c, 'e) server \<Rightarrow> (i32 \<Rightarrow> (bytes \<times> bytes) list) \<Rightarrow> bool" where
  "ends_in s g \<longleftrightarrow> fine s \<and> (\<forall>k. hash (env (db s)) k \<noteq> [] \<longrightarrow> g k = hash (env (db s)) k)"

lemma ends_in_keeps: "keeps s s' \<Longrightarrow> ends_in s' g \<Longrightarrow> ends_in s g"
  by (auto simp: keeps_def ends_in_def)

lemma onBody_refines:
  assumes "abstracts s m" and "FsHandler_onBody libs b h s = Inr (r, h', s')"
    and "redis.texts_of txt g" and "ends_in s' g"
  shows "\<exists>m'. spec_body libs txt (reqType h) b m = (r, m') \<and> abstracts s' m'"
proof -
  let ?m = "InOutMsg_ctor (lib_pb libs) (fst b) (reqType h)"
  have inv: "inv s" and rep: "represents (to_int64 (lib_host libs)) (hash (env (db s))) m"
    using assms(1) by (simp_all add: abstracts_def)
  have inv': "inv s'" using onBody_keeps [OF inv assms(2)] by simp
  have ok: "fine s'" and g: "\<forall>k. hash (env (db s')) k \<noteq> [] \<longrightarrow> g k = hash (env (db s')) k"
    using assms(4) by (simp_all add: ends_in_def)
  show ?thesis
  proof (cases "reqType h")
    case Push
    with handle_push_answers [OF inv, of ?m] assms(2) ok
    have "pushed dec (reads_as (lib_host libs)) (msg_infos ?m) (hash (env (db s))) (hash (env (db s')))"
      and "r = [send_body (InOutMsg_EncodeRsp (lib_pb libs) 0 ?m), send_body (InOutMsg_EncodeRsp (lib_pb libs) 0 ?m)]"
      by (auto simp: FsHandler_onBody_def Let_def)
    with Push inv' redis.represents_pushed [OF rep _ assms(3) g] show ?thesis
      by (auto simp: spec_body_def abstracts_def Let_def)
  next
    case Pull
    with handle_pull_answers [OF inv, of ?m] assms(2) obtain msg' where
      "r = [send_body (InOutMsg_EncodeRsp (lib_pb libs) 0 msg')]" and f: "filled 0 (map info_id (msg_infos ?m)) ?m s msg' s'"
      by (auto simp: FsHandler_onBody_def Let_def)
    with Pull filled_spec [OF inv rep f ok] filled_all(4) [OF f] rep inv' show ?thesis
      by (simp add: spec_body_def abstracts_def)
  next
    case DelCache
    with handle_delcache_answers [OF inv, of ?m] assms(2) rep inv' show ?thesis
      by (auto simp: FsHandler_onBody_def Let_def spec_body_def abstracts_def same_def)
  next
    case Unknow
    with assms show ?thesis by (auto simp: FsHandler_onBody_def Let_def spec_body_def)
  qed
qed

lemma bodies_keep:
  assumes "inv s" and "run_bodies (FsHandler_ops libs) bs h s = Inr (r, h', s')"
  shows "inv s' \<and> keeps s s'"
  by (rule run_bodies_preserve [where P = inv and R = keeps, OF onBody_keeps _ _ assms])
    (auto simp: keeps_def)

lemma bodies_refine:
  assumes "redis.texts_of txt g"
  shows "abstracts s m \<Longrightarrow> run_bodies (FsHandler_ops libs) bs h s = Inr (r, h', s') \<Longrightarrow> ends_in s' g \<Longrightarrow>
     \<exists>m'. spec_bodies libs txt (reqType h) bs m = (r, m') \<and> abstracts s' m'"
proof (induction bs arbitrary: s m r)
  case (Cons b bs)
  from Cons.prems(2) obtain r1 h1 s1 r2 where run: "FsHandler_onBody libs b h s = Inr (r1, h1, s1)"
    "run_bodies (FsHandler_ops libs) bs h1 s1 = Inr (r2, h', s')" "r = r1 @ r2"
    by (auto simp: res_bind_Inr FsHandler_ops_def)
  have "inv s1" using onBody_keeps [OF _ run(1)] Cons.prems(1) by (simp add: abstracts_def)
  from bodies_keep [OF this run(2)] Cons.prems(3) have "ends_in s1 g" by (blast intro: ends_in_keeps)
  from onBody_refines [OF Cons.prems(1) run(1) assms this] obtain m1 where
    m1: "spec_body libs txt (reqType h) b m = (r1, m1)" "abstracts s1 m1" by blast
  have "h1 = h" using FsHandler_onBody_sends(1) [OF run(1)] .
  with Cons.IH [OF m1(2) _ Cons.prems(3)] run(2) obtain m2 where
    "spec_bodies libs txt (reqType h) bs m1 = (r2, m2)" "abstracts s' m2"
    by blast
  with m1(1) run(3) show ?case by simp
qed simp

lemma serve_refines:
  assumes "redis.texts_of txt g" and "abstracts s m" and "serve libs rq s = Inr (r, s')" and "ends_in s' g"
  shows "\<exists>m'. spec_serve libs txt rq m = (r, m') \<and> abstracts s' m'"
  using assms(3) bodies_refine [OF assms(1,2) _ assms(4)]
  by (fastforce simp: serve_parts spec_serve_def)

lemma history_refines:
  assumes "redis.texts_of txt g"
  shows "abstracts s m \<Longrightarrow> serve_all libs rqs s = Inr (rs, s') \<Longrightarrow> ends_in s' g \<Longrightarrow>
     \<exists>m'. spec_all libs txt rqs m = (rs, m') \<and> abstracts s' m'"
proof (induction rqs arbitrary: s m rs)
  case (Cons rq rqs)
  from Cons.prems(2) obtain r1 s1 r2 where run: "serve libs rq s = Inr (r1, s1)"
    "serve_all libs rqs s1 = Inr (r2, s')" "rs = r1 # r2"
    by (auto simp: res_bind_Inr)
  have "serve_all libs [rq] s = Inr ([r1], s1)" using run(1) by simp
  with history_keeps [of s "[rq]" "[r1]" s1] Cons.prems(1) have "inv s1" by (simp add: abstracts_def)
  from history_keeps [OF this run(2)] Cons.prems(3) have "ends_in s1 g" by (blast intro: ends_in_keeps)
  from serve_refines [OF assms Cons.prems(1) run(1) this] obtain m1 where
    m1: "spec_serve libs txt rq m = (r1, m1)" "abstracts s1 m1" by blast
  from Cons.IH [OF m1(2) run(2) Cons.prems(3)] m1(1) run(3) show ?case by auto
qed simp

lemma start_abstracts:
  assumes "\<forall>k. versioned dec (hash e k)" and "represents (to_int64 (lib_host libs)) (hash e) m"
  shows "abstracts (server_start libs e) m"
  using start_inv(1) [OF assms(1)] assms(2) redis.make_insts_state [of DBInstNum "\<lparr>env = e, freed = []\<rparr>"]
  by (simp add: abstracts_def server_start_def G_DBInsts_def split_beta)

end

section \<open>Properties\<close>

text \<open>
  C2. The server refines a map that is written once: whatever history of requests it serves from its
  start, with any library calls behind it and as long as no command of redis fails, it sends exactly the
  headers and bodies that the abstract server sends, and its store stands for the abstract one in the
  end. Cache, connections, random picks and versions leave no trace in the answers. The abstract server
  keeps data of up to 23 bytes as it is pushed, up to its first NUL, and of longer data what the \<open>%s\<close>
  conversion reads.
\<close>

theorem server_refines_write_once_map:
  assumes "feature_store libs look cap ok hash dec failed" and "\<forall>k. versioned dec (hash e k)"
    and "represents (to_int64 (lib_host libs)) (hash e) m"
    and "serve_all libs rqs (server_start libs e) = Inr (rs, s)" and "\<not> failed (env (db s))"
  shows "\<exists>txt m'. spec_all libs txt rqs m = (rs, m')
    \<and> represents (to_int64 (lib_host libs)) (hash (env (db s))) m'
    \<and> (\<forall>k d. (length d \<le> 23 \<longrightarrow> txt k d = c_str d)
        \<and> ((\<exists>t. reads_as (lib_host libs) d t) \<longrightarrow> (\<exists>t. reads_as (lib_host libs) d t \<and> txt k d = c_str t)))"
proof -
  let ?g = "hash (env (db s))"
  from redis_hashes.texts_exist [OF feature_store.axioms(2) [OF assms(1)], of ?g] obtain tx where
    tx: "redis_hashes.texts_of (lib_host libs) dec tx ?g"
    and law: "\<forall>k d. (length d \<le> 23 \<longrightarrow> tx k d = c_str d)
      \<and> ((\<exists>t. reads_as (lib_host libs) d t) \<longrightarrow> (\<exists>t. reads_as (lib_host libs) d t \<and> tx k d = c_str t))"
    by blast
  have "feature_store.ends_in hash failed s ?g"
    using assms(5) by (simp add: feature_store.ends_in_def [OF assms(1)])
  from feature_store.history_refines [OF assms(1) tx feature_store.start_abstracts [OF assms(1-3)] assms(4) this] law
  show ?thesis by (auto simp: feature_store.abstracts_def [OF assms(1)])
qed

theorem server_refines_write_once_map_witness:
  "\<exists>rs s txt m'. serve_all ref_libs [ex_push_rq, ex_pull_rq] (server_start ref_libs ex_env) = Inr (rs, s)
    \<and> spec_all ref_libs txt [ex_push_rq, ex_pull_rq] Map.empty = (rs, m')
    \<and> represents (to_int64 (lib_host ref_libs)) (ref_hash (env (db s))) m'
    \<and> txt 300 [104, 105] = c_str [104, 105]"
proof -
  obtain rs1 where push: "serve ref_libs ex_push_rq (server_start ref_libs ex_env) = Inr (rs1, ex_pushed)"
    using ex_history by (auto simp: res_bind_Inr)
  obtain rs2 where pull: "serve ref_libs ex_pull_rq ex_pushed = Inr (rs2, ex_pulled)"
    by (simp add: serve_def run_request_def FsHandler_ops_def ex_pull_rq_def
        FsHandlerFactory_onRequest_def FsHandler_onRequest_eq FsHandler_onEOM_def ex_pull_run)
  have run: "serve_all ref_libs [ex_push_rq, ex_pull_rq] (server_start ref_libs ex_env) = Inr ([rs1, rs2], ex_pulled)"
    using push pull by simp
  have "represents (to_int64 (lib_host ref_libs)) (ref_hash ex_env) Map.empty"
    by (simp add: represents_def ex_env_def ref_hash_def)
  from server_refines_write_once_map [OF ref_store_conforms ex_env_versioned this run]
  obtain tx m' where p: "spec_all ref_libs tx [ex_push_rq, ex_pull_rq] Map.empty = ([rs1, rs2], m')"
    "represents (to_int64 (lib_host ref_libs)) (ref_hash (env (db ex_pulled))) m'"
    "\<forall>k d. length d \<le> 23 \<longrightarrow> tx k d = c_str d"
    by auto
  have "tx 300 [104, 105] = c_str [104, 105]" by (rule p(3) [rule_format]) simp
  with p run show ?thesis by blast
qed

end
