(* ===== verification/UnitTests.thy ===== *)
theory UnitTests
  imports Conversations AbstractStore Demos
begin

text \<open>
  The unit tests of the feature server and of its two clients (the test directories under
  feature-server), which print or log what they get and check nothing. Each is a definition over the
  model, and what it prints is a lemma, for every library that keeps its contract.
\<close>

section \<open>The cache\<close>

definition show_bool :: "bool \<Rightarrow> bytes" where
  "show_bool b = (if b then ascii ''1'' else ascii ''0'')"

definition test_sgd :: "'c evicting_map \<Rightarrow> 'c CacheSpace option \<Rightarrow> bytes \<times> 'c CacheSpace option" where
  "test_sgd ops static_c =
     (let (ret, c) = CacheSpace_set ops 11 (ascii ''test'') (CacheSpace_singleton ops static_c);
          (getret, c) = CacheSpace_get ops 11 (CacheSpace_singleton ops (Some c));
          c = CacheSpace_del ops 11 (CacheSpace_singleton ops (Some c));
          (getret1, c) = CacheSpace_get ops 11 (CacheSpace_singleton ops (Some c))
      in (show_bool ret @ ascii '', '' @ getret @ ascii '', '' @ getret1, Some c))"

context evicting_cache
begin

lemma test_sgd_prints:
  assumes "cok (CacheSpace_singleton ops c)"
  shows "fst (test_sgd ops c) = ascii ''1, test, ''"
proof -
  define c1 where "c1 = snd (CacheSpace_set ops 11 (ascii ''test'') (CacheSpace_singleton ops c))"
  define c2 where "c2 = snd (CacheSpace_get ops 11 c1)"
  have c1: "cok c1" "clook c1 11 = Some (ascii ''test'')" using assms by (simp_all add: c1_def)
  then have c2: "cok c2" by (simp add: c2_def)
  have "fst (CacheSpace_get ops 11 c1) = ascii ''test''"
    and "fst (CacheSpace_get ops 11 (CacheSpace_del ops 11 c2)) = []"
    using c1 c2 by (simp_all add: get_value)
  moreover have "fst (CacheSpace_set ops 11 (ascii ''test'') (CacheSpace_singleton ops c))"
    by (simp add: CacheSpace_set_def)
  ultimately show ?thesis
    unfolding c1_def c2_def test_sgd_def by (simp add: split_beta Let_def show_bool_def ascii_def)
qed

end

section \<open>The store\<close>

text \<open>
  \<open>show_i64\<close> prints a number, \<open>uninit\<close> is what \<open>currv\<close> holds before the first read. The local object
  is destroyed at the end.
\<close>

definition test_get ::
  "'e host_api \<Rightarrow> (i64 \<Rightarrow> bytes) \<Rightarrow> i64 \<Rightarrow> DBInst list \<Rightarrow> 'e db_world \<Rightarrow> (bytes list \<times> 'e db_world) res" where
  "test_get api show_i64 uninit G w =
     (let (onedbinst, w) = DBInst_ctor api w
      in res_bind (DBInst_get api 11 uninit onedbinst w) (\<lambda>(d, currv, w).
         res_bind (DBInst_set api 11 (ascii ''test_4'') 4 onedbinst w) (\<lambda>(ok, w).
         let (r, e) = c_rand api (env w); i = r mod DBInstNum; w = w\<lparr>env := e\<rparr>
         in if i < length G then
              res_bind (DBInst_get api 11 currv (G ! i) w) (\<lambda>(a, currv', w).
              res_bind (DBInst_dtor api onedbinst w) (\<lambda>w.
                Inr ([d @ ascii '', '' @ show_i64 currv, show_bool ok, a], w)))
            else Inl OutOfRange)))"

section \<open>The messages\<close>

definition endian_push :: "'u PushReq" where
  "endian_push =
     PushReq_add_infos (\<lambda>i. oneInfo_set_data (ascii ''test2'') (oneInfo_set_key 22 i))
       (PushReq_add_infos (\<lambda>i. oneInfo_set_data (ascii ''test'') (oneInfo_set_key 11 i)) PushReq_SharedCtor)"

definition endian_pull :: "'u PullReq" where
  "endian_pull = PullReq_add_field 2 (PullReq_add_field 1 (PullReq_add_keys 44 (PullReq_add_keys 33 PullReq_SharedCtor)))"

text \<open>\<open>c_str()\<close> with \<open>length() + 1\<close> hands over the terminating NUL too. \<open>show_size\<close> prints a size.\<close>

definition test_endian ::
  "folly_api \<Rightarrow> ('u, 'u oneInfo) wire_rt \<Rightarrow> 'u pb_api \<Rightarrow> (nat \<Rightarrow> bytes) \<Rightarrow> bytes list res" where
  "test_endian folly rt pb show_size =
     (let msg = InOutMsg_ctor pb (push_wire rt endian_push @ [0]) Push;
          out = [InOutMsg_show folly msg];
          msg = InOutMsg_ctor pb (pull_wire rt endian_pull @ [0]) Pull;
          out = out @ [InOutMsg_show folly msg,
                  concat (map (\<lambda>v. to_fbstring folly v @ ascii '','') (InOutMsg_getPullIds msg))]
      in res_bind (InOutMsg_setPullData 0 (ascii ''test'') msg) (\<lambda>msg.
         res_bind (InOutMsg_setPullData 1 (ascii ''test1'') msg) (\<lambda>msg.
         let rspS = InOutMsg_EncodeRsp pb 1 msg
         in Inr (out @ [show_size (length rspS) @ ascii '', '' @ rspS]))))"

context pb_runtime
begin

text \<open>A trailing NUL changes nothing of what a body is decoded to.\<close>

lemma decode_push_nul:
  assumes "PushReq_fits rt a"
  shows "InOutMsg_ctor pb (push_wire rt a @ [0]) Push =
    \<lparr>msg_infos = map (\<lambda>i. \<lparr>info_id = oneInfo_key i, info_d = oneInfo_data i\<rparr>) (PushReq_infos a),
     msg_fields = {}, msg_t = Push\<rparr>"
proof -
  let ?m = "PushReq_MergeFrom PushReq_SharedCtor a"
  have "parse_loop rt (PushReq_parse_field rt) ?m [0] = Some (?m, AtTag 0 [])"
    by (rule parse_loop_stop [OF read_tags(1)]) (simp_all add: PushReq_parse_field_def)
  then have "PushReq_InternalParse rt PushReq_SharedCtor (push_wire rt a @ [0]) = Some (?m, AtTag 0 [])"
    using PushReq_parse_append [OF assms] by (simp add: PushReq_InternalParse_def push_wire_def)
  from decode_push [OF this] show ?thesis by (simp add: PushReq_MergeFrom_default comp_def)
qed

lemma decode_pull_nul:
  assumes "PullReq_fits rt a"
  shows "InOutMsg_ctor pb (pull_wire rt a @ [0]) Pull =
    \<lparr>msg_infos = map (\<lambda>k. \<lparr>info_id = k, info_d = []\<rparr>) (PullReq_keys a),
     msg_fields = ucast ` set (PullReq_field a), msg_t = Pull\<rparr>"
proof -
  let ?m = "PullReq_MergeFrom PullReq_SharedCtor a"
  have "parse_loop rt (PullReq_parse_field rt) ?m [0] = Some (?m, AtTag 0 [])"
    by (rule parse_loop_stop [OF read_tags(1)]) (simp_all add: PullReq_parse_field_def)
  then have "PullReq_InternalParse rt PullReq_SharedCtor (pull_wire rt a @ [0]) = Some (?m, AtTag 0 [])"
    using PullReq_parse_append [OF assms] by (simp add: PullReq_InternalParse_def pull_wire_def)
  from decode_pull [OF this] show ?thesis
    by (cases "InOutMsg_ctor pb (pull_wire rt a @ [0]) Pull") (simp add: PullReq_MergeFrom_default)
qed

lemma test_endian_prints:
  assumes "PushReq_fits rt (endian_push :: 'u PushReq)" and "PullReq_fits rt (endian_pull :: 'u PullReq)"
    and "f14_order folly {} = []"
    and "rspS = InOutMsg_EncodeRsp pb 1 \<lparr>msg_infos = [\<lparr>info_id = 33, info_d = ascii ''test''\<rparr>,
      \<lparr>info_id = 44, info_d = ascii ''test1''\<rparr>], msg_fields = {1, 2}, msg_t = Pull\<rparr>"
  shows "test_endian folly rt pb show_size = Inr
    [to_fbstring folly 11 @ ascii '':test,'' @ to_fbstring folly 22 @ ascii '':test2,'' @ [10],
     to_fbstring folly 33 @ ascii '':,'' @ to_fbstring folly 44 @ ascii '':,'' @ [10]
       @ concat (map (\<lambda>x. to_fbstring folly x @ ascii '','') (f14_order folly {1, 2})),
     to_fbstring folly 33 @ ascii '','' @ to_fbstring folly 44 @ ascii '','',
     show_size (length rspS) @ ascii '', '' @ rspS]"
proof -
  have keys: "PullReq_keys (endian_pull :: 'u PullReq) = [33, 44]" "PullReq_field (endian_pull :: 'u PullReq) = [1, 2]"
    by (simp_all add: endian_pull_def PullReq_add_field_def PullReq_add_keys_def PullReq_SharedCtor_def)
  have infos: "map (\<lambda>i. \<lparr>info_id = oneInfo_key i, info_d = oneInfo_data i\<rparr>) (PushReq_infos (endian_push :: 'u PushReq))
      = [\<lparr>info_id = 11, info_d = ascii ''test''\<rparr>, \<lparr>info_id = 22, info_d = ascii ''test2''\<rparr>]"
    by (simp add: endian_push_def PushReq_add_infos_def PushReq_SharedCtor_def oneInfo_set_key_def oneInfo_set_data_def)
  show ?thesis
    by (simp add: test_endian_def decode_push_nul [OF assms(1)] decode_pull_nul [OF assms(2)] keys infos
        assms(3,4) InOutMsg_show_def InOutMsg_getPullIds_def InOutMsg_setPullData_def ascii_def Let_def)
qed

end

section \<open>Configuration\<close>

text \<open>What the test prints; \<open>None\<close> is an exception.\<close>

definition test_yaml :: "('n, string) yaml_api \<Rightarrow> string option" where
  "test_yaml api = (case YamlConf_ctor api ''config.yaml'' of None \<Rightarrow> None | Some conf \<Rightarrow> YamlConf_get api ''name'' conf)"

section \<open>The pooled client\<close>

definition newcli_req :: "'u PullReq" where
  "newcli_req = PullReq_add_field 2 (PullReq_add_field 1 (PullReq_add_keys 44 (PullReq_add_keys 11 PullReq_SharedCtor)))"

text \<open>
  One block of \<open>test_newcli\<close>: \<open>r\<close> is what \<open>rand\<close> returns, \<open>x\<close> the answer that comes. It gives the
  response that is logged, its size and its headers.
\<close>

definition newcli_block ::
  "'url net_api \<Rightarrow> ('u, 's) wire_rt \<Rightarrow> (bytes \<Rightarrow> 'u PullRsp) \<Rightarrow> nat \<Rightarrow> exchange \<Rightarrow> 'url CliMap \<Rightarrow> client_env
   \<Rightarrow> ('u PullRsp \<times> nat \<times> (string \<rightharpoonup> string)) res" where
  "newcli_block api rt parse r x cliMap e =
     res_bind (getClient r ''leon_test'' cliMap) (\<lambda>cli.
       case cli of
         None \<Rightarrow> Inl NullDeref
       | Some m \<Rightarrow>
           res_bind (CliManage_send api (\<lambda>_. arrived x) e ''POST'' ''/pull'' [] (pull_wire rt newcli_req) m [] Map.empty)
             (\<lambda>(rspMsgData, rspHead, calls). Inr (parse rspMsgData, length rspMsgData, rspHead)))"

definition test_newcli ::
  "'url net_api \<Rightarrow> (nat \<Rightarrow> bool) \<Rightarrow> ('u, 's) wire_rt \<Rightarrow> (bytes \<Rightarrow> 'u PullRsp) \<Rightarrow> nat \<Rightarrow> nat \<Rightarrow> exchange \<Rightarrow> exchange \<Rightarrow> client_env
   \<Rightarrow> ('u PullRsp \<times> nat \<times> (string \<rightharpoonup> string)) list res" where
  "test_newcli api full rt parse r1 r2 x1 x2 e =
     (let evb = env_fresh e;
          (cliMap, e) = addCliManage api full ''leon_test'' ''http://127.0.0.1:11007'' 1 Map.empty e
      in res_bind (newcli_block api rt parse r1 x1 cliMap e) (\<lambda>rsp1.
         res_bind (newcli_block api rt parse r2 x2 cliMap (after_send evb x1 e)) (\<lambda>rsp2.
           Inr [rsp1, rsp2])))"

text \<open>
  The test reads two whole responses when both answers are in time; when the first is late the second
  send of the test reads a null pointer.
\<close>

lemma test_newcli_result:
  assumes "case env_connect e of [] \<Rightarrow> True | b # bs \<Rightarrow> b" and "env_fresh e \<notin> env_dead e \<union> env_busy e"
    and "stringToMethod api ''POST'' = Some POST"
    and "x_meth x1 = ''POST''" and "x_url x1 = ''/pull''" and "x_head x1 = []"
    and "x_req x1 = pull_wire rt newcli_req" and "x_req x2 = pull_wire rt newcli_req"
    and "x_meth x2 = ''POST''" and "x_url x2 = ''/pull''" and "x_head x2 = []"
    and "\<not> unanswered x2"
  shows "test_newcli api full rt parse r1 r2 x1 x2 e =
    (if in_time x1 then Inr (map (\<lambda>x. (parse (fst (received x)), length (fst (received x)), snd (received x))) [x1, x2])
     else Inl NullDeref)"
proof -
  obtain m e' where m: "CliManage_ctor api full ''http://127.0.0.1:11007'' 1 e = (m, e')" by fastforce
  from one_session [OF m assms(1,2)] obtain c cs where
    s: "cm_sesses m = c # cs" "cs_sess c = Session (env_fresh e)" "env_fresh e \<notin> env_dead e'"
    and free: "env_fresh e \<notin> env_busy e'" .
  have cli: "getClient r ''leon_test'' [''leon_test'' \<mapsto> [m]] = Inr (Some m)" for r
    by (simp add: getClient_def)
  have added: "addCliManage api full ''leon_test'' ''http://127.0.0.1:11007'' 1 Map.empty e = ([''leon_test'' \<mapsto> [m]], e')"
    using m by (simp add: addCliManage_def)
  have dead: "env_fresh e \<notin> env_dead (after_send (env_fresh e) x1 e')" using s(3) by (simp add: after_send_def)
  have busy: "env_fresh e \<in> env_busy (after_send (env_fresh e) x1 e') \<longleftrightarrow> \<not> in_time x1"
    using free by (simp add: after_send_def detached_in_time)
  have "in_time x1 \<Longrightarrow> \<not> unanswered x1" by (simp add: unanswered_def)
  with send_arrived [OF s, of api x1] send_arrived [OF s(1,2) dead, of api x2] assms(3-12) free busy
  show ?thesis
    by (auto simp: test_newcli_def newcli_block_def added [simplified] cli split: if_splits)
qed

section \<open>The older client\<close>

text \<open>
  One send through the factory: \<open>r\<close> and \<open>r'\<close> are what \<open>rand\<close> returns for the pool and for the connection.
  The pool keeps what the send has done to its connections.
\<close>

definition older_send ::
  "'url net_api \<Rightarrow> string \<Rightarrow> nat \<Rightarrow> nat \<Rightarrow> nat option \<Rightarrow> (nat option \<times> client_callback) list \<Rightarrow> string \<Rightarrow> string
   \<Rightarrow> string \<Rightarrow> bytes \<Rightarrow> out_ptr \<Rightarrow> (string \<rightharpoonup> string) \<Rightarrow> (string \<rightharpoonup> (string \<times> 'url CurlManage) list) \<Rightarrow> pool_world
   \<Rightarrow> ((string \<rightharpoonup> string) \<times> (string \<rightharpoonup> (string \<times> 'url CurlManage) list) \<times> pool_world) res" where
  "older_send api name r r' newEx cbs meth url head req rsp rspHead cliMap w =
     res_bind (HttpCli_getClient r name cliMap) (\<lambda>cli.
       case cli of
         None \<Rightarrow> Inl NullDeref
       | Some (a, m) \<Rightarrow>
           res_bind (CurlManage_send api r' newEx cbs meth url head req rsp rspHead m w) (\<lambda>(rspHead, m, w).
             Inr (rspHead, cliMap(name := map_option (\<lambda>v. v[r mod length v := (a, m)]) (cliMap name)), w)))"

text \<open>The string of the caller, which a send writes through a pointer.\<close>

definition local_string :: "nat \<Rightarrow> bytes \<Rightarrow> pool_world \<Rightarrow> pool_world" where
  "local_string p v w = w\<lparr>pw_mem := (pw_mem w)(p \<mapsto> v)\<rparr>"

definition read_string_at :: "nat \<Rightarrow> pool_world \<Rightarrow> bytes res" where
  "read_string_at p w = (case pw_mem w p of None \<Rightarrow> Inl UseAfterFree | Some v \<Rightarrow> Inr v)"

definition older_test_newcli ::
  "'url net_api \<Rightarrow> ('u, 's) wire_rt \<Rightarrow> (bytes \<Rightarrow> 'u PullRsp) \<Rightarrow> nat \<Rightarrow> nat \<Rightarrow> (nat option \<times> client_callback) list
   \<Rightarrow> pool_world \<Rightarrow> ('u PullRsp \<times> nat) res" where
  "older_test_newcli api rt parse r r' cbs w =
     (let (cliMap, u) = HttpCli_addCliManage api ''leon_test'' ''http://127.0.0.1:11007'' 2 Map.empty ();
          w = local_string 0 [] w
      in res_bind (older_send api ''leon_test'' r r' None cbs ''POST'' ''/pull'' [] (pull_wire rt newcli_req)
            (Out 0) Map.empty cliMap w) (\<lambda>(rspHead, cliMap, w).
         res_bind (read_string_at 0 w) (\<lambda>rspMsgData. Inr (parse rspMsgData, length rspMsgData))))"

text \<open>
  The second test logs the headers of the first answer, its body as JSON, and after a second send the same
  value once more. \<open>parseJson\<close> throws on a body that is not JSON, which \<open>None\<close> stands for.
\<close>

definition older_test_register ::
  "'url net_api \<Rightarrow> (bytes \<Rightarrow> 'j option) \<Rightarrow> nat \<times> nat \<Rightarrow> nat \<times> nat \<Rightarrow> nat option \<Rightarrow> (nat option \<times> client_callback) list
   \<Rightarrow> (nat option \<times> client_callback) list \<Rightarrow> pool_world \<Rightarrow> ((string \<rightharpoonup> string) \<times> 'j \<times> 'j) option res" where
  "older_test_register api parseJson r1 r2 newEx cbs1 cbs2 w =
     (let (cliMap, u) = HttpCli_addCliManage api ''leon_consul'' ''http://registry-qa.qutoutiao.net'' 1 Map.empty ();
          w = local_string 0 [] w
      in res_bind (older_send api ''leon_consul'' (fst r1) (snd r1) None cbs1 ''GET'' ''/v1/health/service/leon_fs_test''
            ''Content-Type=application/json'' [] (Out 0) Map.empty cliMap w) (\<lambda>(rspHead, cliMap, w).
         res_bind (read_string_at 0 w) (\<lambda>rspMsgData.
         case parseJson rspMsgData of
           None \<Rightarrow> Inr None
         | Some rsp \<Rightarrow>
             let w = local_string 0 [] w
             in res_bind (older_send api ''leon_consul'' (fst r2) (snd r2) newEx cbs2 ''GET''
                   ''/v1/health/service/leon_fs_test''
                   ''Content-Type=application/json,X-Consul-Index=70814136'' [] (Out 0) Map.empty cliMap w)
                 (\<lambda>(rspHead2, cliMap, w). Inr (Some (rspHead, rsp, rsp))))))"

lemma make_conns_nth: "i < n \<Longrightarrow>
  make_conns a u n ! i = CurlClient_setFlowControlSettings 65536 (CurlClient_ctor a u False 1 1 False)"
proof (induction n)
  case (Suc n)
  have "length (make_conns a u n) = n" for n by (induction n) simp_all
  with Suc show ?case by (cases "i < n") (auto simp: nth_append less_Suc_eq)
qed simp

text \<open>
  Whatever arrives on a new pool while a send sleeps, a send that returns gives the headers of the last
  response among it and every part of the body; with no response among it there is nothing to read from.
\<close>

lemma older_send_first:
  assumes "HttpCli_addCliManage api name addr num Map.empty () = (cliMap, u)" and "0 < num"
    and "older_send api name r r' newEx cbs meth url head req (Out p) Map.empty cliMap (local_string p [] w)
      = Inr (rspHead, cliMap', w')"
  obtains msg where "last_response (map snd cbs) None = Some msg" and "rspHead = map_of (rsp_headers msg)"
    and "read_string_at p w' = Inr (body_of (map snd cbs))"
proof -
  let ?m = "CurlManage_ctor api addr num"
  have map: "cliMap = [name \<mapsto> [(addr, ?m)]]"
    using assms(1) by (simp add: HttpCli_addCliManage_def Let_def)
  from assms(3) obtain m' where send: "CurlManage_send api r' newEx cbs meth url head req (Out p) Map.empty ?m
      (local_string p [] w) = Inr (rspHead, m', w')"
    by (auto simp: older_send_def map HttpCli_getClient_def res_bind_Inr)
  have fresh: "cc_eomFunc (hm_conns ?m ! (r' mod hm_num ?m)) = None"
    "cc_response (hm_conns ?m ! (r' mod hm_num ?m)) = None"
    using assms(2)
    by (simp_all add: CurlManage_ctor_def make_conns_nth CurlClient_setFlowControlSettings_def
        CurlClient_ctor_def Let_def)
  show thesis
  proof (rule CurlManage_send_Inr [OF send])
    fix c1 w1 c2 msg
    assume c1: "cc_outputStr c1 = Out p" "cc_eomFunc c1 = cc_eomFunc (hm_conns ?m ! (r' mod hm_num ?m))"
        "cc_response c1 = cc_response (hm_conns ?m ! (r' mod hm_num ?m))" "pw_mem w1 = pw_mem (local_string p [] w)"
      and run: "callbacks api cbs c1 w1 = Inr (c2, w')" and msg: "cc_response c2 = Some msg"
        "rspHead = map_of (rsp_headers msg) ++ Map.empty"
    have "pw_mem w1 p = Some []" using c1(4) by (simp add: local_string_def)
    from callbacks_keep [OF run c1(1) this] c1(2,3) fresh msg(1)
    have "last_response (map snd cbs) None = Some msg" "pw_mem w' p = Some (body_of (map snd cbs))" by simp_all
    with that [of msg] msg(2) show thesis by (simp add: read_string_at_def)
  qed
qed

lemma older_test_newcli_result:
  assumes "older_test_newcli api rt parse r r' cbs w = Inr (rsp, n)"
  shows "rsp = parse (body_of (map snd cbs)) \<and> n = length (body_of (map snd cbs)) \<and> last_response (map snd cbs) None \<noteq> None"
proof -
  obtain cliMap u where add: "HttpCli_addCliManage api ''leon_test'' ''http://127.0.0.1:11007'' 2 Map.empty () = (cliMap, u)"
    by (meson surj_pair)
  from assms obtain rspHead cliMap' w' where
    send: "older_send api ''leon_test'' r r' None cbs ''POST'' ''/pull'' [] (pull_wire rt newcli_req) (Out 0) Map.empty
      cliMap (local_string 0 [] w) = Inr (rspHead, cliMap', w')"
    and rest: "res_bind (read_string_at 0 w') (\<lambda>d. Inr (parse d, length d)) = Inr (rsp, n)"
    by (auto simp: older_test_newcli_def add res_bind_Inr Let_def)
  from older_send_first [OF add _ send] obtain msg where
    "last_response (map snd cbs) None = Some msg" "read_string_at 0 w' = Inr (body_of (map snd cbs))" by auto
  with rest show ?thesis by simp
qed

text \<open>What is logged as the second response is the first.\<close>

lemma older_test_register_result:
  assumes "older_test_register api parseJson r1 r2 newEx cbs1 cbs2 w = Inr (Some (rspHead, rsp, rsp2))"
  shows "parseJson (body_of (map snd cbs1)) = Some rsp \<and> rsp2 = rsp
    \<and> (\<exists>msg. last_response (map snd cbs1) None = Some msg \<and> rspHead = map_of (rsp_headers msg))"
proof -
  obtain cliMap u where add: "HttpCli_addCliManage api ''leon_consul'' ''http://registry-qa.qutoutiao.net'' 1 Map.empty () = (cliMap, u)"
    by (meson surj_pair)
  from assms obtain head cliMap' w' where
    send: "older_send api ''leon_consul'' (fst r1) (snd r1) None cbs1 ''GET'' ''/v1/health/service/leon_fs_test''
      ''Content-Type=application/json'' [] (Out 0) Map.empty cliMap (local_string 0 [] w) = Inr (head, cliMap', w')"
    and rest: "rspHead = head" "rsp2 = rsp"
      "\<exists>d. read_string_at 0 w' = Inr d \<and> parseJson d = Some rsp"
    by (auto simp: older_test_register_def add [simplified] res_bind_Inr Let_def split: option.splits)
  from older_send_first [OF add _ send] obtain msg where
    "last_response (map snd cbs1) None = Some msg" "head = map_of (rsp_headers msg)" "read_string_at 0 w' = Inr (body_of (map snd cbs1))"
    by auto
  with rest show ?thesis by auto
qed

end
