(* ===== verification/Kafka.thy ===== *)
theory Kafka
  imports Prelude
begin

text \<open>
  The Kafka consumers of test-debug/kafka-test: kafka-test-1.cpp with its callbacks and counters, and
  the polling loop of kafka-test.cpp. librdkafka is a parameter: what its configuration accepts, and
  for each call of \<open>consume\<close> the callbacks it runs and the message it returns.
\<close>

section \<open>What the library hands over\<close>

datatype ErrorCode =
    ERR_NO_ERROR
  | ERR__TIMED_OUT
  | ERR__PARTITION_EOF
  | ERR__UNKNOWN_TOPIC
  | ERR__UNKNOWN_PARTITION
  | ERR__ASSIGN_PARTITIONS
  | ERR_other int

datatype TimestampType =
    MSG_TIMESTAMP_NOT_AVAILABLE
  | MSG_TIMESTAMP_CREATE_TIME
  | MSG_TIMESTAMP_LOG_APPEND_TIME

record Message =
  msg_err :: ErrorCode
  msg_errstr :: string
  msg_len :: u64
  msg_offset :: i64
  msg_key :: "string option"
  msg_ts :: "TimestampType \<times> i64"

datatype EventType = EVENT_ERROR | EVENT_STATS | EVENT_LOG | EVENT_THROTTLE | EVENT_other int

record Event =
  ev_type :: EventType
  ev_err :: ErrorCode
  ev_str :: string
  ev_throttle_time :: int
  ev_broker_name :: string
  ev_broker_id :: int

text \<open>
  What happens inside one call of \<open>consume\<close> before it returns: a rebalance, with the error code, the
  partitions and what \<open>assign\<close> or \<open>unassign\<close> then answers; an event; a signal.
\<close>

datatype callback =
    Rebalance ErrorCode "(string \<times> int) list" ErrorCode
  | Event_cb Event
  | Signal

section \<open>The program's state and what it prints\<close>

text \<open>What goes to the two output streams, one constructor for each print statement.\<close>

datatype line =
    Hello
  | Rebalance_line ErrorCode "(string \<times> int) list"
  | Assign_failed ErrorCode
  | Error_line ErrorCode string
  | Stats_line string
  | Throttled_line int string int
  | Event_line EventType ErrorCode string
  | Read_offset i64
  | Timestamp_line string i64
  | Key_line string
  | is_Content_line: Content_line i32
  | Eof_line int
  | Consume_failed string
  | Failed_create string
  | Created string
  | Failed_subscribe nat ErrorCode
  | Not_modified string
  | Conf_error string
  | Consumed_line int i64

text \<open>
  The text of each, on the stream it goes to. \<open>err2str\<close> names an error code, \<open>type_number\<close> is the value of
  an event type.
\<close>

datatype std_stream = Cout | Cerr

definition int_string :: "int \<Rightarrow> string" where
  "int_string i = (if i < 0 then CHR ''-'' # dec_string (nat (- i)) else dec_string (nat i))"

definition part_list_print :: "(string \<times> int) list \<Rightarrow> string" where
  "part_list_print partitions =
     concat (map (\<lambda>(topic, partition). topic @ ''['' @ int_string partition @ ''], '') partitions) @ [CHR 0x0A]"

fun line_text :: "(ErrorCode \<Rightarrow> string) \<Rightarrow> (EventType \<Rightarrow> int) \<Rightarrow> line \<Rightarrow> std_stream \<times> string" where
  "line_text err2str type_number Hello = (Cout, ''hello leon'' @ [CHR 0x0A])"
| "line_text err2str type_number (Rebalance_line e ps) =
     (Cerr, ''RebalanceCb: '' @ err2str e @ '': '' @ part_list_print ps)"
| "line_text err2str type_number (Assign_failed e) = (Cerr, ''assign failed: '' @ err2str e @ [CHR 0x0A])"
| "line_text err2str type_number (Error_line e s) = (Cerr, ''ERROR ('' @ err2str e @ ''): '' @ s @ [CHR 0x0A])"
| "line_text err2str type_number (Stats_line s) =
     (Cerr, [CHR 0x22] @ ''STATS'' @ [CHR 0x22] @ '': '' @ s @ [CHR 0x0A])"
| "line_text err2str type_number (Throttled_line t b i) =
     (Cerr, ''THROTTLED: '' @ int_string t @ ''ms by '' @ b @ '' id '' @ int_string i @ [CHR 0x0A])"
| "line_text err2str type_number (Event_line t e s) =
     (Cerr, ''EVENT '' @ int_string (type_number t) @ '' ('' @ err2str e @ ''): '' @ s @ [CHR 0x0A])"
| "line_text err2str type_number (Read_offset n) = (Cerr, ''Read msg at offset '' @ int_string (sint n) @ [CHR 0x0A])"
| "line_text err2str type_number (Timestamp_line n t) =
     (Cout, ''Timestamp: '' @ n @ '' '' @ int_string (sint t) @ [CHR 0x0A])"
| "line_text err2str type_number (Key_line k) = (Cout, ''Key: '' @ k @ [CHR 0x0A])"
| "line_text err2str type_number (Content_line n) =
     (Cout, ''leon_debug get content '' @ int_string (sint n) @ [CHR 0x0A])"
| "line_text err2str type_number (Eof_line n) =
     (Cerr, ''%% EOF reached for all '' @ int_string n @ '' partition(s)'' @ [CHR 0x0A])"
| "line_text err2str type_number (Consume_failed s) = (Cerr, ''Consume failed: '' @ s @ [CHR 0x0A])"
| "line_text err2str type_number (Failed_create s) = (Cerr, ''Failed to create consumer: '' @ s @ [CHR 0x0A])"
| "line_text err2str type_number (Created n) = (Cout, ''% Created consumer '' @ n @ [CHR 0x0A])"
| "line_text err2str type_number (Failed_subscribe n e) =
     (Cerr, ''Failed to subscribe to '' @ dec_string n @ '' topics: '' @ err2str e @ [CHR 0x0A])"
| "line_text err2str type_number (Not_modified s) =
     (Cerr, ''Error: this example has not been modified to '' @
       ''support -e (exit on EOF) when the partition.assignment.strategy '' @
       ''is set to '' @ s @ '': remove -e from the command line'' @ [CHR 0x0A])"
| "line_text err2str type_number (Conf_error s) = (Cerr, s @ [CHR 0x0A])"
| "line_text err2str type_number (Consumed_line n b) =
     (Cerr, ''% Consumed '' @ int_string n @ '' messages ('' @ int_string (sint b) @ '' bytes)'' @ [CHR 0x0A])"

record globals =
  run :: bool
  exit_eof :: bool
  eof_cnt :: int
  partition_cnt :: int
  verbosity :: int
  msg_cnt :: int
  msg_bytes :: i64
  out :: "line list"

definition globals_init :: globals where
  "globals_init = \<lparr>run = True, exit_eof = False, eof_cnt = 0, partition_cnt = 0, verbosity = 1,
     msg_cnt = 0, msg_bytes = 0, out = []\<rparr>"

abbreviation print_line :: "line \<Rightarrow> globals \<Rightarrow> globals" where
  "print_line l g \<equiv> g\<lparr>out := out g @ [l]\<rparr>"

text \<open>A signed addition that must stay in the range of its type of \<open>w\<close> bits.\<close>

definition add_signed :: "nat \<Rightarrow> int \<Rightarrow> int \<Rightarrow> int res" where
  "add_signed w a b = (if - (2 ^ (w - 1)) \<le> a + b \<and> a + b < 2 ^ (w - 1) then Inr (a + b) else Inl SignedOverflow)"

section \<open>Callbacks\<close>

definition sigterm :: "globals \<Rightarrow> globals" where
  "sigterm g = g\<lparr>run := False\<rparr>"

definition event_cb :: "Event \<Rightarrow> globals \<Rightarrow> globals" where
  "event_cb event g =
     (case ev_type event of
        EVENT_ERROR \<Rightarrow> print_line (Error_line (ev_err event) (ev_str event)) g
      | EVENT_STATS \<Rightarrow> print_line (Stats_line (ev_str event)) g
      | EVENT_LOG \<Rightarrow> g
      | EVENT_THROTTLE \<Rightarrow> print_line (Throttled_line (ev_throttle_time event) (ev_broker_name event)
          (ev_broker_id event)) g
      | _ \<Rightarrow> print_line (Event_line (ev_type event) (ev_err event) (ev_str event)) g)"

text \<open>\<open>(int)partitions.size()\<close> keeps the low 32 bits.\<close>

definition rebalance_cb ::
  "ErrorCode \<Rightarrow> (string \<times> int) list \<Rightarrow> ErrorCode \<Rightarrow> globals \<Rightarrow> globals res" where
  "rebalance_cb err partitions ret_err g =
     (let g = print_line (Rebalance_line err partitions) g
      in res_bind
        (if err = ERR__ASSIGN_PARTITIONS then
           add_signed 32 (partition_cnt g) (sint (of_nat (length partitions) :: i32))
         else Inr 0) (\<lambda>n.
        let g = g\<lparr>partition_cnt := n, eof_cnt := 0\<rparr>
        in Inr (if ret_err \<noteq> ERR_NO_ERROR then print_line (Assign_failed ret_err) g else g)))"

definition run_callback :: "callback \<Rightarrow> globals \<Rightarrow> globals res" where
  "run_callback c g =
     (case c of
        Rebalance err ps ret \<Rightarrow> rebalance_cb err ps ret g
      | Event_cb e \<Rightarrow> Inr (event_cb e g)
      | Signal \<Rightarrow> Inr (sigterm g))"

fun run_callbacks :: "callback list \<Rightarrow> globals \<Rightarrow> globals res" where
  "run_callbacks [] g = Inr g"
| "run_callbacks (c # cs) g = res_bind (run_callback c g) (run_callbacks cs)"

section \<open>A message\<close>

definition ts_name :: "TimestampType \<Rightarrow> string" where
  "ts_name t = (if t = MSG_TIMESTAMP_CREATE_TIME then ''create time''
     else if t = MSG_TIMESTAMP_LOG_APPEND_TIME then ''log append time'' else ''?'')"

text \<open>The case of a real message. The length is added with wrap-around, as \<open>size_t\<close> arithmetic.\<close>

definition real_message :: "Message \<Rightarrow> globals \<Rightarrow> globals res" where
  "real_message message g =
     res_bind (add_signed 64 (msg_cnt g) 1) (\<lambda>n.
       let g = g\<lparr>msg_cnt := n, msg_bytes := msg_bytes g + msg_len message\<rparr>;
           g = (if verbosity g \<ge> 3 then print_line (Read_offset (msg_offset message)) g else g);
           ts = msg_ts message;
           g = (if verbosity g \<ge> 2 \<and> fst ts \<noteq> MSG_TIMESTAMP_NOT_AVAILABLE
                then print_line (Timestamp_line (ts_name (fst ts)) (snd ts)) g else g);
           g = (case msg_key message of
                  Some k \<Rightarrow> if verbosity g \<ge> 2 then print_line (Key_line k) g else g
                | None \<Rightarrow> g)
       in Inr (if verbosity g \<ge> 1 then print_line (Content_line (ucast (msg_len message))) g else g))"

definition msg_consume :: "Message \<Rightarrow> globals \<Rightarrow> globals res" where
  "msg_consume message g =
     (case msg_err message of
        ERR__TIMED_OUT \<Rightarrow> Inr g
      | ERR_NO_ERROR \<Rightarrow> real_message message g
      | ERR__PARTITION_EOF \<Rightarrow>
          if exit_eof g then
            res_bind (add_signed 32 (eof_cnt g) 1) (\<lambda>n.
              let g = g\<lparr>eof_cnt := n\<rparr>
              in Inr (if n = partition_cnt g
                      then (print_line (Eof_line (partition_cnt g)) g)\<lparr>run := False\<rparr> else g))
          else Inr g
      | ERR__UNKNOWN_TOPIC \<Rightarrow> Inr ((print_line (Consume_failed (msg_errstr message)) g)\<lparr>run := False\<rparr>)
      | ERR__UNKNOWN_PARTITION \<Rightarrow> Inr ((print_line (Consume_failed (msg_errstr message)) g)\<lparr>run := False\<rparr>)
      | _ \<Rightarrow> Inr ((print_line (Consume_failed (msg_errstr message)) g)\<lparr>run := False\<rparr>))"

section \<open>The loop\<close>

text \<open>
  \<open>while (run) { consume; msg_consume; if (count++ > 10) run = 0; }\<close>. The consumer is a state of the
  library; \<open>cons\<close> is its \<open>consume\<close>. \<open>cnt\<close>, its \<open>count\<close>, starts at 0 and never passes 12.
\<close>

definition consume_step ::
  "('c \<Rightarrow> (callback list \<times> Message) \<times> 'c) \<Rightarrow> nat \<Rightarrow> globals \<Rightarrow> 'c \<Rightarrow> (globals \<times> 'c) res" where
  "consume_step cons cnt g c =
     (let ((cbs, msg), c) = cons c
      in res_bind (run_callbacks cbs g) (\<lambda>g.
         res_bind (msg_consume msg g) (\<lambda>g.
           Inr (if cnt > 10 then g\<lparr>run := False\<rparr> else g, c))))"

lemma consume_step_last: "consume_step cons cnt g c = Inr (g', c') \<Longrightarrow> run g' \<Longrightarrow> cnt \<le> 10"
  by (rule ccontr) (auto simp: consume_step_def res_bind_Inr Let_def split: prod.splits)

function consume_loop ::
  "('c \<Rightarrow> (callback list \<times> Message) \<times> 'c) \<Rightarrow> nat \<Rightarrow> globals \<Rightarrow> 'c \<Rightarrow> (globals \<times> 'c) res" where
  "consume_loop cons cnt g c =
     (if run g then res_bind (consume_step cons cnt g c) (\<lambda>(g, c). consume_loop cons (Suc cnt) g c)
      else Inr (g, c))"
  by pat_completeness auto
termination
  by (relation "measure (\<lambda>(cons, cnt, g, c). if run g then Suc (12 - cnt) else 0)")
    (auto split: if_splits dest!: consume_step_last [rotated])

declare consume_loop.simps [simp del]


section \<open>The program\<close>

datatype ConfResult = CONF_OK | CONF_INVALID | CONF_UNKNOWN

datatype 't conf_value = Text string | The_rebalance_cb | The_event_cb | Topic_conf 't

text \<open>
  The part of librdkafka the program calls: what each call answers, with the error text it leaves.
\<close>

record ('g, 't, 'c) kafka =
  conf_new :: 'g
  tconf_new :: 't
  conf_set :: "string \<Rightarrow> 't conf_value \<Rightarrow> 'g \<Rightarrow> ConfResult \<times> string \<times> 'g"
  tconf_set :: "string \<Rightarrow> string \<Rightarrow> 't \<Rightarrow> ConfResult \<times> string \<times> 't"
  conf_get :: "string \<Rightarrow> 'g \<Rightarrow> ConfResult \<times> string"
  consumer_create :: "'g \<Rightarrow> string + 'c"
  consumer_name :: "'c \<Rightarrow> string"
  consumer_subscribe :: "string list \<Rightarrow> 'c \<Rightarrow> ErrorCode \<times> 'c"
  consumer_consume :: "'c \<Rightarrow> (callback list \<times> Message) \<times> 'c"

text \<open>\<open>if (... != CONF_OK) { cerr << errstr; exit(1); }\<close>. A program's result is its exit code and state.\<close>

definition or_exit ::
  "ConfResult \<times> string \<times> 'a \<Rightarrow> globals \<Rightarrow> ('a \<Rightarrow> (int \<times> globals) res) \<Rightarrow> (int \<times> globals) res" where
  "or_exit r g k = (let (res, errstr, conf) = r
     in if res \<noteq> CONF_OK then Inr (1, print_line (Conf_error errstr) g) else k conf)"

text \<open>Once configured: the consumer is made, subscribed and read.\<close>

definition consumer_mode :: "('g, 't, 'c) kafka \<Rightarrow> string list \<Rightarrow> 'g \<Rightarrow> globals \<Rightarrow> (int \<times> globals) res" where
  "consumer_mode api topics conf g =
     (case consumer_create api conf of
        Inl errstr \<Rightarrow> Inr (1, print_line (Failed_create errstr) g)
      | Inr consumer \<Rightarrow>
          let g = print_line (Created (consumer_name api consumer)) g;
              (err, consumer) = consumer_subscribe api topics consumer
          in if err \<noteq> ERR_NO_ERROR then Inr (1, print_line (Failed_subscribe (length topics) err) g)
             else res_bind (consume_loop (consumer_consume api) 0 g consumer) (\<lambda>(g, c).
               Inr (0, print_line (Consumed_line (msg_cnt g) (msg_bytes g)) g)))"

definition kafka_main :: "('g, 't, 'c) kafka \<Rightarrow> (int \<times> globals) res" where
  "kafka_main api =
     (let g = print_line Hello globals_init;
          brokers = ''di-inno-kafka01.h.ab1.qttsite.net:9092'';
          conf = snd (snd (conf_set api ''rebalance_cb'' The_rebalance_cb (conf_new api)));
          conf = snd (snd (conf_set api ''enable.partition.eof'' (Text ''true'') conf))
      in or_exit (conf_set api ''group.id'' (Text ''leon_test'') conf) g (\<lambda>conf.
         or_exit (conf_set api ''compression.codec'' (Text ''lz4'') conf) g (\<lambda>conf.
         let g = g\<lparr>exit_eof := True\<rparr>; debug = ''all''
         in or_exit (conf_set api ''statistics.interval.ms'' (Text ''1000'') conf) g (\<lambda>conf.
         or_exit (tconf_set api ''auto.offset.reset'' ''smallest'' (tconf_new api)) g (\<lambda>tconf.
         let g = g\<lparr>verbosity := verbosity g + 1\<rparr>;
             topics = [''mt_predict_dump''];
             (got, strategy) = conf_get api ''partition.assignment.strategy'' conf
         in if exit_eof g \<and> got = CONF_OK \<and> strategy = ''cooperative-sticky''
            then Inr (1, print_line (Not_modified strategy) g)
            else
              let conf = snd (snd (conf_set api ''metadata.broker.list'' (Text brokers) conf))
              in or_exit (if debug \<noteq> [] then conf_set api ''debug'' (Text debug) conf else (CONF_OK, [], conf)) g
                (\<lambda>conf.
                  let conf = snd (snd (conf_set api ''event_cb'' The_event_cb conf));
                      conf = snd (snd (conf_set api ''default_topic_conf'' (Topic_conf tconf) conf))
                  in consumer_mode api topics conf g))))))"

section \<open>What a history of occurrences amounts to\<close>

text \<open>An occurrence is a callback or a message; a history lists them newest first.\<close>

type_synonym occ = "callback + Message"

definition occs :: "callback list \<times> Message \<Rightarrow> occ list" where
  "occs a = Inr (snd a) # rev (map Inl (fst a))"

primrec hist :: "('c \<Rightarrow> (callback list \<times> Message) \<times> 'c) \<Rightarrow> nat \<Rightarrow> 'c \<Rightarrow> occ list" where
  "hist cons 0 c = []"
| "hist cons (Suc n) c = hist cons n (snd (cons c)) @ occs (fst (cons c))"

text \<open>The real messages; the ends of partitions since the last rebalance; the partitions assigned.\<close>

definition reals :: "occ list \<Rightarrow> Message list" where
  "reals h = [m. Inr m \<leftarrow> h, msg_err m = ERR_NO_ERROR]"

fun eofs :: "occ list \<Rightarrow> nat" where
  "eofs [] = 0"
| "eofs (Inr m # h) = (if msg_err m = ERR__PARTITION_EOF then Suc (eofs h) else eofs h)"
| "eofs (Inl (Rebalance e ps r) # h) = 0"
| "eofs (Inl (Event_cb e) # h) = eofs h"
| "eofs (Inl Signal # h) = eofs h"

fun parts :: "occ list \<Rightarrow> nat" where
  "parts [] = 0"
| "parts (Inr m # h) = parts h"
| "parts (Inl (Rebalance e ps r) # h) = (if e = ERR__ASSIGN_PARTITIONS then parts h + length ps else 0)"
| "parts (Inl (Event_cb e) # h) = parts h"
| "parts (Inl Signal # h) = parts h"

definition fails :: "Message \<Rightarrow> bool" where
  "fails m = (msg_err m \<notin> {ERR_NO_ERROR, ERR__TIMED_OUT, ERR__PARTITION_EOF})"

fun stopped :: "occ list \<Rightarrow> bool" where
  "stopped [] = False"
| "stopped (Inr m # h) =
     (stopped h \<or> fails m \<or> (msg_err m = ERR__PARTITION_EOF \<and> Suc (eofs h) = parts h))"
| "stopped (Inl c # h) = (stopped h \<or> c = Signal)"

text \<open>All partitions any rebalance of the history names.\<close>

definition named :: "occ list \<Rightarrow> nat" where
  "named h = sum_list (map (\<lambda>x. case x of Inl (Rebalance e ps r) \<Rightarrow> length ps | _ \<Rightarrow> 0) h)"

lemma named_simps [simp]:
  "named [] = 0" "named (x # h) = (case x of Inl (Rebalance e ps r) \<Rightarrow> length ps | _ \<Rightarrow> 0) + named h"
  "named (h @ h') = named h + named h'"
  by (simp_all add: named_def)

lemma parts_le_named: "parts h \<le> named h"
  by (induction h rule: parts.induct) auto

lemma reals_simps [simp]:
  "reals [] = []" "reals (Inl c # h) = reals h"
  "reals (Inr m # h) = (if msg_err m = ERR_NO_ERROR then m # reals h else reals h)"
  by (simp_all add: reals_def)

section \<open>The counters follow the history\<close>

definition tracks :: "globals \<Rightarrow> occ list \<Rightarrow> bool" where
  "tracks g h = (msg_cnt g = int (length (reals h)) \<and> msg_bytes g = sum_list (map msg_len (reals h))
     \<and> eof_cnt g = int (eofs h) \<and> partition_cnt g = int (parts h) \<and> exit_eof g \<and> verbosity g = 2
     \<and> [l \<leftarrow> out g. is_Content_line l] = rev (map (\<lambda>m. Content_line (ucast (msg_len m))) (reals h)))"


lemma add_signed_ok: "- (2 ^ (w - 1)) \<le> a + b \<Longrightarrow> a + b < 2 ^ (w - 1) \<Longrightarrow> add_signed w a b = Inr (a + b)"
  by (simp add: add_signed_def)

lemma sint_length: "n < 2147483648 \<Longrightarrow> sint (of_nat n :: i32) = int n"
  by (simp add: signed_of_nat signed_take_bit_int_eq_self)

lemma run_callback_tracks:
  assumes "tracks g h" and "named (Inl c # h) < 2147483648"
  shows "\<exists>g'. run_callback c g = Inr g' \<and> tracks g' (Inl c # h)
    \<and> (run g' \<longleftrightarrow> run g \<and> c \<noteq> Signal)"
proof (cases c)
  case (Rebalance e ps r)
  have "int (parts h) + int (length ps) < 2147483648"
    using assms(2) Rebalance parts_le_named [of h] by simp
  with assms(1) Rebalance show ?thesis
    by (simp add: run_callback_def rebalance_cb_def Let_def tracks_def sint_length add_signed_ok)
next
  case (Event_cb e)
  with assms(1) show ?thesis
    by (auto simp: run_callback_def event_cb_def tracks_def split: EventType.split)
next
  case Signal
  with assms(1) show ?thesis by (simp add: run_callback_def sigterm_def tracks_def)
qed

text \<open>While the program runs, nothing in its history has told it to stop.\<close>

abbreviation in_step :: "bool \<Rightarrow> globals \<Rightarrow> occ list \<Rightarrow> bool" where
  "in_step live g h \<equiv> tracks g h \<and> (run g \<longleftrightarrow> live \<and> \<not> stopped h)"

lemma run_callbacks_tracks:
  assumes "in_step live g h" and "named (rev (map Inl cs) @ h) < 2147483648"
  shows "\<exists>g'. run_callbacks cs g = Inr g' \<and> in_step live g' (rev (map Inl cs) @ h)"
  using assms
proof (induction cs arbitrary: g h)
  case (Cons c cs)
  obtain g1 where "run_callback c g = Inr g1" "tracks g1 (Inl c # h)" "run g1 \<longleftrightarrow> run g \<and> c \<noteq> Signal"
    using run_callback_tracks [of g h c] Cons.prems by auto
  with Cons.IH [of g1 "Inl c # h"] Cons.prems show ?case by auto
qed simp

lemma msg_consume_tracks:
  assumes "in_step live g h" and "length (reals h) < 2147483647" and "eofs h < 2147483647"
  shows "\<exists>g'. msg_consume m g = Inr g' \<and> in_step live g' (Inr m # h)"
proof (cases "msg_err m = ERR_NO_ERROR")
  case True
  with assms show ?thesis
    by (simp add: msg_consume_def real_message_def tracks_def add_signed_ok Let_def fails_def
        split: option.split)
next
  case False
  with assms show ?thesis
    by (auto simp: msg_consume_def tracks_def add_signed_ok Let_def fails_def split: ErrorCode.split)
qed

lemma reals_callbacks [simp]: "reals (rev (map Inl cs) @ h) = reals h"
  by (simp add: reals_def)

lemma eofs_callbacks: "eofs (map Inl cs @ h) \<le> eofs h"
proof (induction cs)
  case (Cons c cs)
  then show ?case by (cases c) simp_all
qed simp

text \<open>How many messages a history has, and a bound on what they add up to.\<close>

definition msgs :: "occ list \<Rightarrow> nat" where
  "msgs h = length (filter (\<lambda>x. case x of Inl _ \<Rightarrow> False | Inr _ \<Rightarrow> True) h)"

lemma msgs_simps [simp]:
  "msgs [] = 0" "msgs (Inr m # h) = Suc (msgs h)" "msgs (Inl c # h) = msgs h" "msgs (h @ h') = msgs h + msgs h'"
  "msgs (map Inl cs) = 0" "msgs (occs a) = 1"
  by (simp_all add: msgs_def occs_def comp_def)

lemma reals_le_msgs: "length (reals h) \<le> msgs h"
  by (induction h) (auto simp: msgs_def split: sum.split)

lemma eofs_le_msgs: "eofs h \<le> msgs h"
  by (induction h rule: eofs.induct) auto

lemma consume_step_tracks:
  assumes "in_step True g h" and "named (occs (fst (cons c)) @ h) < 2147483648" and "msgs h \<le> 11"
  shows "\<exists>g'. consume_step cons cnt g c = Inr (g', snd (cons c))
    \<and> in_step (cnt \<le> 10) g' (occs (fst (cons c)) @ h)"
proof -
  obtain cbs m c' where c: "cons c = ((cbs, m), c')" by (metis prod.exhaust)
  let ?h = "rev (map Inl cbs) @ h"
  obtain g1 where 1: "run_callbacks cbs g = Inr g1" "in_step True g1 ?h"
    using run_callbacks_tracks [OF assms(1), of cbs] assms(2) c by (auto simp: occs_def)
  have "eofs ?h \<le> 11" using eofs_callbacks [of "rev cbs" h] eofs_le_msgs [of h] assms(3) by (simp add: rev_map)
  moreover have "length (reals ?h) \<le> 11" using reals_le_msgs [of h] assms(3) by simp
  ultimately obtain g2 where "msg_consume m g1 = Inr g2" "in_step True g2 (Inr m # ?h)"
    using msg_consume_tracks [OF 1(2), of m] by auto
  with 1(1) c show ?thesis by (auto simp: consume_step_def occs_def tracks_def)
qed

text \<open>
  The loop reads up to the first message at which the history says stop, twelve at most.
\<close>

lemma consume_loop_tracks:
  assumes "in_step (cnt < 12) g h" and "msgs h \<le> cnt" and "cnt \<le> 12"
    and "named (hist cons (12 - cnt) c @ h) < 2147483648"
  shows "\<exists>n g' c'. consume_loop cons cnt g c = Inr (g', c') \<and> cnt + n \<le> 12
    \<and> tracks g' (hist cons n c @ h) \<and> (stopped (hist cons n c @ h) \<or> cnt + n = 12)
    \<and> (\<forall>k < n. \<not> stopped (hist cons k c @ h))"
  using assms
proof (induction cons cnt g c arbitrary: h rule: consume_loop.induct)
  case (1 cons cnt g c)
  show ?case
  proof (cases "run g")
    case False
    with 1(2,4) have "consume_loop cons cnt g c = Inr (g, c)" "stopped h \<or> cnt = 12"
      by (auto simp: consume_loop.simps)
    with 1(2,4) show ?thesis by (intro exI [of _ 0] exI [of _ g] exI [of _ c]) simp
  next
    case True
    let ?a = "occs (fst (cons c))" and ?c = "snd (cons c)"
    from True 1(2) have live: "cnt < 12" "\<not> stopped h" by auto
    then have "12 - cnt = Suc (12 - Suc cnt)" by simp
    then have Suc: "hist cons (12 - cnt) c = hist cons (12 - Suc cnt) ?c @ ?a" by (simp only: hist.simps)
    have "named (?a @ h) < 2147483648" using 1(5) unfolding Suc by simp
    moreover have "in_step True g h" using 1(2) live by simp
    ultimately obtain g1 where s: "consume_step cons cnt g c = Inr (g1, ?c)" "in_step (cnt \<le> 10) g1 (?a @ h)"
      using consume_step_tracks [of g h cons c cnt] 1(3) live by auto
    have "(cnt \<le> 10) = (Suc cnt < 12)" by auto
    with s(2) 1(1) [OF True s(1) refl, of "?a @ h"] 1(3,5) live obtain n g' c' where
      n: "consume_loop cons (Suc cnt) g1 ?c = Inr (g', c')" "Suc cnt + n \<le> 12"
        "tracks g' (hist cons (Suc n) c @ h)" "stopped (hist cons (Suc n) c @ h) \<or> Suc cnt + n = 12"
        "\<forall>k < n. \<not> stopped (hist cons (Suc k) c @ h)"
      unfolding Suc by auto
    have "\<not> stopped (hist cons k c @ h)" if "k < Suc n" for k
      using that n(5) live(2) by (cases k) auto
    moreover have "consume_loop cons cnt g c = Inr (g', c')"
      using True s(1) n(1) by (subst consume_loop.simps) simp
    ultimately show ?thesis using n by (intro exI [of _ "Suc n"] exI [of _ g'] exI [of _ c']) simp
  qed
qed


section \<open>The polling consumer\<close>

text \<open>
  kafka-test.cpp. What its loop does to the outside, in order; \<open>poll\<close> is \<open>rd_kafka_consumer_poll\<close>, which
  answers a message, of which only the length is read, or null. The loop has no bound of its own.
\<close>

datatype poll_act = Len u64 | Commit

partial_function (option) poll_loop ::
  "('c \<Rightarrow> u64 option \<times> 'c) \<Rightarrow> nat \<Rightarrow> poll_act list \<Rightarrow> 'c \<Rightarrow> (poll_act list \<times> 'c) option" where
  "poll_loop poll msg_count acts c =
     (if msg_count < 20 then
        (case poll c of
           (Some len, c) \<Rightarrow>
             poll_loop poll (msg_count + 1)
               (if (msg_count + 1) mod 1000 = 0 then acts @ [Len len, Commit] else acts @ [Len len]) c
         | (None, c) \<Rightarrow> poll_loop poll msg_count acts c)
      else Some (acts, c))"

text \<open>The messages among the first \<open>n\<close> polls, and the state after them.\<close>

primrec polled :: "('c \<Rightarrow> u64 option \<times> 'c) \<Rightarrow> nat \<Rightarrow> 'c \<Rightarrow> u64 list \<times> 'c" where
  "polled poll 0 c = ([], c)"
| "polled poll (Suc n) c =
     (let (ms, c') = polled poll n (snd (poll c))
      in (case fst (poll c) of Some l \<Rightarrow> l # ms | None \<Rightarrow> ms, c'))"

lemma poll_loop_step:
  "poll_loop poll k acts c =
     (if k < 20 then
        poll_loop poll (case fst (poll c) of Some l \<Rightarrow> k + 1 | None \<Rightarrow> k)
          (case fst (poll c) of Some l \<Rightarrow> acts @ [Len l] | None \<Rightarrow> acts) (snd (poll c))
      else Some (acts, c))"
  by (subst poll_loop.simps) (simp add: split_beta split: option.split)

lemma poll_loop_enough:
  assumes "length (fst (polled poll n c)) + k = 20"
    and "\<forall>j < n. length (fst (polled poll j c)) + k < 20"
  shows "poll_loop poll k acts c =
    Some (acts @ map Len (fst (polled poll n c)), snd (polled poll n c))"
  using assms
proof (induction n arbitrary: k acts c)
  case 0
  then show ?case by (simp add: poll_loop_step)
next
  case (Suc n)
  let ?c = "snd (poll c)"
  let ?k = "case fst (poll c) of Some l \<Rightarrow> k + 1 | None \<Rightarrow> k"
  have "\<forall>j < n. length (fst (polled poll j ?c)) + ?k < 20"
  proof (intro allI impI)
    fix j assume "j < n"
    with Suc.prems(2) have "length (fst (polled poll (Suc j) c)) + k < 20" by blast
    then show "length (fst (polled poll j ?c)) + ?k < 20" by (auto simp: split_beta split: option.splits)
  qed
  moreover have "length (fst (polled poll n ?c)) + ?k = 20"
    using Suc.prems(1) by (auto simp: split_beta split: option.splits)
  ultimately have *: "poll_loop poll ?k a ?c =
      Some (a @ map Len (fst (polled poll n ?c)), snd (polled poll n ?c))" for a
    using Suc.IH by blast
  moreover have "k < 20" using Suc.prems(2) by (auto dest: spec [of _ 0])
  ultimately show ?case
    by (subst poll_loop_step) (simp add: split_beta split: option.split)
qed


lemma poll_loop_returned:
  assumes "poll_loop poll k acts c = Some r"
  shows "k \<le> 20 \<longrightarrow> (\<exists>n. length (fst (polled poll n c)) + k = 20)"
proof (rule poll_loop.raw_induct [where P =
    "\<lambda>poll k acts c r. k \<le> 20 \<longrightarrow> (\<exists>n. length (fst (polled poll n c)) + k = 20)", OF _ assms])
  fix f :: "('a \<Rightarrow> u64 option \<times> 'a) \<Rightarrow> nat \<Rightarrow> poll_act list \<Rightarrow> 'a \<Rightarrow> (poll_act list \<times> 'a) option"
    and poll k acts c r
  assume IH: "\<And>poll k acts c r. f poll k acts c = Some r \<Longrightarrow>
      k \<le> 20 \<longrightarrow> (\<exists>n. length (fst (polled poll n c)) + k = 20)"
    and run: "(if k < 20 then case poll c of
        (None, c) \<Rightarrow> f poll k acts c
      | (Some len, c) \<Rightarrow> f poll (k + 1)
          (if (k + 1) mod 1000 = 0 then acts @ [Len len, Commit] else acts @ [Len len]) c
      else Some (acts, c)) = Some r"
  show "k \<le> 20 \<longrightarrow> (\<exists>n. length (fst (polled poll n c)) + k = 20)"
  proof (cases "k < 20")
    case True
    let ?k = "case fst (poll c) of Some l \<Rightarrow> k + 1 | None \<Rightarrow> k"
    have "\<exists>a. f poll ?k a (snd (poll c)) = Some r"
      using run True by (auto simp: split_beta split: option.splits)
    with IH have "?k \<le> 20 \<longrightarrow> (\<exists>n. length (fst (polled poll n (snd (poll c)))) + ?k = 20)" by blast
    with True obtain n where "length (fst (polled poll n (snd (poll c)))) + ?k = 20"
      by (auto split: option.splits)
    then have "length (fst (polled poll (Suc n) c)) + k = 20"
      by (auto simp: split_beta split: option.splits)
    then show ?thesis by blast
  next
    case False
    then show ?thesis by (auto intro!: exI [of _ 0])
  qed
qed

lemma polled_hits:
  assumes "20 \<le> length (fst (polled poll n c)) + k" and "k \<le> 20"
  shows "\<exists>j. length (fst (polled poll j c)) + k = 20"
  using assms
proof (induction n arbitrary: c k)
  case 0
  then show ?case by (intro exI [of _ 0]) simp
next
  case (Suc n)
  show ?case
  proof (cases "k = 20")
    case False
    let ?k = "case fst (poll c) of Some l \<Rightarrow> k + 1 | None \<Rightarrow> k"
    have "20 \<le> length (fst (polled poll n (snd (poll c)))) + ?k" "?k \<le> 20"
      using Suc.prems False by (auto simp: split_beta split: option.splits)
    from Suc.IH [OF this] obtain j where "length (fst (polled poll j (snd (poll c)))) + ?k = 20" by blast
    then have "length (fst (polled poll (Suc j) c)) + k = 20"
      by (auto simp: split_beta split: option.splits)
    then show ?thesis by blast
  qed (intro exI [of _ 0], simp)
qed

lemma polled_mono: "length (fst (polled poll n c)) \<le> length (fst (polled poll (Suc n) c))"
proof (induction n arbitrary: c)
  case (Suc n)
  from Suc.IH [of "snd (poll c)"] show ?case by (auto simp: split_beta split: option.split)
qed simp

lemma polled_mono_le: "j \<le> n \<Longrightarrow> length (fst (polled poll j c)) \<le> length (fst (polled poll n c))"
  by (rule lift_Suc_mono_le [of "\<lambda>n. length (fst (polled poll n c))"]) (rule polled_mono)

text \<open>The program around the loop: its exit code, and what the loop did.\<close>

record ('g, 'c) rdkafka =
  host_name :: "string option"
  rd_conf_new :: 'g
  rd_conf_set :: "'g \<Rightarrow> string \<Rightarrow> string \<Rightarrow> ConfResult \<times> 'g"
  rd_kafka_new :: "'g \<Rightarrow> 'c option"
  rd_poll :: "'c \<Rightarrow> u64 option \<times> 'c"
  rd_close :: "'c \<Rightarrow> ErrorCode"

definition set_all_conf :: "('g, 'c) rdkafka \<Rightarrow> (string \<times> string) list \<Rightarrow> 'g option" where
  "set_all_conf api kvs =
     foldl (\<lambda>conf (k, v). case conf of None \<Rightarrow> None
       | Some c \<Rightarrow> (let (r, c) = rd_conf_set api c k v in if r = CONF_OK then Some c else None))
       (Some (rd_conf_new api)) kvs"

definition poll_main :: "('g, 'c) rdkafka \<Rightarrow> (int \<times> (poll_act list \<times> ErrorCode) option) option" where
  "poll_main api =
     (case host_name api of
        None \<Rightarrow> Some (1, None)
      | Some hostname \<Rightarrow>
          (case set_all_conf api [(''client.id'', hostname), (''group.id'', ''leon-cpp-test''),
              (''bootstrap.servers'', ''host1:9092,host2:9092'')] of
             None \<Rightarrow> Some (1, None)
           | Some conf \<Rightarrow>
               (case rd_kafka_new api conf of
                  None \<Rightarrow> Some (1, None)
                | Some rk \<Rightarrow>
                    (case poll_loop (rd_poll api) 0 [] rk of
                       None \<Rightarrow> None
                     | Some (acts, rk) \<Rightarrow> Some (0, Some (acts, rd_close api rk))))))"

text \<open>How a run of the first consumer may end.\<close>

definition outcome :: "('g, 't, 'c) kafka \<Rightarrow> (int \<times> globals) res \<Rightarrow> bool" where
  "outcome api r \<longleftrightarrow> (\<exists>code g. r = Inr (code, g) \<and>
    (if code = 0 then \<exists>n conf c\<^sub>0. n \<le> 12 \<and> consumer_create api conf = Inr c\<^sub>0 \<and>
      (let c = snd (consumer_subscribe api [''mt_predict_dump''] c\<^sub>0); h = hist (consumer_consume api) n c in
       (stopped h \<or> n = 12) \<and> (\<forall>k < n. \<not> stopped (hist (consumer_consume api) k c))
       \<and> last (out g) = Consumed_line (int (length (reals h))) (sum_list (map msg_len (reals h)))
       \<and> [l \<leftarrow> out g. is_Content_line l] = rev (map (\<lambda>m. Content_line (ucast (msg_len m))) (reals h)))
     else code = 1 \<and> msg_cnt g = 0 \<and> [l \<leftarrow> out g. is_Content_line l] = []))"

lemma or_exit_outcome:
  assumes "msg_cnt g = 0" and "[l \<leftarrow> out g. is_Content_line l] = []" and "\<And>x. outcome api (k x)"
  shows "outcome api (or_exit r g k)"
  using assms by (auto simp: or_exit_def split_beta Let_def outcome_def)

lemma consumer_mode_outcome:
  assumes "tracks g []" and "run g" and "\<And>c. named (hist (consumer_consume api) 12 c) < 2147483648"
  shows "outcome api (consumer_mode api [''mt_predict_dump''] conf g)"
proof (cases "consumer_create api conf")
  case (Inl e)
  with assms(1) show ?thesis by (simp add: consumer_mode_def tracks_def outcome_def)
next
  case (Inr c)
  let ?g = "print_line (Created (consumer_name api c)) g" and ?s = "consumer_subscribe api [''mt_predict_dump''] c"
  have g: "tracks ?g [] \<and> (run ?g \<longleftrightarrow> (0 :: nat) < 12 \<and> \<not> stopped [])" using assms(1,2) by (simp add: tracks_def)
  from consume_loop_tracks [OF g, of "consumer_consume api" "snd ?s"] assms(3) obtain n g' c' where
    l: "consume_loop (consumer_consume api) 0 ?g (snd ?s) = Inr (g', c')" "n \<le> 12"
    "tracks g' (hist (consumer_consume api) n (snd ?s))" "stopped (hist (consumer_consume api) n (snd ?s)) \<or> n = 12"
    "\<forall>k < n. \<not> stopped (hist (consumer_consume api) k (snd ?s))" by auto
  show ?thesis
  proof (cases "fst ?s = ERR_NO_ERROR")
    case True
    with Inr l have "consumer_mode api [''mt_predict_dump''] conf g
        = Inr (0, print_line (Consumed_line (msg_cnt g') (msg_bytes g')) g')"
      by (simp add: consumer_mode_def split_beta Let_def)
    with l show ?thesis
      unfolding outcome_def Let_def
      using Inr by (auto simp: tracks_def intro!: exI [of _ n] exI [of _ conf] exI [of _ c])
  next
    case False
    with Inr g show ?thesis
      by (simp add: consumer_mode_def split_beta Let_def outcome_def tracks_def)
  qed
qed

lemma kafka_main_outcome:
  assumes "\<And>c. named (hist (consumer_consume api) 12 c) < 2147483648"
  shows "outcome api (kafka_main api)"
proof -
  have not_mod: "outcome api (Inr (1, print_line (Not_modified st) g))"
    if "msg_cnt g = 0" "[l \<leftarrow> out g. is_Content_line l] = []" for st g
    using that by (simp add: outcome_def)
  let ?g = "print_line Hello globals_init\<lparr>exit_eof := True\<rparr>"
  have "tracks (?g\<lparr>verbosity := verbosity ?g + 1\<rparr>) []" "run (?g\<lparr>verbosity := verbosity ?g + 1\<rparr>)"
    by (simp_all add: tracks_def globals_init_def)
  note mode = consumer_mode_outcome [OF this assms]
  note init = globals_init_def
  show ?thesis
    unfolding kafka_main_def Let_def split_beta
    apply (rule or_exit_outcome, simp add: init, simp add: init)+
    apply (split if_split, intro conjI impI)
     apply (rule not_mod, simp add: init, simp add: init)
    apply (rule or_exit_outcome, simp add: init, simp add: init)
    apply (rule mode)
    done
qed

section \<open>Properties\<close>

text \<open>
  C36. The Kafka consumer always ends: it exits with code 1 having read nothing, or with code 0 after
  at most twelve reads, and it stops right after the first read by which it was signalled, a message
  failed, or as many ends of partitions were seen since the last rebalance as partitions are assigned.
  The totals it prints are the number and the byte count of the real messages read, and it reports
  the length of each in order. (Provided the partitions named while it runs do not exceed an \<open>int\<close>.)
\<close>

theorem consumer_stops_and_counts:
  assumes "\<And>c. named (hist (consumer_consume api) 12 c) < 2147483648"
  shows "\<exists>code g. kafka_main api = Inr (code, g) \<and>
    (if code = 0 then \<exists>n conf c\<^sub>0. n \<le> 12 \<and> consumer_create api conf = Inr c\<^sub>0 \<and>
      (let c = snd (consumer_subscribe api [''mt_predict_dump''] c\<^sub>0); h = hist (consumer_consume api) n c in
       (stopped h \<or> n = 12) \<and> (\<forall>k < n. \<not> stopped (hist (consumer_consume api) k c))
       \<and> last (out g) = Consumed_line (int (length (reals h))) (sum_list (map msg_len (reals h)))
       \<and> [l \<leftarrow> out g. is_Content_line l] = rev (map (\<lambda>m. Content_line (ucast (msg_len m))) (reals h)))
     else code = 1 \<and> msg_cnt g = 0 \<and> [l \<leftarrow> out g. is_Content_line l] = [])"
  using kafka_main_outcome [of api] assms unfolding outcome_def by simp

text \<open>
  A run for the witness: two partitions are assigned, one message of five bytes is read, then two ends
  of a partition.
\<close>

definition ex_consume :: "nat \<Rightarrow> (callback list \<times> Message) \<times> nat" where
  "ex_consume c =
     ((if c = 0 then [Rebalance ERR__ASSIGN_PARTITIONS [(''mt_predict_dump'', 0), (''mt_predict_dump'', 1)] ERR_NO_ERROR]
       else [],
       \<lparr>msg_err = if c = 0 then ERR_NO_ERROR else ERR__PARTITION_EOF, msg_errstr = [], msg_len = 5,
         msg_offset = 0, msg_key = None, msg_ts = (MSG_TIMESTAMP_NOT_AVAILABLE, 0)\<rparr>), c + 1)"

definition ex_kafka :: "(unit, unit, nat) kafka" where
  "ex_kafka = \<lparr>conf_new = (), tconf_new = (), conf_set = \<lambda>k v c. (CONF_OK, [], c),
     tconf_set = \<lambda>k v c. (CONF_OK, [], c), conf_get = \<lambda>k c. (CONF_OK, ''range''),
     consumer_create = \<lambda>c. Inr 0, consumer_name = \<lambda>c. ''rdkafka#consumer-1'',
     consumer_subscribe = \<lambda>ts c. (ERR_NO_ERROR, c), consumer_consume = ex_consume\<rparr>"

lemma ex_kafka_run:
  "map_sum id fst (kafka_main ex_kafka) = Inr 0"
  by code_simp

lemma ex_named: "named (hist ex_consume n c) \<le> 2 * n"
proof (induction n arbitrary: c)
  case (Suc n)
  have "named (occs (fst (ex_consume c))) \<le> 2" by (simp add: ex_consume_def occs_def)
  with Suc [of "snd (ex_consume c)"] show ?case by simp
qed simp

theorem consumer_stops_and_counts_witness:
  "\<exists>g n. kafka_main ex_kafka = Inr (0, g) \<and> n \<le> 12 \<and> (let h = hist ex_consume n 0 in
     (stopped h \<or> n = 12) \<and> last (out g) = Consumed_line (int (length (reals h))) (sum_list (map msg_len (reals h))))"
proof -
  have "named (hist (consumer_consume ex_kafka) 12 c) < 2147483648" for c
    using ex_named [of 12 c] by (simp add: ex_kafka_def)
  note run = consumer_stops_and_counts [OF this]
  have api: "consumer_consume ex_kafka = ex_consume" "snd (consumer_subscribe ex_kafka ts c) = c"
    "consumer_create ex_kafka conf = Inr c \<longleftrightarrow> c = 0" for ts conf and c :: nat
    by (auto simp: ex_kafka_def)
  from run obtain code g where g: "kafka_main ex_kafka = Inr (code, g)"
    and rest: "code = 0 \<longrightarrow> (\<exists>n. n \<le> 12 \<and> (let h = hist ex_consume n 0 in
     (stopped h \<or> n = 12) \<and> last (out g) = Consumed_line (int (length (reals h))) (sum_list (map msg_len (reals h)))))"
    unfolding api Let_def by (metis (no_types, lifting))
  have "code = 0" using ex_kafka_run by (simp add: g)
  with g rest show ?thesis by simp
qed

text \<open>
  C37. The polling consumer returns exactly when twenty messages arrive, however many polls come back
  empty in between; it then has reported the lengths of exactly the first twenty, in order, and has
  committed no offset. Otherwise it never returns.
\<close>

theorem poll_loop_first_twenty:
  "poll_loop poll 0 [] c =
     (if \<exists>n. 20 \<le> length (fst (polled poll n c)) then
        (let n = LEAST n. length (fst (polled poll n c)) = 20
         in Some (map Len (fst (polled poll n c)), snd (polled poll n c)))
      else None)"
proof (cases "\<exists>n. 20 \<le> length (fst (polled poll n c))")
  case True
  let ?n = "LEAST n. length (fst (polled poll n c)) = 20"
  from True polled_hits [of poll _ c 0] have "\<exists>n. length (fst (polled poll n c)) = 20" by auto
  then have n: "length (fst (polled poll ?n c)) = 20" by (rule LeastI_ex)
  have "length (fst (polled poll j c)) < 20" if "j < ?n" for j
    using polled_mono_le [of j ?n poll c] not_less_Least [OF that] that n by simp
  with n poll_loop_enough [of poll ?n c 0 "[]"] True show ?thesis by (simp add: Let_def)
next
  case False
  have "poll_loop poll 0 [] c = None"
  proof (rule ccontr)
    assume "poll_loop poll 0 [] c \<noteq> None"
    with poll_loop_returned [of poll 0 "[]" c] obtain n where "length (fst (polled poll n c)) = 20"
      by auto
    with False show False by (metis order_refl)
  qed
  with False show ?thesis by simp
qed

end
