(* ===== verification/HdfsRead.thy ===== *)
theory HdfsRead
  imports Prelude
begin

text \<open>
  The HDFS reader of test-debug/hdfs-test/hdfs-test.cpp: connect, open, read a file into a string in
  blocks of four mebibytes, close. Arrow's file system is a parameter; \<open>hd_read n f\<close> is what \<open>Read\<close>
  puts into the buffer, at most \<open>n\<close> bytes but possibly fewer, or none for an error.
\<close>

section \<open>The code\<close>

record ('s, 'f) hdfs_api =
  hd_connect :: "string \<Rightarrow> int \<Rightarrow> string \<Rightarrow> (string \<times> string) list \<Rightarrow> bool \<times> 's option"
  hd_open :: "string \<Rightarrow> 's \<Rightarrow> bool \<times> 'f option"
  hd_size :: "'f \<Rightarrow> i64 option"
  hd_read :: "int \<Rightarrow> 'f \<Rightarrow> (bytes \<times> 'f) option"
  hd_close :: "'f \<Rightarrow> bool"

text \<open>What the program prints: whether each call succeeded, and whether it read to the end.\<close>

datatype hdfs_line = Connect_ret bool | Open_ret bool | Pos_size bool | Close_ret bool

definition s_block_size :: int where
  "s_block_size = 4 * 1024 * 1024"

text \<open>Bytes stored through a pointer into the string's own memory.\<close>

definition store_at :: "int \<Rightarrow> bytes \<Rightarrow> bytes \<Rightarrow> bytes res" where
  "store_at pos bs ret =
     (if 0 \<le> pos \<and> pos + int (length bs) \<le> int (length ret)
      then Inr (take (nat pos) ret @ bs @ drop (nat pos + length bs) ret) else Inl OutOfRange)"

text \<open>
  The loop. The number of bytes \<open>Read\<close> answers is dropped, and \<open>pos\<close> moves by what was asked for.
  \<open>ValueOrDie\<close> of an error ends the process.
\<close>

function read_loop ::
  "('s, 'f) hdfs_api \<Rightarrow> int \<Rightarrow> int \<Rightarrow> bytes \<Rightarrow> 'f \<Rightarrow> (int \<times> bytes \<times> 'f) res" where
  "read_loop api sz pos ret fd =
     (if pos < sz then
        let read_size = min s_block_size (sz - pos)
        in (case hd_read api read_size fd of
              None \<Rightarrow> Inl Terminate
            | Some (bs, fd) \<Rightarrow> res_bind (store_at pos bs ret) (\<lambda>ret. read_loop api sz (pos + read_size) ret fd))
      else Inr (pos, ret, fd))"
  by pat_completeness auto
termination
  by (relation "measure (\<lambda>(api, sz, pos, ret, fd). nat (sz - pos))") (auto simp: s_block_size_def)

declare read_loop.simps [simp del]

text \<open>\<open>resize\<close> fills with NUL bytes; a negative size, as an unsigned number, is too long for it.\<close>

definition hdfs_main :: "('s, 'f) hdfs_api \<Rightarrow> (bytes \<times> hdfs_line list) res" where
  "hdfs_main api =
     (let (ok, fs) = hd_connect api ''hdfs://inner-di-hdfs.1sapp.com'' 8020 ''algobase''
            [(''dfs.client.socket-timeout'', ''120000'')]
      in case fs of
           None \<Rightarrow> Inl NullDeref
         | Some file_system \<Rightarrow>
             let (ok1, fd) = hd_open api
                   (''hdfs://inner-di-hdfs.1sapp.com:8020/innodata/user/tanhuabin/''
                    @ ''midu_jsb_online/assemble-ctr-v1c/serving/nn_donefile.txt'') file_system
             in case fd of
                  None \<Rightarrow> Inl NullDeref
                | Some hdfs_fd \<Rightarrow>
                    (case hd_size api hdfs_fd of
                       None \<Rightarrow> Inl Terminate
                     | Some sz \<Rightarrow>
                         if sint sz < 0 then Inl Terminate
                         else
                           res_bind (read_loop api (sint sz) 0 (replicate (nat (sint sz)) 0) hdfs_fd)
                             (\<lambda>(pos, ret, fd).
                               Inr (ret, [Connect_ret ok, Open_ret ok1, Pos_size (pos = sint sz),
                                 Close_ret (hd_close api fd)]))))"

section \<open>The blocks a file comes in\<close>

text \<open>Each block as it lands in the string: what was read, then the NUL bytes that were there.\<close>

function blocks :: "('s, 'f) hdfs_api \<Rightarrow> int \<Rightarrow> 'f \<Rightarrow> bytes list res" where
  "blocks api left fd =
     (if 0 < left then
        let n = min s_block_size left
        in (case hd_read api n fd of
              None \<Rightarrow> Inl Terminate
            | Some (bs, fd) \<Rightarrow> res_bind (blocks api (left - n) fd) (\<lambda>rest.
                Inr ((bs @ replicate (nat n - length bs) 0) # rest)))
      else Inr [])"
  by pat_completeness auto
termination
  by (relation "measure (\<lambda>(api, left, fd). nat left)") (auto simp: s_block_size_def)

declare blocks.simps [simp del]

text \<open>The contract of \<open>Read\<close>: never more than it was asked for.\<close>

lemma store_zeros:
  assumes "0 \<le> pos" and "int (length bs) \<le> n" and "pos + n \<le> sz" and "int (length got) = pos"
  shows "store_at pos bs (got @ replicate (nat (sz - pos)) 0)
    = Inr ((got @ bs @ replicate (nat n - length bs) 0) @ replicate (nat (sz - (pos + n))) 0)"
proof -
  have "nat (sz - pos) + length got - (nat pos + length bs) = (nat n - length bs) + nat (sz - (pos + n))"
    using assms by linarith
  then show ?thesis using assms by (simp add: store_at_def flip: replicate_add)
qed

lemma read_loop_blocks:
  assumes "\<And>n f bs f'. 0 < n \<Longrightarrow> hd_read api n f = Some (bs, f') \<Longrightarrow> int (length bs) \<le> n"
  shows "int (length got) = pos \<Longrightarrow> pos \<le> sz \<Longrightarrow>
    map_sum id (\<lambda>(p, r, f). (p, r)) (read_loop api sz pos (got @ replicate (nat (sz - pos)) 0) fd)
      = map_sum id (\<lambda>bs. (sz, got @ concat bs)) (blocks api (sz - pos) fd)"
proof (induction "nat (sz - pos)" arbitrary: pos got fd rule: less_induct)
  case less
  show ?case
  proof (cases "pos < sz")
    case True
    define n where "n = min s_block_size (sz - pos)"
    have n: "0 < n" "pos + n \<le> sz" using True by (auto simp: n_def s_block_size_def)
    show ?thesis
    proof (cases "hd_read api n fd")
      case None
      with True show ?thesis by (simp add: read_loop.simps blocks.simps [of api "sz - pos"] flip: n_def)
    next
      case (Some r)
      obtain bs fd' where r: "r = (bs, fd')" by (cases r)
      have b: "int (length bs) \<le> n" using assms [OF n(1)] Some r by simp
      let ?got = "got @ bs @ replicate (nat n - length bs) 0"
      have st: "store_at pos bs (got @ replicate (nat (sz - pos)) 0)
          = Inr (?got @ replicate (nat (sz - (pos + n))) 0)"
        by (rule store_zeros) (use less.prems b n in simp_all)
      have left: "sz - pos - n = sz - (pos + n)" by simp
      have "int (length ?got) = pos + n" using b n less.prems(1) by (simp add: nat_diff_distrib)
      moreover have "nat (sz - (pos + n)) < nat (sz - pos)" using n True by simp
      ultimately have "map_sum id (\<lambda>(p, r, f). (p, r)) (read_loop api sz (pos + n)
          (?got @ replicate (nat (sz - (pos + n))) 0) fd')
        = map_sum id (\<lambda>bs. (sz, ?got @ concat bs)) (blocks api (sz - (pos + n)) fd')"
        using less.hyps n by blast
      then show ?thesis
        using True Some r st
        by (subst read_loop.simps, subst blocks.simps)
          (cases "blocks api (sz - (pos + n)) fd'", simp_all add: Let_def left flip: n_def)
    qed
  qed (use less.prems in \<open>simp add: read_loop.simps blocks.simps\<close>)
qed

text \<open>A file that is read in full at each call comes out as it is.\<close>

lemma blocks_full:
  assumes "\<And>n k. hd_read api n k = Some (take (nat n) (drop k content), k + nat n)"
  shows "k \<le> length content \<Longrightarrow> \<exists>bss. blocks api (int (length content - k)) k = Inr bss \<and> concat bss = drop k content"
proof (induction "length content - k" arbitrary: k rule: less_induct)
  case less
  show ?case
  proof (cases "k < length content")
    case True
    define left where "left = int (length content - k)"
    define n where "n = min s_block_size left"
    have n: "0 < n" "0 < left" "nat n \<le> length content - k"
      using True by (auto simp: n_def left_def s_block_size_def)
    then have "left - n = int (length content - (k + nat n))" by (simp add: left_def)
    moreover have "length content - (k + nat n) < length content - k" "k + nat n \<le> length content"
      using n True by linarith+
    ultimately obtain bss where bss: "blocks api (left - n) (k + nat n) = Inr bss"
      "concat bss = drop (k + nat n) content" using less.hyps by metis
    have "take (nat n) (drop k content) @ drop (k + nat n) content = drop k content"
      by (metis append_take_drop_id drop_drop add.commute)
    moreover have "length (take (nat n) (drop k content)) = nat n" using n(3) by simp
    moreover have "blocks api left k = Inr ((take (nat n) (drop k content)
        @ replicate (nat n - length (take (nat n) (drop k content))) 0) # bss)"
      using n(2) bss(1) assms [of n k] by (subst blocks.simps) (simp flip: n_def)
    ultimately show ?thesis using bss(2) unfolding left_def by simp
  qed (simp add: blocks.simps)
qed

section \<open>Properties\<close>

text \<open>
  C40. Reading the file never writes outside the string and always ends with every position passed: the
  string is the blocks one after another, where a block that \<open>Read\<close> answered short keeps NUL bytes
  in place of what is missing (no further read asks for it). It dies exactly when some read fails.
\<close>

theorem hdfs_reads_blocks:
  assumes "\<And>n f bs f'. 0 < n \<Longrightarrow> hd_read api n f = Some (bs, f') \<Longrightarrow> int (length bs) \<le> n"
    and "hd_connect api ''hdfs://inner-di-hdfs.1sapp.com'' 8020 ''algobase''
      [(''dfs.client.socket-timeout'', ''120000'')] = (True, Some fs)"
    and "hd_open api (''hdfs://inner-di-hdfs.1sapp.com:8020/innodata/user/tanhuabin/''
      @ ''midu_jsb_online/assemble-ctr-v1c/serving/nn_donefile.txt'') fs = (True, Some fd)"
    and "hd_size api fd = Some sz" and "0 \<le> sint sz"
  shows "map_sum id (\<lambda>(ret, out). (ret, take 3 out)) (hdfs_main api)
    = map_sum id (\<lambda>bs. (concat bs, [Connect_ret True, Open_ret True, Pos_size True])) (blocks api (sint sz) fd)"
proof -
  from read_loop_blocks [of api "[]" 0 "sint sz" fd] assms(1,5)
  have "map_sum id (\<lambda>(p, r, f). (p, r)) (read_loop api (sint sz) 0 (replicate (nat (sint sz)) 0) fd)
      = map_sum id (\<lambda>bs. (sint sz, concat bs)) (blocks api (sint sz) fd)" by simp
  with assms show ?thesis
    by (cases "read_loop api (sint sz) 0 (replicate (nat (sint sz)) 0) fd"; cases "blocks api (sint sz) fd")
      (auto simp: hdfs_main_def)
qed

text \<open>A file of three bytes whose only read answers two: the third stays NUL.\<close>

definition ex_hdfs :: "(unit, nat) hdfs_api" where
  "ex_hdfs = \<lparr>hd_connect = \<lambda>h p u x. (True, Some ()), hd_open = \<lambda>path fs. (True, Some 0),
     hd_size = \<lambda>f. Some 3, hd_read = \<lambda>n f. Some (take (nat (min n 2)) (drop f [7, 8, 9]), f + 2),
     hd_close = \<lambda>f. True\<rparr>"

theorem hdfs_reads_blocks_witness:
  "map_sum id (\<lambda>(ret, out). (ret, take 3 out)) (hdfs_main ex_hdfs)
    = Inr ([7, 8, 0], [Connect_ret True, Open_ret True, Pos_size True])"
proof (subst hdfs_reads_blocks [of ex_hdfs "()" 0 3])
  show "int (length bs) \<le> n" if "0 < n" "hd_read ex_hdfs n f = Some (bs, f')" for n f bs f'
    using that by (auto simp: ex_hdfs_def)
  have "blocks ex_hdfs 3 0 = Inr [[7, 8, 0]]"
    by (simp add: blocks.simps [of _ 3] blocks.simps [of _ 0] ex_hdfs_def s_block_size_def)
  then show "map_sum id (\<lambda>bs. (concat bs, [Connect_ret True, Open_ret True, Pos_size True]))
      (blocks ex_hdfs (sint (3 :: i64)) 0) = Inr ([7, 8, 0], [Connect_ret True, Open_ret True, Pos_size True])"
    by simp
qed (simp_all add: ex_hdfs_def)

end
