(* ===== verification/HelloMsgs.thy ===== *)
theory HelloMsgs
  imports WireRef
begin

text \<open>
  The messages of the greeter (test-debug/rpc-test/pbdata/hello.pb.cc and .pb.h): \<open>HelloRequest\<close>, a name,
  and \<open>HelloReply\<close>, a text, each one UTF-8 string. The generated code has the shape of the feature server's
  messages and the same runtime.
\<close>

section \<open>HelloRequest\<close>

record 'u HelloRequest = "'u Message" +
  HelloRequest_name :: bytes

definition HelloRequest_SharedCtor :: "'u HelloRequest" where
  "HelloRequest_SharedCtor = \<lparr>internal_metadata = [], cached_size = 0, HelloRequest_name = []\<rparr>"

definition HelloRequest_copy :: "'u HelloRequest \<Rightarrow> 'u HelloRequest" where
  "HelloRequest_copy from =
     (let m = HelloRequest_SharedCtor\<lparr>internal_metadata := internal_metadata from\<rparr>
      in if HelloRequest_name from \<noteq> [] then m\<lparr>HelloRequest_name := HelloRequest_name from\<rparr> else m)"

definition HelloRequest_set_name :: "bytes \<Rightarrow> 'u HelloRequest \<Rightarrow> 'u HelloRequest" where
  "HelloRequest_set_name v m = m\<lparr>HelloRequest_name := v\<rparr>"

definition HelloRequest_set_name_cstr :: "bytes \<Rightarrow> 'u HelloRequest \<Rightarrow> 'u HelloRequest" where
  "HelloRequest_set_name_cstr v m = m\<lparr>HelloRequest_name := c_str v\<rparr>"

definition HelloRequest_clear_name :: "'u HelloRequest \<Rightarrow> 'u HelloRequest" where
  "HelloRequest_clear_name m = m\<lparr>HelloRequest_name := []\<rparr>"

definition HelloRequest_Clear :: "'u HelloRequest \<Rightarrow> 'u HelloRequest" where
  "HelloRequest_Clear m = m\<lparr>HelloRequest_name := [], internal_metadata := []\<rparr>"

definition HelloRequest_parse_field :: "('u, 's) wire_rt \<Rightarrow> 'u HelloRequest field_parser" where
  "HelloRequest_parse_field rt tag ptr m =
     (if drop_bit 3 tag = 1 then
        (if (ucast tag :: u8) = 10 then
           (case InlineGreedyStringParser rt ptr of
              (s, p) \<Rightarrow> Some (Handled (m\<lparr>HelloRequest_name := s\<rparr>) (if VerifyUTF8 rt s then p else None)))
         else Some Unusual)
      else Some Unusual)"

definition HelloRequest_InternalParse ::
  "('u, 's) wire_rt \<Rightarrow> 'u HelloRequest \<Rightarrow> bytes \<Rightarrow> ('u HelloRequest \<times> parse_end) option" where
  "HelloRequest_InternalParse rt m ptr = parse_loop rt (HelloRequest_parse_field rt) m ptr"

definition HelloRequest_InternalSerialize :: "('u, 's) wire_rt \<Rightarrow> 'u HelloRequest \<Rightarrow> bytes" where
  "HelloRequest_InternalSerialize rt m =
     (if length (HelloRequest_name m) > 0 then WriteString rt 1 (HelloRequest_name m) else []) @
     (if have_unknown_fields m
      then InternalSerializeUnknownFields rt (internal_metadata m) else [])"

definition HelloRequest_ByteSizeLong :: "('u, 's) wire_rt \<Rightarrow> 'u HelloRequest \<Rightarrow> nat \<times> 'u HelloRequest" where
  "HelloRequest_ByteSizeLong rt m =
     (let total_size = 0;
          total_size = (if length (HelloRequest_name m) > 0
                        then total_size + 1 + StringSize rt (HelloRequest_name m) else total_size);
          total_size = (if have_unknown_fields m
                        then total_size + UnknownFieldsSize rt (internal_metadata m)
                        else total_size)
      in (total_size, m\<lparr>cached_size := ToCachedSize total_size\<rparr>))"

definition HelloRequest_MergeFrom :: "'u HelloRequest \<Rightarrow> 'u HelloRequest \<Rightarrow> 'u HelloRequest" where
  "HelloRequest_MergeFrom m from =
     (let m = m\<lparr>internal_metadata := internal_metadata m @ internal_metadata from\<rparr>
      in if length (HelloRequest_name from) > 0 then m\<lparr>HelloRequest_name := HelloRequest_name from\<rparr> else m)"

definition HelloRequest_CopyFrom :: "bool \<Rightarrow> 'u HelloRequest \<Rightarrow> 'u HelloRequest \<Rightarrow> 'u HelloRequest" where
  "HelloRequest_CopyFrom same m from = (if same then m else HelloRequest_MergeFrom (HelloRequest_Clear m) from)"

definition HelloRequest_InternalSwap :: "'u HelloRequest \<Rightarrow> 'u HelloRequest \<Rightarrow> 'u HelloRequest \<times> 'u HelloRequest" where
  "HelloRequest_InternalSwap m other =
     (m\<lparr>internal_metadata := internal_metadata other, HelloRequest_name := HelloRequest_name other\<rparr>,
      other\<lparr>internal_metadata := internal_metadata m, HelloRequest_name := HelloRequest_name m\<rparr>)"

section \<open>HelloReply\<close>

record 'u HelloReply = "'u Message" +
  HelloReply_message :: bytes

definition HelloReply_SharedCtor :: "'u HelloReply" where
  "HelloReply_SharedCtor = \<lparr>internal_metadata = [], cached_size = 0, HelloReply_message = []\<rparr>"

definition HelloReply_copy :: "'u HelloReply \<Rightarrow> 'u HelloReply" where
  "HelloReply_copy from =
     (let m = HelloReply_SharedCtor\<lparr>internal_metadata := internal_metadata from\<rparr>
      in if HelloReply_message from \<noteq> [] then m\<lparr>HelloReply_message := HelloReply_message from\<rparr> else m)"

definition HelloReply_set_message :: "bytes \<Rightarrow> 'u HelloReply \<Rightarrow> 'u HelloReply" where
  "HelloReply_set_message v m = m\<lparr>HelloReply_message := v\<rparr>"

definition HelloReply_set_message_cstr :: "bytes \<Rightarrow> 'u HelloReply \<Rightarrow> 'u HelloReply" where
  "HelloReply_set_message_cstr v m = m\<lparr>HelloReply_message := c_str v\<rparr>"

definition HelloReply_clear_message :: "'u HelloReply \<Rightarrow> 'u HelloReply" where
  "HelloReply_clear_message m = m\<lparr>HelloReply_message := []\<rparr>"

definition HelloReply_Clear :: "'u HelloReply \<Rightarrow> 'u HelloReply" where
  "HelloReply_Clear m = m\<lparr>HelloReply_message := [], internal_metadata := []\<rparr>"

definition HelloReply_parse_field :: "('u, 's) wire_rt \<Rightarrow> 'u HelloReply field_parser" where
  "HelloReply_parse_field rt tag ptr m =
     (if drop_bit 3 tag = 1 then
        (if (ucast tag :: u8) = 10 then
           (case InlineGreedyStringParser rt ptr of
              (s, p) \<Rightarrow> Some (Handled (m\<lparr>HelloReply_message := s\<rparr>) (if VerifyUTF8 rt s then p else None)))
         else Some Unusual)
      else Some Unusual)"

definition HelloReply_InternalParse ::
  "('u, 's) wire_rt \<Rightarrow> 'u HelloReply \<Rightarrow> bytes \<Rightarrow> ('u HelloReply \<times> parse_end) option" where
  "HelloReply_InternalParse rt m ptr = parse_loop rt (HelloReply_parse_field rt) m ptr"

definition HelloReply_InternalSerialize :: "('u, 's) wire_rt \<Rightarrow> 'u HelloReply \<Rightarrow> bytes" where
  "HelloReply_InternalSerialize rt m =
     (if length (HelloReply_message m) > 0 then WriteString rt 1 (HelloReply_message m) else []) @
     (if have_unknown_fields m
      then InternalSerializeUnknownFields rt (internal_metadata m) else [])"

definition HelloReply_ByteSizeLong :: "('u, 's) wire_rt \<Rightarrow> 'u HelloReply \<Rightarrow> nat \<times> 'u HelloReply" where
  "HelloReply_ByteSizeLong rt m =
     (let total_size = 0;
          total_size = (if length (HelloReply_message m) > 0
                        then total_size + 1 + StringSize rt (HelloReply_message m) else total_size);
          total_size = (if have_unknown_fields m
                        then total_size + UnknownFieldsSize rt (internal_metadata m)
                        else total_size)
      in (total_size, m\<lparr>cached_size := ToCachedSize total_size\<rparr>))"

definition HelloReply_MergeFrom :: "'u HelloReply \<Rightarrow> 'u HelloReply \<Rightarrow> 'u HelloReply" where
  "HelloReply_MergeFrom m from =
     (let m = m\<lparr>internal_metadata := internal_metadata m @ internal_metadata from\<rparr>
      in if length (HelloReply_message from) > 0 then m\<lparr>HelloReply_message := HelloReply_message from\<rparr> else m)"

definition HelloReply_CopyFrom :: "bool \<Rightarrow> 'u HelloReply \<Rightarrow> 'u HelloReply \<Rightarrow> 'u HelloReply" where
  "HelloReply_CopyFrom same m from = (if same then m else HelloReply_MergeFrom (HelloReply_Clear m) from)"

definition HelloReply_InternalSwap :: "'u HelloReply \<Rightarrow> 'u HelloReply \<Rightarrow> 'u HelloReply \<times> 'u HelloReply" where
  "HelloReply_InternalSwap m other =
     (m\<lparr>internal_metadata := internal_metadata other, HelloReply_message := HelloReply_message other\<rparr>,
      other\<lparr>internal_metadata := internal_metadata m, HelloReply_message := HelloReply_message m\<rparr>)"

section \<open>Over a conforming runtime\<close>

text \<open>
  A message whose one string is field 1: what was written reads back when it is valid UTF-8, and stops the
  parse at a null pointer when it is not.
\<close>

context wire_runtime
begin

lemma string_field_written:
  "WriteString rt (Suc 0) s = 10 # varint (of_nat (length s)) @ s"
  by (simp add: write_string tag_bytes)

lemma string_field_read:
  assumes "length s < wire_max"
    and "\<And>p m. fld 10 p m = (case InlineGreedyStringParser rt p of
      (s, q) \<Rightarrow> Some (Handled (upd s m) (if VerifyUTF8 rt s then q else None)))"
  shows "parse_loop rt fld m (10 # varint (of_nat (length s)) @ s) =
    Some (upd s m, if VerifyUTF8 rt s then AtLimit else NullPtr)"
  using read_string [OF assms(1), of "[]"]
  by (subst parse_loop.simps) (simp add: read_tags assms(2))

lemma HelloRequest_serialized:
  assumes "\<not> have_unknown_fields a" and "length (HelloRequest_name a) < wire_max"
  shows "HelloRequest_InternalParse rt HelloRequest_SharedCtor (HelloRequest_InternalSerialize rt (snd (HelloRequest_ByteSizeLong rt a))) =
    Some (HelloRequest_SharedCtor\<lparr>HelloRequest_name := HelloRequest_name a\<rparr>, if VerifyUTF8 rt (HelloRequest_name a) then AtLimit else NullPtr)"
  using assms empty_is_utf8
    string_field_read [OF assms(2), of "HelloRequest_parse_field rt" "\<lambda>s m. m\<lparr>HelloRequest_name := s\<rparr>" HelloRequest_SharedCtor]
  by (simp add: HelloRequest_InternalParse_def HelloRequest_InternalSerialize_def HelloRequest_ByteSizeLong_def HelloRequest_parse_field_def
      HelloRequest_SharedCtor_def have_unknown_fields_def string_field_written Let_def)

lemma HelloRequest_size:
  "\<not> have_unknown_fields a \<Longrightarrow> fst (HelloRequest_ByteSizeLong rt a) = length (HelloRequest_InternalSerialize rt a)"
  by (simp add: HelloRequest_ByteSizeLong_def HelloRequest_InternalSerialize_def string_field_written sizes)

lemma HelloRequest_parse_returns: "HelloRequest_InternalParse rt m ptr \<noteq> None"
  unfolding HelloRequest_InternalParse_def
  by (rule parse_loop_returns)
    (auto simp: HelloRequest_parse_field_def dest: string_no_gain split: if_splits prod.splits)

lemma HelloReply_serialized:
  assumes "\<not> have_unknown_fields a" and "length (HelloReply_message a) < wire_max"
  shows "HelloReply_InternalParse rt HelloReply_SharedCtor (HelloReply_InternalSerialize rt (snd (HelloReply_ByteSizeLong rt a))) =
    Some (HelloReply_SharedCtor\<lparr>HelloReply_message := HelloReply_message a\<rparr>, if VerifyUTF8 rt (HelloReply_message a) then AtLimit else NullPtr)"
  using assms empty_is_utf8
    string_field_read [OF assms(2), of "HelloReply_parse_field rt" "\<lambda>s m. m\<lparr>HelloReply_message := s\<rparr>" HelloReply_SharedCtor]
  by (simp add: HelloReply_InternalParse_def HelloReply_InternalSerialize_def HelloReply_ByteSizeLong_def HelloReply_parse_field_def
      HelloReply_SharedCtor_def have_unknown_fields_def string_field_written Let_def)

lemma HelloReply_size:
  "\<not> have_unknown_fields a \<Longrightarrow> fst (HelloReply_ByteSizeLong rt a) = length (HelloReply_InternalSerialize rt a)"
  by (simp add: HelloReply_ByteSizeLong_def HelloReply_InternalSerialize_def string_field_written sizes)

lemma HelloReply_parse_returns: "HelloReply_InternalParse rt m ptr \<noteq> None"
  unfolding HelloReply_InternalParse_def
  by (rule parse_loop_returns)
    (auto simp: HelloReply_parse_field_def dest: string_no_gain split: if_splits prod.splits)

end

end
