(* ===== verification/Greeter.thy ===== *)
theory Greeter
  imports ServerMain HelloMsgs
begin

text \<open>
  The gRPC greeter of test-debug/rpc-test (and its copy in test-1/bazel-test), the \<open>Puller\<close> service of
  feature-server/service/Grpcser.h, and the start of the greeter's server there and in
  feature-server/main.cpp. The library's call is a parameter of the generated stub (hello.grpc.pb.cc): it
  either fails with a status of its own or carries the serialised messages to the service and back.
\<close>

section \<open>Statuses\<close>

record Status =
  error_code :: nat
  error_message :: bytes

definition Status_OK :: Status where
  "Status_OK = \<lparr>error_code = 0, error_message = []\<rparr>"

definition Status_ok :: "Status \<Rightarrow> bool" where
  "Status_ok s = (error_code s = 0)"

section \<open>The service and the client\<close>

type_synonym 'u say_hello = "'u HelloRequest \<Rightarrow> 'u HelloReply \<Rightarrow> Status \<times> 'u HelloReply"

definition GreeterServiceImpl_SayHello :: "'u say_hello" where
  "GreeterServiceImpl_SayHello request reply =
     (let prefix = ascii ''Hello ''
      in (Status_OK, HelloReply_set_message (prefix @ HelloRequest_name request) reply))"

text \<open>
  The generated service: one method, \<open>UNIMPLEMENTED\<close> unless a subclass overrides it. Its constructor
  registers the virtual method, and the stub calls it, by the same name.
\<close>

definition Greeter_method_names :: "string list" where
  "Greeter_method_names = [''/hello.Greeter/SayHello'']"

definition Greeter_Service_SayHello :: "'u say_hello" where
  "Greeter_Service_SayHello request response = (\<lparr>error_code = 12, error_message = []\<rparr>, response)"

definition Greeter_Service_ctor :: "'u say_hello \<Rightarrow> (string \<times> 'u say_hello) list" where
  "Greeter_Service_ctor SayHello = [(Greeter_method_names ! 0, SayHello)]"

definition Greeter_Stub_SayHello :: "(string \<Rightarrow> 'u say_hello) \<Rightarrow> 'u say_hello" where
  "Greeter_Stub_SayHello BlockingUnaryCall request response =
     BlockingUnaryCall (Greeter_method_names ! 0) request response"

text \<open>The result and, when the call fails, what is printed.\<close>

definition GreeterClient_SayHello :: "'u say_hello \<Rightarrow> bytes \<Rightarrow> bytes \<times> bytes option" where
  "GreeterClient_SayHello stub user =
     (let request = HelloRequest_set_name user HelloRequest_SharedCtor;
          reply = HelloReply_SharedCtor;
          (status, reply) = stub request reply
      in if Status_ok status then (HelloReply_message reply, None)
         else (ascii ''RPC failed'',
               Some (dec_nat (error_code status) @ ascii '': '' @ error_message status)))"

definition greeter_client_main :: "(string \<Rightarrow> string \<Rightarrow> 'u say_hello) \<Rightarrow> bytes list" where
  "greeter_client_main CreateChannel =
     (let out = [ascii ''hello leon''];
          (reply, err) = GreeterClient_SayHello
            (Greeter_Stub_SayHello (CreateChannel ''localhost:50051'')) (ascii ''world'');
          out = out @ (case err of Some line \<Rightarrow> [line] | None \<Rightarrow> [])
      in out @ [ascii ''Greeter received: '' @ reply])"

text \<open>
  \<open>PullerServiceImpl::Pull\<close> answers \<open>OK\<close> and leaves the reply, of whatever type, as it was.
\<close>

definition PullerServiceImpl_Pull :: "'q \<Rightarrow> 'r \<Rightarrow> Status \<times> 'r" where
  "PullerServiceImpl_Pull request reply = (Status_OK, reply)"

section \<open>The start of the server\<close>

text \<open>
  \<open>BuildAndStart\<close> with the addresses the builder was given: \<open>None\<close> is the null pointer it returns when an
  address cannot be bound. The result is what is printed and, when the server waits, the server.
\<close>

record 'srv grpc_api =
  BuildAndStart :: "(string \<times> i32 option) list \<Rightarrow> 'srv option"

definition run_server :: "'srv grpc_api \<Rightarrow> string \<Rightarrow> i32 option \<Rightarrow> string list \<Rightarrow> string list \<times> 'srv res" where
  "run_server api server_address selected_port out =
     (let builder = [(server_address, selected_port)];
          server = BuildAndStart api builder;
          out = out @ [''Server listening on '' @ server_address]
      in (out, case server of None \<Rightarrow> Inl NullDeref | Some srv \<Rightarrow> Inr srv))"

definition grpc_server_main :: "'srv grpc_api \<Rightarrow> string list \<times> 'srv res" where
  "grpc_server_main api = run_server api ''0.0.0.0:50051'' None [''hello leon'']"

text \<open>
  \<open>grpcser\<close> takes the host name alone for the address, and passes the port number where the library takes
  a pointer to write the selected port to.
\<close>

definition grpcser :: "'srv grpc_api \<Rightarrow> flags \<Rightarrow> string list \<times> 'srv res" where
  "grpcser api fl = run_server api (FLAGS_ip fl) (Some (FLAGS_http_port fl)) []"

text \<open>The line is printed whether or not the server has started.\<close>

lemma run_server_faults:
  "fst (run_server api a p out) = out @ [''Server listening on '' @ a]"
  "snd (run_server api a p out) = Inl e \<longleftrightarrow> e = NullDeref \<and> BuildAndStart api [(a, p)] = None"
  by (auto simp: run_server_def Let_def split: option.splits)

section \<open>A call over the library\<close>

definition wire_request :: "('u, 's) wire_rt \<Rightarrow> 'u HelloRequest \<Rightarrow> bytes" where
  "wire_request rt q = HelloRequest_InternalSerialize rt (snd (HelloRequest_ByteSizeLong rt q))"

definition wire_reply :: "('u, 's) wire_rt \<Rightarrow> 'u HelloReply \<Rightarrow> bytes" where
  "wire_reply rt r = HelloReply_InternalSerialize rt (snd (HelloReply_ByteSizeLong rt r))"

text \<open>
  What gRPC documents of a blocking call against a server with the given methods. The call fails by
  itself, with a status that is not \<open>OK\<close>; or the method is not there (12, \<open>UNIMPLEMENTED\<close>); or the
  server cannot parse the request, or the client the reply (13, \<open>INTERNAL\<close>); or the method answers with a
  failure, which the client gets; or the reply is parsed into the client's message, which is cleared
  first.
\<close>

locale unary_rpc = wire_runtime rt varint
  for rt :: "('u, 's) wire_rt" and varint :: "u64 \<Rightarrow> bytes" +
  fixes call :: "(string \<times> 'u say_hello) list \<Rightarrow> string \<Rightarrow> 'u say_hello"
    and fault :: "'u HelloRequest \<Rightarrow> Status option"
  assumes faults_fail: "fault q = Some s \<Longrightarrow> \<not> Status_ok s"
    and call_faults: "fault q = Some s \<Longrightarrow> fst (call ms n q r) = s"
    and no_method: "fault q = None \<Longrightarrow> map_of ms n = None \<Longrightarrow> error_code (fst (call ms n q r)) = 12"
    and bad_request: "fault q = None \<Longrightarrow> map_of ms n = Some h \<Longrightarrow>
      HelloRequest_InternalParse rt HelloRequest_SharedCtor (wire_request rt q) = Some (q', e) \<Longrightarrow>
      e \<noteq> AtLimit \<Longrightarrow> error_code (fst (call ms n q r)) = 13"
    and failure: "fault q = None \<Longrightarrow> map_of ms n = Some h \<Longrightarrow>
      HelloRequest_InternalParse rt HelloRequest_SharedCtor (wire_request rt q) = Some (q', AtLimit) \<Longrightarrow>
      h q' HelloReply_SharedCtor = (s, r') \<Longrightarrow> \<not> Status_ok s \<Longrightarrow> fst (call ms n q r) = s"
    and bad_reply: "fault q = None \<Longrightarrow> map_of ms n = Some h \<Longrightarrow>
      HelloRequest_InternalParse rt HelloRequest_SharedCtor (wire_request rt q) = Some (q', AtLimit) \<Longrightarrow>
      h q' HelloReply_SharedCtor = (s, r') \<Longrightarrow> Status_ok s \<Longrightarrow>
      HelloReply_InternalParse rt (HelloReply_Clear r) (wire_reply rt r') = Some (r'', e) \<Longrightarrow>
      e \<noteq> AtLimit \<Longrightarrow> error_code (fst (call ms n q r)) = 13"
    and success: "fault q = None \<Longrightarrow> map_of ms n = Some h \<Longrightarrow>
      HelloRequest_InternalParse rt HelloRequest_SharedCtor (wire_request rt q) = Some (q', AtLimit) \<Longrightarrow>
      h q' HelloReply_SharedCtor = (s, r') \<Longrightarrow> Status_ok s \<Longrightarrow>
      HelloReply_InternalParse rt (HelloReply_Clear r) (wire_reply rt r') = Some (r'', AtLimit) \<Longrightarrow>
      call ms n q r = (s, r'')"
begin

lemma request_arrives:
  assumes "length user < wire_max"
  shows "HelloRequest_InternalParse rt HelloRequest_SharedCtor
      (wire_request rt (HelloRequest_set_name user HelloRequest_SharedCtor))
    = Some (HelloRequest_set_name user HelloRequest_SharedCtor,
        if VerifyUTF8 rt user then AtLimit else NullPtr)"
  using HelloRequest_serialized [of "HelloRequest_set_name user HelloRequest_SharedCtor"] assms
  by (simp add: wire_request_def HelloRequest_set_name_def HelloRequest_SharedCtor_def
      have_unknown_fields_def)

lemma reply_arrives:
  assumes "length text < wire_max"
  shows "HelloReply_InternalParse rt (HelloReply_Clear HelloReply_SharedCtor)
      (wire_reply rt (HelloReply_set_message text HelloReply_SharedCtor))
    = Some (HelloReply_set_message text HelloReply_SharedCtor,
        if VerifyUTF8 rt text then AtLimit else NullPtr)"
proof -
  have fresh: "HelloReply_Clear HelloReply_SharedCtor = HelloReply_SharedCtor"
    by (simp add: HelloReply_Clear_def HelloReply_SharedCtor_def)
  show ?thesis
    unfolding fresh
    using HelloReply_serialized [of "HelloReply_set_message text HelloReply_SharedCtor"] assms
    by (simp add: wire_reply_def HelloReply_set_message_def HelloReply_SharedCtor_def
        have_unknown_fields_def)
qed

end

text \<open>A library that conforms, on the reference runtime; here an empty name finds the server gone.\<close>

abbreviation hello_rt :: "(unknown_field, unit) wire_rt" where
  "hello_rt \<equiv> ref_rt"

definition ref_fault :: "unknown_field HelloRequest \<Rightarrow> Status option" where
  "ref_fault q =
     (if HelloRequest_name q = [] then Some \<lparr>error_code = 14, error_message = ascii ''gone''\<rparr> else None)"

definition ref_call ::
  "(string \<times> unknown_field say_hello) list \<Rightarrow> string \<Rightarrow> unknown_field say_hello" where
  "ref_call ms n q r =
     (case ref_fault q of Some s \<Rightarrow> (s, r) | None \<Rightarrow>
      case map_of ms n of None \<Rightarrow> (\<lparr>error_code = 12, error_message = []\<rparr>, r) | Some h \<Rightarrow>
      case HelloRequest_InternalParse hello_rt HelloRequest_SharedCtor (wire_request hello_rt q) of
        Some (q', AtLimit) \<Rightarrow>
          (let (s, r') = h q' HelloReply_SharedCtor
           in if \<not> Status_ok s then (s, r)
              else case HelloReply_InternalParse hello_rt (HelloReply_Clear r) (wire_reply hello_rt r') of
                Some (r'', AtLimit) \<Rightarrow> (s, r'')
              | _ \<Rightarrow> (\<lparr>error_code = 13, error_message = []\<rparr>, r))
      | _ \<Rightarrow> (\<lparr>error_code = 13, error_message = []\<rparr>, r))"

interpretation ref_rpc: unary_rpc hello_rt varint_ref ref_call ref_fault
  by unfold_locales
    (auto simp: ref_call_def ref_fault_def Status_ok_def split: if_splits parse_end.splits)

section \<open>Properties\<close>

text \<open>
  C28. The greeter's client against its server: when the call itself does not fail, the client has the greeting
  of the name and nothing is printed, provided the name is valid UTF-8. A name that is not leaves the client
  as it is, is refused by the generated parser on the server, and ends as \<open>RPC failed\<close> with status 13.
\<close>

theorem greeting_over_the_wire:
  assumes rpc: "unary_rpc rt varint call fault"
    and up: "fault (HelloRequest_set_name user HelloRequest_SharedCtor) = None"
    and short: "length user + 6 < wire_max"
    and prefix: "VerifyUTF8 rt (ascii ''Hello '' @ user) = VerifyUTF8 rt user"
  shows "\<exists>desc. GreeterClient_SayHello
      (Greeter_Stub_SayHello (call (Greeter_Service_ctor GreeterServiceImpl_SayHello))) user =
    (if VerifyUTF8 rt user then (ascii ''Hello '' @ user, None)
     else (ascii ''RPC failed'', Some (ascii ''13: '' @ desc)))"
proof -
  let ?q = "HelloRequest_set_name user HelloRequest_SharedCtor :: 'a HelloRequest"
  let ?t = "ascii ''Hello '' @ user"
  let ?ms = "Greeter_Service_ctor GreeterServiceImpl_SayHello :: (string \<times> 'a say_hello) list"
  let ?n = "Greeter_method_names ! 0"
  let ?call = "call ?ms ?n ?q HelloReply_SharedCtor"
  have registered: "map_of ?ms ?n = Some GreeterServiceImpl_SayHello"
    by (simp add: Greeter_Service_ctor_def)
  have len: "length user < wire_max" "length ?t < wire_max" using short by (simp_all add: ascii_def)
  note arrives = unary_rpc.request_arrives [OF rpc len(1)]
  have handler: "GreeterServiceImpl_SayHello ?q HelloReply_SharedCtor =
      (Status_OK, HelloReply_set_message ?t (HelloReply_SharedCtor :: 'a HelloReply))"
    by (simp add: GreeterServiceImpl_SayHello_def HelloRequest_set_name_def)
  show ?thesis
  proof (cases "VerifyUTF8 rt user")
    case True
    then have "?call = (Status_OK, HelloReply_set_message ?t HelloReply_SharedCtor)"
      using arrives unary_rpc.reply_arrives [OF rpc len(2)] prefix
      by (intro unary_rpc.success [OF rpc up registered _ handler]) (simp_all add: Status_ok_def Status_OK_def)
    with True show ?thesis
      by (simp add: GreeterClient_SayHello_def Greeter_Stub_SayHello_def Status_ok_def Status_OK_def
          HelloReply_set_message_def)
  next
    case False
    with arrives have "error_code (fst ?call) = 13"
      by (intro unary_rpc.bad_request [OF rpc up registered, where e = NullPtr]) simp_all
    with False show ?thesis
      by (simp add: GreeterClient_SayHello_def Greeter_Stub_SayHello_def Status_ok_def split_beta
          ascii_def dec_nat.simps [of 13] dec_nat.simps [of 1] dec_nat.simps [of "Suc 0"])
  qed
qed

theorem greeting_over_the_wire_witness:
  "\<exists>desc. GreeterClient_SayHello
      (Greeter_Stub_SayHello (ref_call (Greeter_Service_ctor GreeterServiceImpl_SayHello))) [200] =
    (if VerifyUTF8 hello_rt [200] then (ascii ''Hello '' @ [200], None)
     else (ascii ''RPC failed'', Some (ascii ''13: '' @ desc)))
   \<and> \<not> VerifyUTF8 hello_rt [200]"
proof -
  have utf: "\<not> VerifyUTF8 hello_rt [200]" "\<not> VerifyUTF8 hello_rt (ascii ''Hello '' @ [200])"
    by (simp_all add: ref_rt_def ascii_def)
  then show ?thesis
    using greeting_over_the_wire [OF ref_rpc.unary_rpc_axioms, of "[200]"]
    by (simp add: ref_fault_def HelloRequest_set_name_def wire_max_def)
qed

text \<open>A service that does not override the method answers \<open>UNIMPLEMENTED\<close>, which the client prints.\<close>

lemma unimplemented_over_the_wire:
  assumes rpc: "unary_rpc rt varint call fault"
    and up: "fault (HelloRequest_set_name user HelloRequest_SharedCtor) = None"
    and user: "length user < wire_max" "VerifyUTF8 rt user"
  shows "GreeterClient_SayHello
      (Greeter_Stub_SayHello (call (Greeter_Service_ctor Greeter_Service_SayHello))) user
    = (ascii ''RPC failed'', Some (ascii ''12: ''))"
proof -
  let ?n = "Greeter_method_names ! 0"
  have "fst (call (Greeter_Service_ctor Greeter_Service_SayHello) ?n
      (HelloRequest_set_name user HelloRequest_SharedCtor) HelloReply_SharedCtor)
    = \<lparr>error_code = 12, error_message = []\<rparr>"
    using unary_rpc.request_arrives [OF rpc user(1)] user(2)
    by (intro unary_rpc.failure [OF rpc up, where h = Greeter_Service_SayHello
          and r' = HelloReply_SharedCtor])
      (simp_all add: Greeter_Service_ctor_def Greeter_Service_SayHello_def Status_ok_def)
  then show ?thesis
    by (simp add: GreeterClient_SayHello_def Greeter_Stub_SayHello_def Status_ok_def split_beta
        ascii_def dec_nat.simps [of 12] dec_nat.simps [of 1] dec_nat.simps [of "Suc 0"])
qed

end
