(* ===== verification/PbTest.thy ===== *)
theory PbTest
  imports WireRef
begin

text \<open>
  The protobuf program of test-debug/pb-test: the message \<open>test.TestPb\<close> (pbdata/test.pb.cc and .pb.h)
  and \<open>main\<close> (pb-test.cpp). This file was generated by an older compiler than the messages of the
  feature server: it reads through a \<open>CodedInputStream\<close> and stops at a tag 0 instead of at a limit.
  The runtime's functions are the record \<open>coded_rt\<close>, the locale \<open>coded_runtime\<close> names what the documented
  wire format promises about them.

  An input stream is the bytes it still holds. A read returns the library's verdict, what it leaves in the
  variable it was given, and the stream.
\<close>

section \<open>The runtime's functions\<close>

record 'u coded_rt =
  ReadTagWithCutoffNoLastTag :: "u32 \<Rightarrow> bytes \<Rightarrow> (u32 \<times> bool) \<times> bytes"
  ReadString :: "bytes \<Rightarrow> bytes \<Rightarrow> bool \<times> bytes \<times> bytes"
  ReadInt32 :: "i32 \<Rightarrow> bytes \<Rightarrow> bool \<times> i32 \<times> bytes"
  VerifyUtf8String :: "bytes \<Rightarrow> bool"
  SkipField :: "u32 \<Rightarrow> 'u list \<Rightarrow> bytes \<Rightarrow> bool \<times> 'u list \<times> bytes"
  WriteStringMaybeAliased :: "nat \<Rightarrow> bytes \<Rightarrow> bytes"
  WriteInt32 :: "nat \<Rightarrow> i32 \<Rightarrow> bytes"
  SerializeUnknownFields :: "'u list \<Rightarrow> bytes"
  WriteStringToArray :: "nat \<Rightarrow> bytes \<Rightarrow> bytes"
  WriteInt32_ToArray :: "nat \<Rightarrow> i32 \<Rightarrow> bytes"
  SerializeUnknownFieldsToArray :: "'u list \<Rightarrow> bytes"
  String_Size :: "bytes \<Rightarrow> nat"
  Int32_Size :: "i32 \<Rightarrow> nat"
  ComputeUnknownFieldsSize :: "'u list \<Rightarrow> nat"
  GetProto3PreserveUnknownsDefault :: bool

section \<open>The message\<close>

record 'u TestPb = "'u Message" +
  sence :: bytes
  tablename :: bytes
  page :: i32

definition TestPb_SharedCtor :: "'u TestPb" where
  "TestPb_SharedCtor =
     \<lparr>internal_metadata = [], cached_size = 0, sence = [], tablename = [], page = 0\<rparr>"

definition TestPb_copy :: "'u TestPb \<Rightarrow> 'u TestPb" where
  "TestPb_copy from =
     (let m = TestPb_SharedCtor\<lparr>internal_metadata := internal_metadata from\<rparr>;
          m = (if length (sence from) > 0 then m\<lparr>sence := sence from\<rparr> else m);
          m = (if length (tablename from) > 0 then m\<lparr>tablename := tablename from\<rparr> else m)
      in m\<lparr>page := page from\<rparr>)"

definition TestPb_set_sence :: "bytes \<Rightarrow> 'u TestPb \<Rightarrow> 'u TestPb" where
  "TestPb_set_sence v m = m\<lparr>sence := v\<rparr>"

definition TestPb_set_sence_cstr :: "bytes \<Rightarrow> 'u TestPb \<Rightarrow> 'u TestPb" where
  "TestPb_set_sence_cstr v m = m\<lparr>sence := c_str v\<rparr>"

definition TestPb_clear_sence :: "'u TestPb \<Rightarrow> 'u TestPb" where
  "TestPb_clear_sence m = m\<lparr>sence := []\<rparr>"

definition TestPb_set_tablename :: "bytes \<Rightarrow> 'u TestPb \<Rightarrow> 'u TestPb" where
  "TestPb_set_tablename v m = m\<lparr>tablename := v\<rparr>"

definition TestPb_set_tablename_cstr :: "bytes \<Rightarrow> 'u TestPb \<Rightarrow> 'u TestPb" where
  "TestPb_set_tablename_cstr v m = m\<lparr>tablename := c_str v\<rparr>"

definition TestPb_clear_tablename :: "'u TestPb \<Rightarrow> 'u TestPb" where
  "TestPb_clear_tablename m = m\<lparr>tablename := []\<rparr>"

definition TestPb_set_page :: "i32 \<Rightarrow> 'u TestPb \<Rightarrow> 'u TestPb" where
  "TestPb_set_page v m = m\<lparr>page := v\<rparr>"

definition TestPb_clear_page :: "'u TestPb \<Rightarrow> 'u TestPb" where
  "TestPb_clear_page m = m\<lparr>page := 0\<rparr>"

definition TestPb_Clear :: "'u TestPb \<Rightarrow> 'u TestPb" where
  "TestPb_Clear m = m\<lparr>sence := [], tablename := [], page := 0, internal_metadata := []\<rparr>"

definition TestPb_MergeFrom :: "'u TestPb \<Rightarrow> 'u TestPb \<Rightarrow> 'u TestPb" where
  "TestPb_MergeFrom m from =
     (let m = m\<lparr>internal_metadata := internal_metadata m @ internal_metadata from\<rparr>;
          m = (if length (sence from) > 0 then m\<lparr>sence := sence from\<rparr> else m);
          m = (if length (tablename from) > 0 then m\<lparr>tablename := tablename from\<rparr> else m)
      in if page from \<noteq> 0 then TestPb_set_page (page from) m else m)"

text \<open>\<open>same\<close> is the test \<open>&from == this\<close>, or \<open>other == this\<close>.\<close>

definition TestPb_CopyFrom :: "bool \<Rightarrow> 'u TestPb \<Rightarrow> 'u TestPb \<Rightarrow> 'u TestPb" where
  "TestPb_CopyFrom same m from = (if same then m else TestPb_MergeFrom (TestPb_Clear m) from)"

definition TestPb_InternalSwap :: "'u TestPb \<Rightarrow> 'u TestPb \<Rightarrow> 'u TestPb \<times> 'u TestPb" where
  "TestPb_InternalSwap m other =
     (m\<lparr>internal_metadata := internal_metadata other, sence := sence other,
        tablename := tablename other, page := page other\<rparr>,
      other\<lparr>internal_metadata := internal_metadata m, sence := sence m,
        tablename := tablename m, page := page m\<rparr>)"

definition TestPb_Swap :: "bool \<Rightarrow> 'u TestPb \<Rightarrow> 'u TestPb \<Rightarrow> 'u TestPb \<times> 'u TestPb" where
  "TestPb_Swap same m other = (if same then (m, other) else TestPb_InternalSwap m other)"

text \<open>Assignment from a temporary: no message is on an arena, so the two swap their contents.\<close>

definition TestPb_move_assign :: "bool \<Rightarrow> 'u TestPb \<Rightarrow> 'u TestPb \<Rightarrow> 'u TestPb \<times> 'u TestPb" where
  "TestPb_move_assign same m from = (if same then (m, from) else TestPb_InternalSwap m from)"

section \<open>Parsing\<close>

text \<open>
  One pass of the loop either goes round again or leaves it at \<open>success\<close> or \<open>failure\<close>, with the message
  and the stream as they are then.
\<close>

datatype 'u pass = Again "'u TestPb" bytes | Leave bool "'u TestPb" bytes

definition DO :: "bool \<times> 'a \<times> bytes \<Rightarrow> ('a \<Rightarrow> 'u TestPb) \<Rightarrow> ('u TestPb \<Rightarrow> bool) \<Rightarrow> 'u pass" where
  "DO r store verify =
     (case r of (ok, v, input) \<Rightarrow>
        let m = store v in if ok \<and> verify m then Again m input else Leave False m input)"

definition TestPb_unusual :: "'u coded_rt \<Rightarrow> u32 \<Rightarrow> 'u TestPb \<Rightarrow> bytes \<Rightarrow> 'u pass" where
  "TestPb_unusual rt tag m input =
     (if tag = 0 then Leave True m input
      else DO (SkipField rt tag (internal_metadata m) input) (\<lambda>us. m\<lparr>internal_metadata := us\<rparr>) (\<lambda>m. True))"

definition TestPb_switch :: "'u coded_rt \<Rightarrow> u32 \<Rightarrow> 'u TestPb \<Rightarrow> bytes \<Rightarrow> 'u pass" where
  "TestPb_switch rt tag m input =
     (if drop_bit 3 tag = 1 then
        (if (ucast tag :: u8) = 10 then
           DO (ReadString rt (sence m) input) (\<lambda>s. m\<lparr>sence := s\<rparr>) (\<lambda>m. VerifyUtf8String rt (sence m))
         else TestPb_unusual rt tag m input)
      else if drop_bit 3 tag = 2 then
        (if (ucast tag :: u8) = 16 then
           DO (ReadInt32 rt (page m) input) (\<lambda>v. m\<lparr>page := v\<rparr>) (\<lambda>m. True)
         else TestPb_unusual rt tag m input)
      else if drop_bit 3 tag = 9977 then
        (if (ucast tag :: u8) = 202 then
           DO (ReadString rt (tablename m) input) (\<lambda>s. m\<lparr>tablename := s\<rparr>)
             (\<lambda>m. VerifyUtf8String rt (tablename m))
         else TestPb_unusual rt tag m input)
      else TestPb_unusual rt tag m input)"

definition TestPb_pass :: "'u coded_rt \<Rightarrow> 'u TestPb \<Rightarrow> bytes \<Rightarrow> 'u pass" where
  "TestPb_pass rt m input =
     (case ReadTagWithCutoffNoLastTag rt 79821 input of
        ((tag, below), input) \<Rightarrow>
          if \<not> below then TestPb_unusual rt tag m input else TestPb_switch rt tag m input)"

partial_function (option) TestPb_MergePartialFromCodedStream ::
  "'u coded_rt \<Rightarrow> 'u TestPb \<Rightarrow> bytes \<Rightarrow> (bool \<times> 'u TestPb \<times> bytes) option" where
  "TestPb_MergePartialFromCodedStream rt m input =
     (case TestPb_pass rt m input of
        Again m input \<Rightarrow> TestPb_MergePartialFromCodedStream rt m input
      | Leave ok m input \<Rightarrow> Some (ok, m, input))"

section \<open>Serialising\<close>

definition TestPb_SerializeWithCachedSizes :: "'u coded_rt \<Rightarrow> 'u TestPb \<Rightarrow> bytes" where
  "TestPb_SerializeWithCachedSizes rt m =
     (if length (sence m) > 0 then WriteStringMaybeAliased rt 1 (sence m) else []) @
     (if page m \<noteq> 0 then WriteInt32 rt 2 (page m) else []) @
     (if length (tablename m) > 0 then WriteStringMaybeAliased rt 9977 (tablename m) else []) @
     (if have_unknown_fields m \<and> GetProto3PreserveUnknownsDefault rt
      then SerializeUnknownFields rt (internal_metadata m) else [])"

definition TestPb_SerializeToArray :: "'u coded_rt \<Rightarrow> 'u TestPb \<Rightarrow> bytes" where
  "TestPb_SerializeToArray rt m =
     (if length (sence m) > 0 then WriteStringToArray rt 1 (sence m) else []) @
     (if page m \<noteq> 0 then WriteInt32_ToArray rt 2 (page m) else []) @
     (if length (tablename m) > 0 then WriteStringToArray rt 9977 (tablename m) else []) @
     (if have_unknown_fields m \<and> GetProto3PreserveUnknownsDefault rt
      then SerializeUnknownFieldsToArray rt (internal_metadata m) else [])"

definition TestPb_ByteSizeLong :: "'u coded_rt \<Rightarrow> 'u TestPb \<Rightarrow> nat \<times> 'u TestPb" where
  "TestPb_ByteSizeLong rt m =
     (let total_size = 0;
          total_size = (if have_unknown_fields m \<and> GetProto3PreserveUnknownsDefault rt
                        then total_size + ComputeUnknownFieldsSize rt (internal_metadata m)
                        else total_size);
          total_size = (if length (sence m) > 0
                        then total_size + (1 + String_Size rt (sence m)) else total_size);
          total_size = (if length (tablename m) > 0
                        then total_size + (3 + String_Size rt (tablename m)) else total_size);
          total_size = (if page m \<noteq> 0
                        then total_size + (1 + Int32_Size rt (page m)) else total_size)
      in (total_size, m\<lparr>cached_size := ToCachedSize total_size\<rparr>))"

section \<open>The wire format\<close>

text \<open>
  What was written reads back and leaves the rest of the stream; at the end of the stream the tag is 0;
  a tag that is read takes bytes from the stream, and no read gives bytes back.
\<close>

locale coded_runtime =
  fixes rt :: "'u coded_rt" and varint :: "u64 \<Rightarrow> bytes"
  assumes varint_low: "v < 128 \<Longrightarrow> varint v = [ucast v]"
    and varint_high: "\<not> v < 128 \<Longrightarrow> varint v = of_nat (unat v mod 128 + 128) # varint (v div 128)"
    and read_tag: "0 < t \<Longrightarrow> t \<le> c \<Longrightarrow>
      ReadTagWithCutoffNoLastTag rt c (varint (ucast t) @ rest) = ((t, True), rest)"
    and read_end: "ReadTagWithCutoffNoLastTag rt c [] = ((0, False), [])"
    and read_string: "length s < wire_max \<Longrightarrow>
      ReadString rt old (varint (of_nat (length s)) @ s @ rest) = (True, s, rest)"
    and read_int32: "ReadInt32 rt n (varint v @ rest) = (True, ucast v, rest)"
    and write_string: "WriteStringMaybeAliased rt f s =
      varint (of_nat (f * 8 + 2)) @ varint (of_nat (length s)) @ s"
    and write_int32: "WriteInt32 rt f n = varint (of_nat (f * 8)) @ varint (scast n)"
    and array_string: "WriteStringToArray rt f s = WriteStringMaybeAliased rt f s"
    and array_int32: "WriteInt32_ToArray rt f n = WriteInt32 rt f n"
    and array_unknown: "SerializeUnknownFieldsToArray rt us = SerializeUnknownFields rt us"
    and string_size: "String_Size rt s = length (varint (of_nat (length s))) + length s"
    and int32_size: "Int32_Size rt n = length (varint (scast n))"
    and unknown_size: "ComputeUnknownFieldsSize rt us = length (SerializeUnknownFields rt us)"
    and tag_consumes: "ReadTagWithCutoffNoLastTag rt c i = ((t, below), i') \<Longrightarrow> t \<noteq> 0 \<Longrightarrow>
      length i' < length i"
    and tag_below: "ReadTagWithCutoffNoLastTag rt c i = ((t, True), i') \<Longrightarrow> t \<noteq> 0"
    and string_no_gain: "ReadString rt old i = (ok, s, i') \<Longrightarrow> length i' \<le> length i"
    and int32_no_gain: "ReadInt32 rt n i = (ok, n', i') \<Longrightarrow> length i' \<le> length i"
    and skip_no_gain: "SkipField rt t us i = (ok, us', i') \<Longrightarrow> length i' \<le> length i"
begin

text \<open>The three tags: two of one byte, one of three.\<close>

lemma tag_lengths:
  "length (varint 10) = 1" "length (varint 16) = 1" "length (varint 79818) = 3"
  using varint_low [of 10] varint_low [of 16] varint_low [of 4] varint_high [of 623]
    varint_high [of 79818]
  by simp_all

lemma read_tags:
  "ReadTagWithCutoffNoLastTag rt 79821 (varint 10 @ r) = ((10, True), r)"
  "ReadTagWithCutoffNoLastTag rt 79821 (varint 16 @ r) = ((16, True), r)"
  "ReadTagWithCutoffNoLastTag rt 79821 (varint 79818 @ r) = ((79818, True), r)"
  using read_tag [of 10 79821 r] read_tag [of 16 79821 r] read_tag [of 79818 79821 r] by simp_all

text \<open>The two serialisers write the same bytes, as many as were computed.\<close>

lemma TestPb_to_array: "TestPb_SerializeToArray rt m = TestPb_SerializeWithCachedSizes rt m"
  by (simp add: TestPb_SerializeToArray_def TestPb_SerializeWithCachedSizes_def array_string
      array_int32 array_unknown)

lemma TestPb_size:
  "fst (TestPb_ByteSizeLong rt m) = length (TestPb_SerializeWithCachedSizes rt m)"
  using tag_lengths
  by (simp add: TestPb_ByteSizeLong_def TestPb_SerializeWithCachedSizes_def write_string write_int32
      string_size int32_size unknown_size Let_def)

text \<open>One field each, after which the loop goes round again.\<close>

lemma TestPb_fields:
  "length s < wire_max \<Longrightarrow> VerifyUtf8String rt s \<Longrightarrow>
   TestPb_pass rt m (varint 10 @ varint (of_nat (length s)) @ s @ r) = Again (m\<lparr>sence := s\<rparr>) r"
  "TestPb_pass rt m (varint 16 @ varint (scast n) @ r) = Again (m\<lparr>page := n\<rparr>) r"
  "length s < wire_max \<Longrightarrow> VerifyUtf8String rt s \<Longrightarrow>
   TestPb_pass rt m (varint 79818 @ varint (of_nat (length s)) @ s @ r) = Again (m\<lparr>tablename := s\<rparr>) r"
  by (simp_all add: TestPb_pass_def TestPb_switch_def DO_def read_tags read_string read_int32 Let_def)

lemma TestPb_pass_end: "TestPb_pass rt m [] = Leave True m []"
  by (simp add: TestPb_pass_def read_end TestPb_unusual_def)

text \<open>A message that a peer can read back: no unknown fields, strings that are UTF-8 and not too long.\<close>

definition TestPb_fits :: "'u TestPb \<Rightarrow> bool" where
  "TestPb_fits m = (\<not> have_unknown_fields m
     \<and> length (sence m) < wire_max \<and> (sence m \<noteq> [] \<longrightarrow> VerifyUtf8String rt (sence m))
     \<and> length (tablename m) < wire_max \<and> (tablename m \<noteq> [] \<longrightarrow> VerifyUtf8String rt (tablename m)))"

lemma TestPb_parse_append:
  assumes "TestPb_fits a"
  shows "TestPb_MergePartialFromCodedStream rt m (TestPb_SerializeWithCachedSizes rt a @ rest)
       = TestPb_MergePartialFromCodedStream rt (TestPb_MergeFrom m a) rest"
proof -
  let ?loop = "TestPb_MergePartialFromCodedStream rt"
  have go: "?loop n i = ?loop n' i'" if "TestPb_pass rt n i = Again n' i'" for n i n' i'
    using that by (subst TestPb_MergePartialFromCodedStream.simps) simp
  have fields: "VerifyUtf8String rt s \<Longrightarrow> length s < wire_max \<Longrightarrow>
        ?loop n (varint 10 @ varint (of_nat (length s)) @ s @ r) = ?loop (n\<lparr>sence := s\<rparr>) r"
      "?loop n (varint 16 @ varint (scast i) @ r) = ?loop (n\<lparr>page := i\<rparr>) r"
      "VerifyUtf8String rt s \<Longrightarrow> length s < wire_max \<Longrightarrow>
        ?loop n (varint 79818 @ varint (of_nat (length s)) @ s @ r) = ?loop (n\<lparr>tablename := s\<rparr>) r"
    for n s r i by (simp_all add: go TestPb_fields)
  show ?thesis
    using assms
    by (cases m) (auto simp: TestPb_SerializeWithCachedSizes_def TestPb_MergeFrom_def TestPb_fits_def
        TestPb_set_page_def have_unknown_fields_def write_string write_int32 fields Let_def)
qed

lemma TestPb_parse_serialized:
  assumes "TestPb_fits a"
  shows "TestPb_MergePartialFromCodedStream rt m (TestPb_SerializeWithCachedSizes rt a)
       = Some (True, TestPb_MergeFrom m a, [])"
  using TestPb_parse_append [OF assms, of m "[]"]
  by (simp add: TestPb_MergePartialFromCodedStream.simps [of rt _ "[]"] TestPb_pass_end)

text \<open>Every pass that goes round again has taken bytes, so the loop ends.\<close>

lemma TestPb_pass_consumes: "TestPb_pass rt m i = Again m' i' \<Longrightarrow> length i' < length i"
  by (auto simp: TestPb_pass_def TestPb_switch_def TestPb_unusual_def DO_def Let_def
      split: if_splits prod.splits
      dest!: string_no_gain int32_no_gain skip_no_gain dest: tag_consumes tag_below)

lemma TestPb_parse_returns: "TestPb_MergePartialFromCodedStream rt m i \<noteq> None"
proof (induction i arbitrary: m rule: length_induct)
  case (1 i)
  then show ?case
    using TestPb_pass_consumes
    by (subst TestPb_MergePartialFromCodedStream.simps) (auto split: pass.splits)
qed

end

section \<open>A runtime that conforms\<close>

definition ref_coded :: "unknown_field coded_rt" where
  "ref_coded = \<lparr>
     ReadTagWithCutoffNoLastTag = (\<lambda>c i. case unbase128 5 i of
        None \<Rightarrow> ((0, False), [])
      | Some (n, r) \<Rightarrow> ((of_nat n, 0 < (of_nat n :: u32) \<and> of_nat n \<le> c), r)),
     ReadString = (\<lambda>old i. case read_block i of None \<Rightarrow> (False, old, []) | Some (s, r) \<Rightarrow> (True, s, r)),
     ReadInt32 = (\<lambda>old i. case unbase128 10 i of
        None \<Rightarrow> (False, old, []) | Some (n, r) \<Rightarrow> (True, of_nat n, r)),
     VerifyUtf8String = utf8,
     SkipField = (\<lambda>tag us i. case skip_field tag i of
        None \<Rightarrow> (False, us, []) | Some (b, r) \<Rightarrow> (True, us @ [(tag, b)], r)),
     WriteStringMaybeAliased = WriteString (ref_rt :: (unknown_field, unit) wire_rt),
     WriteInt32 = WriteInt32ToArray (ref_rt :: (unknown_field, unit) wire_rt),
     SerializeUnknownFields = InternalSerializeUnknownFields (ref_rt :: (unknown_field, unit) wire_rt),
     WriteStringToArray = WriteString (ref_rt :: (unknown_field, unit) wire_rt),
     WriteInt32_ToArray = WriteInt32ToArray (ref_rt :: (unknown_field, unit) wire_rt),
     SerializeUnknownFieldsToArray =
       InternalSerializeUnknownFields (ref_rt :: (unknown_field, unit) wire_rt),
     String_Size = (\<lambda>s. length (varint_ref (of_nat (length s))) + length s),
     Int32_Size = (\<lambda>n. length (varint_ref (scast n))),
     ComputeUnknownFieldsSize =
       (\<lambda>us. length (InternalSerializeUnknownFields (ref_rt :: (unknown_field, unit) wire_rt) us)),
     GetProto3PreserveUnknownsDefault = True\<rparr>"

interpretation ref_old: coded_runtime ref_coded varint_ref
proof (unfold_locales, goal_cases)
  case (1 v)
  then show ?case by (simp add: varint_ref_def base128.simps [of "unat v"] word_less_nat_alt)
next
  case (2 v)
  then show ?case
    by (simp add: varint_ref_def base128.simps [of "unat v"] word_less_nat_alt unat_div)
next
  case (3 t c rest)
  moreover have "unat t < 2 ^ 32" using unsigned_less [of t, where ?'a = nat] by simp
  ultimately show ?case by (simp add: ref_coded_def unbase128_varint_ref32)
qed (auto simp: ref_coded_def ref_rt_def field_header_def read_block_written unbase128_varint_ref
    split: option.splits dest: unbase128_consumes read_block_shrinks skip_field_shrinks)

section \<open>The program\<close>

text \<open>
  The library's entry points. What \<open>SerializeToString\<close> leaves in the string; parsing clears the
  message first, and succeeds when the loop ends at \<open>success\<close> with the stream used up.
\<close>

record 'u pb_lib =
  SerializeToString :: "'u TestPb \<Rightarrow> bytes"
  ParseFromString :: "'u TestPb \<Rightarrow> bytes \<Rightarrow> bool \<times> 'u TestPb"
  DebugString :: "'u TestPb \<Rightarrow> string"
  string_capacity :: "bytes \<Rightarrow> nat"

definition pb_test_main :: "'u pb_lib \<Rightarrow> string list" where
  "pb_test_main lib =
     (let out = [''hello leon''];
          a = TestPb_SharedCtor;
          c = TestPb_SharedCtor;
          a = TestPb_set_page 1 a;
          b = SerializeToString lib a;
          (ok, c) = ParseFromString lib c b
      in out @ [DebugString lib a @ dec_string (string_capacity lib b) @ DebugString lib c])"

locale pb_library = coded_runtime rt varint
  for rt :: "'u coded_rt" and varint :: "u64 \<Rightarrow> bytes" +
  fixes lib :: "'u pb_lib"
  assumes serialize: "fst (TestPb_ByteSizeLong rt m) < 2 ^ 31 \<Longrightarrow>
      SerializeToString lib m = TestPb_SerializeToArray rt (snd (TestPb_ByteSizeLong rt m))"
    and parse: "TestPb_MergePartialFromCodedStream rt (TestPb_Clear m) b = Some (ok, m', i) \<Longrightarrow>
      ParseFromString lib m b = (ok \<and> i = [], m')"
    and debug_cached: "DebugString lib (m\<lparr>cached_size := n\<rparr>) = DebugString lib m"
begin

lemma roundtrip:
  assumes "TestPb_fits a" and "fst (TestPb_ByteSizeLong rt a) < 2 ^ 31"
  shows "ParseFromString lib c (SerializeToString lib a) = (True, a\<lparr>cached_size := cached_size c\<rparr>)"
proof -
  have "TestPb_SerializeWithCachedSizes rt (snd (TestPb_ByteSizeLong rt a))
      = TestPb_SerializeWithCachedSizes rt a"
    by (simp add: TestPb_ByteSizeLong_def TestPb_SerializeWithCachedSizes_def have_unknown_fields_def
        Let_def)
  then have "SerializeToString lib a = TestPb_SerializeWithCachedSizes rt a"
    using serialize [OF assms(2)] by (simp add: TestPb_to_array)
  moreover have "TestPb_MergeFrom (TestPb_Clear c) a = a\<lparr>cached_size := cached_size c\<rparr>"
    using assms(1)
    by (cases a; cases c) (simp add: TestPb_MergeFrom_def TestPb_Clear_def TestPb_set_page_def
        TestPb_fits_def have_unknown_fields_def Let_def)
  ultimately show ?thesis
    using parse [OF TestPb_parse_serialized [OF assms(1)], of c] by simp
qed

end

definition ref_pb_lib :: "unknown_field pb_lib" where
  "ref_pb_lib = \<lparr>
     SerializeToString = (\<lambda>m. TestPb_SerializeToArray ref_coded (snd (TestPb_ByteSizeLong ref_coded m))),
     ParseFromString = (\<lambda>m b. case TestPb_MergePartialFromCodedStream ref_coded (TestPb_Clear m) b of
        None \<Rightarrow> (False, m) | Some (ok, m', i) \<Rightarrow> (ok \<and> i = [], m')),
     DebugString = (\<lambda>m. dec_string (unat (page m))),
     string_capacity = (\<lambda>b. max 15 (length b))\<rparr>"

interpretation ref_lib: pb_library ref_coded varint_ref ref_pb_lib
  by unfold_locales (simp_all add: ref_pb_lib_def)

section \<open>Properties\<close>

text \<open>
  C39. A message comes back from the bytes it was written to, whatever its page (a negative number takes ten
  bytes), and whatever the message it is parsed into held; the number of bytes is what was computed.
\<close>

theorem testpb_roundtrip:
  assumes "pb_library rt varint lib"
    and "internal_metadata a = []" and "VerifyUtf8String rt (sence a)" and "VerifyUtf8String rt (tablename a)"
    and "fst (TestPb_ByteSizeLong rt a) < wire_max"
  shows "ParseFromString lib c (SerializeToString lib a) = (True, a\<lparr>cached_size := cached_size c\<rparr>)
    \<and> length (SerializeToString lib a) = fst (TestPb_ByteSizeLong rt a)"
proof -
  note coded = pb_library.axioms(1) [OF assms(1)]
  note size = coded_runtime.TestPb_size [OF coded]
  have "length (sence a) < wire_max" "length (tablename a) < wire_max"
    using assms(5) by (auto simp: TestPb_ByteSizeLong_def coded_runtime.string_size [OF coded] Let_def
        split: if_splits)
  then have fits: "coded_runtime.TestPb_fits rt a"
    using assms(2-4) by (simp add: coded_runtime.TestPb_fits_def [OF coded] have_unknown_fields_def)
  have small: "fst (TestPb_ByteSizeLong rt a) < 2 ^ 31" using assms(5) by (simp add: wire_max_def)
  have "length (SerializeToString lib a) = fst (TestPb_ByteSizeLong rt (snd (TestPb_ByteSizeLong rt a)))"
    using pb_library.serialize [OF assms(1) small] size
    by (simp add: coded_runtime.TestPb_to_array [OF coded])
  then show ?thesis
    using pb_library.roundtrip [OF assms(1) fits small]
    by (simp add: TestPb_ByteSizeLong_def have_unknown_fields_def Let_def)
qed

theorem testpb_roundtrip_witness:
  "ParseFromString ref_pb_lib TestPb_SharedCtor (SerializeToString ref_pb_lib
      (TestPb_set_tablename [116] (TestPb_set_page (-1) TestPb_SharedCtor)))
    = (True, (TestPb_set_tablename [116] (TestPb_set_page (-1) TestPb_SharedCtor))
        \<lparr>cached_size := cached_size (TestPb_SharedCtor :: unknown_field TestPb)\<rparr>)
   \<and> length (SerializeToString ref_pb_lib
      (TestPb_set_tablename [116] (TestPb_set_page (-1) TestPb_SharedCtor)))
    = fst (TestPb_ByteSizeLong ref_coded
        (TestPb_set_tablename [116] (TestPb_set_page (-1) TestPb_SharedCtor)))"
  using varint_ref_length [of "-1"] varint_ref_length [of 1]
  by (intro testpb_roundtrip [OF ref_lib.pb_library_axioms])
    (simp_all add: TestPb_set_tablename_def TestPb_set_page_def TestPb_SharedCtor_def ref_coded_def
      TestPb_ByteSizeLong_def have_unknown_fields_def wire_max_def)

text \<open>
  The program prints the text of one message twice, with the capacity of the string between: what it
  parses is what it serialised.
\<close>

theorem pb_test_prints_twice:
  assumes "pb_library rt varint lib"
  defines "a \<equiv> TestPb_SharedCtor\<lparr>page := 1\<rparr>"
  shows "pb_test_main lib = [''hello leon'',
    DebugString lib a @ dec_string (string_capacity lib (SerializeToString lib a)) @ DebugString lib a]"
proof -
  note coded = pb_library.axioms(1) [OF assms(1)]
  have "coded_runtime.TestPb_fits rt a"
    by (simp add: coded_runtime.TestPb_fits_def [OF coded] a_def TestPb_SharedCtor_def
        have_unknown_fields_def wire_max_def)
  moreover have "fst (TestPb_ByteSizeLong rt a) < 2 ^ 31"
    using coded_runtime.varint_low [OF coded, of 1]
    by (simp add: TestPb_ByteSizeLong_def a_def TestPb_SharedCtor_def have_unknown_fields_def
        coded_runtime.int32_size [OF coded])
  ultimately have "ParseFromString lib TestPb_SharedCtor (SerializeToString lib a)
      = (True, a\<lparr>cached_size := cached_size (TestPb_SharedCtor :: 'a TestPb)\<rparr>)"
    by (rule pb_library.roundtrip [OF assms(1)])
  then show ?thesis
    by (simp add: pb_test_main_def TestPb_set_page_def a_def [symmetric] pb_library.debug_cached [OF assms(1)])
qed

theorem pb_test_prints_twice_witness: "pb_test_main ref_pb_lib = [''hello leon'', ''1151'']"
proof -
  have "length (SerializeToString ref_pb_lib (TestPb_SharedCtor\<lparr>page := 1\<rparr>)) = 2"
    by (simp add: ref_pb_lib_def TestPb_SharedCtor_def TestPb_SerializeToArray_def ref_coded_def
        ref_rt_def TestPb_ByteSizeLong_def field_header_def varint_ref_def base128.simps
        have_unknown_fields_def)
  then show ?thesis
    by (simp add: pb_test_prints_twice [OF ref_lib.pb_library_axioms])
      (simp add: ref_pb_lib_def TestPb_SharedCtor_def dec_string_def dec_nat.simps [of 15]
        dec_nat.simps [of 1] dec_nat.simps [of "Suc 0"] char_of_def bit_0 bit_Suc bit_numeral_rec)
qed

end
