(* ===== verification/Quicksort.thy ===== *)
theory Quicksort
  imports Prelude
begin

text \<open>
  The in-place quicksort of test-debug/file-test/file-test.cpp. Indices are C \<open>int\<close>s: a read or write
  out of range and an increment that overflows are faults, and the theorems show that none occurs.
\<close>

section \<open>The code\<close>

definition arr_at :: "i64 list \<Rightarrow> int \<Rightarrow> i64 res" where
  "arr_at arr i = (if 0 \<le> i \<and> i < int (length arr) then Inr (arr ! nat i) else Inl OutOfRange)"

definition arr_put :: "i64 list \<Rightarrow> int \<Rightarrow> i64 \<Rightarrow> i64 list res" where
  "arr_put arr i x = (if 0 \<le> i \<and> i < int (length arr) then Inr (arr[nat i := x]) else Inl OutOfRange)"

definition inc32 :: "int \<Rightarrow> int res" where
  "inc32 i = (if i < 2147483647 then Inr (i + 1) else Inl SignedOverflow)"

definition dec32 :: "int \<Rightarrow> int res" where
  "dec32 i = (if - 2147483648 < i then Inr (i - 1) else Inl SignedOverflow)"

text \<open>\<open>while (i <= hi && arr[i] < midVal) i++\<close>.\<close>

function scan_up :: "i64 list \<Rightarrow> i64 \<Rightarrow> int \<Rightarrow> int \<Rightarrow> int res" where
  "scan_up arr midVal hi i =
     (if i \<le> hi then
        res_bind (arr_at arr i) (\<lambda>x.
          if sint x < sint midVal then res_bind (inc32 i) (\<lambda>i. scan_up arr midVal hi i) else Inr i)
      else Inr i)"
  by pat_completeness auto
termination
  by (relation "measure (\<lambda>(arr, m, hi, i). nat (hi + 1 - i))") (auto simp: inc32_def split: if_splits)

text \<open>\<open>while (j >= lo + 1 && arr[j] > midVal) j--\<close>.\<close>

function scan_down :: "i64 list \<Rightarrow> i64 \<Rightarrow> int \<Rightarrow> int \<Rightarrow> int res" where
  "scan_down arr midVal lo j =
     (if j \<ge> lo + 1 then
        res_bind (arr_at arr j) (\<lambda>x.
          if sint x > sint midVal then res_bind (dec32 j) (\<lambda>j. scan_down arr midVal lo j) else Inr j)
      else Inr j)"
  by pat_completeness auto
termination
  by (relation "measure (\<lambda>(arr, m, lo, j). nat (j - lo))") (auto simp: dec32_def split: if_splits)

declare scan_up.simps [simp del] scan_down.simps [simp del]

definition arr_swap :: "i64 list \<Rightarrow> int \<Rightarrow> int \<Rightarrow> i64 list res" where
  "arr_swap arr i j =
     res_bind (arr_at arr i) (\<lambda>tmpVal.
     res_bind (arr_at arr j) (\<lambda>x.
     res_bind (arr_put arr i x) (\<lambda>arr. arr_put arr j tmpVal)))"

lemma scan_up_ge: "scan_up arr m hi i = Inr i' \<Longrightarrow> i \<le> i'"
proof (induction arr m hi i rule: scan_up.induct)
  case (1 arr m hi i)
  from 1(2) show ?case
    by (subst (asm) scan_up.simps) (fastforce simp: res_bind_Inr inc32_def split: if_splits dest: 1(1))
qed

lemma scan_down_le: "scan_down arr m lo j = Inr j' \<Longrightarrow> j' \<le> j"
proof (induction arr m lo j rule: scan_down.induct)
  case (1 arr m lo j)
  from 1(2) show ?case
    by (subst (asm) scan_down.simps) (fastforce simp: res_bind_Inr dec32_def split: if_splits dest: 1(1))
qed

text \<open>The outer loop, which leaves by its \<open>break\<close>.\<close>

function partition_loop :: "i64 \<Rightarrow> int \<Rightarrow> int \<Rightarrow> i64 list \<Rightarrow> int \<Rightarrow> int \<Rightarrow> (i64 list \<times> int) res" where
  "partition_loop midVal lo hi arr i j =
     res_bind (scan_up arr midVal hi i) (\<lambda>i'.
     res_bind (scan_down arr midVal lo j) (\<lambda>j'.
       if i' > j' then Inr (arr, j')
       else
         res_bind (arr_swap arr i' j') (\<lambda>arr'.
         res_bind (inc32 i') (\<lambda>i''.
         res_bind (dec32 j') (\<lambda>j''. partition_loop midVal lo hi arr' i'' j'')))))"
  by pat_completeness auto
termination
  by (relation "measure (\<lambda>(m, lo, hi, arr, i, j). nat (j + 1 - i))")
    (auto simp: inc32_def dec32_def split: if_splits dest!: scan_up_ge scan_down_le)

declare partition_loop.simps [simp del]

text \<open>The part of \<open>quickSort\<close> before its recursive calls.\<close>

definition partition_range :: "i64 list \<Rightarrow> int \<Rightarrow> int \<Rightarrow> (i64 list \<times> int) res" where
  "partition_range arr lo hi =
     res_bind (arr_at arr lo) (\<lambda>midVal.
     res_bind (inc32 lo) (\<lambda>i.
     res_bind (partition_loop midVal lo hi arr i hi) (\<lambda>(arr, j).
     res_bind (arr_swap arr lo j) (\<lambda>arr. Inr (arr, j)))))"

text \<open>The split point stays in range, on every run that returns.\<close>

lemma scan_down_ge: "scan_down arr m lo j = Inr j' \<Longrightarrow> lo \<le> j \<Longrightarrow> lo \<le> j'"
proof (induction arr m lo j rule: scan_down.induct)
  case (1 arr m lo j)
  show ?case
  proof (cases "\<exists>x j1. lo + 1 \<le> j \<and> arr_at arr j = Inr x \<and> sint m < sint x \<and> dec32 j = Inr j1
      \<and> scan_down arr m lo j1 = Inr j'")
    case True
    with 1(1) show ?thesis by (auto simp: dec32_def split: if_splits)
  next
    case False
    with 1(2,3) show ?thesis
      by (subst (asm) scan_down.simps) (auto simp: res_bind_Inr split: if_splits)
  qed
qed

lemma partition_loop_range:
  "partition_loop m lo hi arr i j = Inr (arr', j') \<Longrightarrow> lo \<le> j \<Longrightarrow> lo < i \<Longrightarrow> lo \<le> j' \<and> j' \<le> j"
proof (induction m lo hi arr i j rule: partition_loop.induct)
  case (1 m lo hi arr i j)
  obtain i1 j1 where s: "scan_up arr m hi i = Inr i1" "scan_down arr m lo j = Inr j1"
    using 1(2) by (subst (asm) partition_loop.simps) (auto simp: res_bind_Inr)
  note b = scan_up_ge [OF s(1)] scan_down_le [OF s(2)] scan_down_ge [OF s(2) 1(3)]
  show ?case
  proof (cases "i1 > j1")
    case True
    with 1(2) s b show ?thesis by (subst (asm) partition_loop.simps) auto
  next
    case False
    then obtain arr1 i2 j2 where n: "arr_swap arr i1 j1 = Inr arr1" "inc32 i1 = Inr i2" "dec32 j1 = Inr j2"
      "partition_loop m lo hi arr1 i2 j2 = Inr (arr', j')"
      using 1(2) s by (subst (asm) partition_loop.simps) (auto simp: res_bind_Inr)
    have "i2 = i1 + 1" "j2 = j1 - 1" using n by (auto simp: inc32_def dec32_def split: if_splits)
    with 1(1) [OF s False n] 1(4) b False show ?thesis by simp
  qed
qed

lemma partition_range_bounds:
  assumes "partition_range arr lo hi = Inr (arr', j)" and "lo < hi"
  shows "lo \<le> j \<and> j \<le> hi"
  using assms partition_loop_range
  by (fastforce simp: partition_range_def res_bind_Inr inc32_def split: if_splits)

function quickSort :: "i64 list \<Rightarrow> int \<Rightarrow> int \<Rightarrow> i64 list res" where
  "quickSort arr lo hi =
     (if lo < hi then
        res_bind (partition_range arr lo hi) (\<lambda>(arr, j).
        res_bind (dec32 j) (\<lambda>j1.
        res_bind (quickSort arr lo j1) (\<lambda>arr.
        res_bind (inc32 j) (\<lambda>j2. quickSort arr j2 hi))))
      else Inr arr)"
  by pat_completeness auto
termination
  by (relation "measure (\<lambda>(arr, lo, hi). nat (hi - lo + 1))")
    (auto simp: inc32_def dec32_def split: if_splits dest: partition_range_bounds)

declare quickSort.simps [simp del]

section \<open>The two scans\<close>

text \<open>The element an index names, as the signed number the code compares.\<close>

abbreviation val :: "i64 list \<Rightarrow> int \<Rightarrow> int" where
  "val arr k \<equiv> sint (arr ! nat k)"

text \<open>The indices of a segment that the code may touch without a fault.\<close>

definition in_range :: "i64 list \<Rightarrow> int \<Rightarrow> int \<Rightarrow> bool" where
  "in_range arr lo hi \<longleftrightarrow> 0 \<le> lo \<and> hi < int (length arr) \<and> hi < 2147483647"

lemma scan_up_spec:
  assumes "in_range arr lo hi" and "lo \<le> i"
  shows "\<exists>i'. scan_up arr m hi i = Inr i' \<and> i \<le> i' \<and> (i' \<le> hi \<longrightarrow> sint m \<le> val arr i')
    \<and> (\<forall>k. i \<le> k \<and> k < i' \<longrightarrow> val arr k < sint m)"
  using assms
proof (induction arr m hi i rule: scan_up.induct)
  case (1 arr m hi i)
  show ?case
  proof (cases "i \<le> hi \<and> val arr i < sint m")
    case True
    then have at: "arr_at arr i = Inr (arr ! nat i)" "inc32 i = Inr (i + 1)"
      using 1(2,3) by (auto simp: arr_at_def inc32_def in_range_def)
    with 1(1) [OF _ at(1) _ at(2)] True 1(2,3) obtain i' where
      "scan_up arr m hi (i + 1) = Inr i'" "i + 1 \<le> i'" "i' \<le> hi \<longrightarrow> sint m \<le> val arr i'"
      "\<forall>k. i + 1 \<le> k \<and> k < i' \<longrightarrow> val arr k < sint m" by auto
    with True at show ?thesis
      by (subst scan_up.simps) (auto simp: order.order_iff_strict [of i])
  next
    case False
    with 1(2,3) show ?thesis
      by (subst scan_up.simps) (auto simp: arr_at_def in_range_def)
  qed
qed

lemma scan_down_spec:
  assumes "in_range arr lo hi" and "j \<le> hi" and "lo \<le> j"
  shows "\<exists>j'. scan_down arr m lo j = Inr j' \<and> lo \<le> j' \<and> j' \<le> j \<and> (lo < j' \<longrightarrow> val arr j' \<le> sint m)
    \<and> (\<forall>k. j' < k \<and> k \<le> j \<longrightarrow> sint m < val arr k)"
  using assms
proof (induction arr m lo j rule: scan_down.induct)
  case (1 arr m lo j)
  show ?case
  proof (cases "lo + 1 \<le> j \<and> sint m < val arr j")
    case True
    then have at: "arr_at arr j = Inr (arr ! nat j)" "dec32 j = Inr (j - 1)"
      using 1(2,3) by (auto simp: arr_at_def dec32_def in_range_def)
    with 1(1) [OF _ at(1) _ at(2)] True 1(2-4) obtain j' where
      "scan_down arr m lo (j - 1) = Inr j'" "lo \<le> j'" "j' \<le> j - 1" "lo < j' \<longrightarrow> val arr j' \<le> sint m"
      "\<forall>k. j' < k \<and> k \<le> j - 1 \<longrightarrow> sint m < val arr k" by auto
    with True at show ?thesis
      by (subst scan_down.simps) (auto simp: order.order_iff_strict [of _ j])
  next
    case False
    with 1(2-4) show ?thesis
      by (subst scan_down.simps) (auto simp: arr_at_def in_range_def)
  qed
qed

section \<open>Rearranging a segment\<close>

definition rearranged :: "int \<Rightarrow> int \<Rightarrow> i64 list \<Rightarrow> i64 list \<Rightarrow> bool" where
  "rearranged lo hi arr arr' \<longleftrightarrow>
     length arr' = length arr \<and> mset arr' = mset arr
     \<and> (\<forall>k. 0 \<le> k \<and> (k < lo \<or> hi < k) \<longrightarrow> arr' ! nat k = arr ! nat k)
     \<and> (\<forall>P. (\<forall>k. lo \<le> k \<and> k \<le> hi \<longrightarrow> P (arr ! nat k)) \<longrightarrow> (\<forall>k. lo \<le> k \<and> k \<le> hi \<longrightarrow> P (arr' ! nat k)))"

lemma rearranged_refl [simp]: "rearranged lo hi arr arr"
  by (simp add: rearranged_def)

lemma rearranged_length: "rearranged lo hi arr arr' \<Longrightarrow> length arr' = length arr"
  by (simp add: rearranged_def)

lemma rearranged_out:
  "rearranged lo hi arr arr' \<Longrightarrow> 0 \<le> k \<Longrightarrow> k < lo \<or> hi < k \<Longrightarrow> arr' ! nat k = arr ! nat k"
  by (simp add: rearranged_def)

lemma rearranged_in:
  assumes "rearranged lo hi arr arr'" and "\<And>k. lo \<le> k \<Longrightarrow> k \<le> hi \<Longrightarrow> P (arr ! nat k)"
    and "lo \<le> k" and "k \<le> hi"
  shows "P (arr' ! nat k)"
  using assms unfolding rearranged_def by blast

lemma rearranged_trans:
  assumes "rearranged lo hi a b" and "rearranged lo hi b c"
  shows "rearranged lo hi a c"
  using assms unfolding rearranged_def by (metis (no_types, lifting))

lemma rearranged_widen:
  assumes "rearranged lo' hi' a b" and "lo \<le> lo'" and "hi' \<le> hi" and "0 \<le> lo"
  shows "rearranged lo hi a b"
proof -
  have "P (b ! nat k)" if "\<forall>k. lo \<le> k \<and> k \<le> hi \<longrightarrow> P (a ! nat k)" "lo \<le> k" "k \<le> hi" for P k
  proof (cases "lo' \<le> k \<and> k \<le> hi'")
    case True
    with rearranged_in [OF assms(1), of P k] that assms(2,3) show ?thesis by auto
  next
    case False
    with rearranged_out [OF assms(1), of k] that assms(4) show ?thesis by auto
  qed
  with assms show ?thesis by (auto simp: rearranged_def)
qed

lemma arr_swap_spec:
  assumes "0 \<le> lo" and "hi < int (length arr)" and "lo \<le> i" and "i \<le> hi" and "lo \<le> j" and "j \<le> hi"
  shows "\<exists>arr'. arr_swap arr i j = Inr arr' \<and> rearranged lo hi arr arr'
    \<and> arr' ! nat i = arr ! nat j \<and> arr' ! nat j = arr ! nat i
    \<and> (\<forall>k. 0 \<le> k \<and> k \<noteq> i \<and> k \<noteq> j \<longrightarrow> arr' ! nat k = arr ! nat k)"
proof -
  let ?a = "arr[nat i := arr ! nat j, nat j := arr ! nat i]"
  have b: "nat i < length arr" "nat j < length arr" using assms by auto
  have at: "?a ! nat i = arr ! nat j" "?a ! nat j = arr ! nat i"
    using b by (auto simp: nth_list_update)
  have other: "?a ! nat k = arr ! nat k" if "0 \<le> k" "k \<noteq> i" "k \<noteq> j" for k
    using that assms by (auto simp: nth_list_update_neq nat_eq_iff)
  have "mset ?a = mset arr" using mset_swap [OF b(2,1)] by simp
  moreover have "P (?a ! nat k)" if "\<forall>k. lo \<le> k \<and> k \<le> hi \<longrightarrow> P (arr ! nat k)" "lo \<le> k" "k \<le> hi" for P k
    using that assms other [of k] at by (cases "k = i"; cases "k = j") auto
  ultimately have "rearranged lo hi arr ?a"
    using other assms by (auto simp: rearranged_def)
  moreover have "arr_swap arr i j = Inr ?a"
    using assms by (simp add: arr_swap_def arr_at_def arr_put_def)
  ultimately show ?thesis using at other by blast
qed

section \<open>Partition and sort\<close>

lemma partition_loop_spec:
  assumes "in_range arr lo hi" and "lo < i" and "j \<le> hi" and "lo \<le> j"
    and "\<forall>k. lo < k \<and> k < i \<longrightarrow> val arr k \<le> sint m" and "\<forall>k. j < k \<and> k \<le> hi \<longrightarrow> sint m \<le> val arr k"
  shows "\<exists>arr' j'. partition_loop m lo hi arr i j = Inr (arr', j') \<and> lo \<le> j' \<and> j' \<le> hi
    \<and> rearranged (lo + 1) hi arr arr' \<and> (\<forall>k. lo < k \<and> k \<le> j' \<longrightarrow> val arr' k \<le> sint m)
    \<and> (\<forall>k. j' < k \<and> k \<le> hi \<longrightarrow> sint m \<le> val arr' k)"
  using assms
proof (induction m lo hi arr i j rule: partition_loop.induct)
  case (1 m lo hi arr i j)
  note rng = 1(2) and lo_i = 1(3) and low = 1(6) and high = 1(7)
  obtain i1 where i1: "scan_up arr m hi i = Inr i1" "i \<le> i1" "i1 \<le> hi \<longrightarrow> sint m \<le> val arr i1"
    "\<forall>k. i \<le> k \<and> k < i1 \<longrightarrow> val arr k < sint m"
    using scan_up_spec [OF rng less_imp_le [OF lo_i], of m] by blast
  obtain j1 where j1: "scan_down arr m lo j = Inr j1" "lo \<le> j1" "j1 \<le> j" "lo < j1 \<longrightarrow> val arr j1 \<le> sint m"
    "\<forall>k. j1 < k \<and> k \<le> j \<longrightarrow> sint m < val arr k"
    using scan_down_spec [OF rng 1(4,5), of m] by blast
  have low1: "val arr k \<le> sint m" if "lo < k" "k < i1" for k
    using that low i1(4) by (cases "k < i") (auto intro: less_imp_le)
  have high1: "sint m \<le> val arr k" if "j1 < k" "k \<le> hi" for k
    using that high j1(5) by (cases "j < k") (auto intro: less_imp_le)
  show ?case
  proof (cases "i1 > j1")
    case True
    with i1(1) j1(1) have "partition_loop m lo hi arr i j = Inr (arr, j1)"
      by (subst partition_loop.simps) simp
    moreover have "j1 \<le> hi" using j1(3) 1(4) by simp
    ultimately show ?thesis
      using j1(2) low1 high1 True by fastforce
  next
    case False
    have b: "lo < i1" "i1 \<le> j1" "j1 \<le> hi" using lo_i i1(2) j1(3) 1(4) False by auto
    obtain arr1 where sw: "arr_swap arr i1 j1 = Inr arr1" "rearranged (lo + 1) hi arr arr1"
      "arr1 ! nat i1 = arr ! nat j1" "arr1 ! nat j1 = arr ! nat i1"
      "\<forall>k. 0 \<le> k \<and> k \<noteq> i1 \<and> k \<noteq> j1 \<longrightarrow> arr1 ! nat k = arr ! nat k"
      using arr_swap_spec [of "lo + 1" hi arr i1 j1] rng b by (auto simp: in_range_def)
    have n: "inc32 i1 = Inr (i1 + 1)" "dec32 j1 = Inr (j1 - 1)"
      using rng b by (auto simp: inc32_def dec32_def in_range_def)
    have rng1: "in_range arr1 lo hi"
      using rng rearranged_length [OF sw(2)] by (simp add: in_range_def)
    have at1: "val arr1 i1 \<le> sint m" "sint m \<le> val arr1 j1"
      using sw(3,4) i1(3) j1(4) b by simp_all
    have low2: "\<forall>k. lo < k \<and> k < i1 + 1 \<longrightarrow> val arr1 k \<le> sint m"
    proof (intro allI impI)
      fix k assume k: "lo < k \<and> k < i1 + 1"
      show "val arr1 k \<le> sint m"
      proof (cases "k = i1")
        case False
        with k b rng sw(5) have "arr1 ! nat k = arr ! nat k" by (auto simp: in_range_def)
        with k False low1 [of k] show ?thesis by simp
      qed (use at1 in simp)
    qed
    have high2: "\<forall>k. j1 - 1 < k \<and> k \<le> hi \<longrightarrow> sint m \<le> val arr1 k"
    proof (intro allI impI)
      fix k assume k: "j1 - 1 < k \<and> k \<le> hi"
      show "sint m \<le> val arr1 k"
      proof (cases "k = j1")
        case False
        with k b rng sw(5) have "arr1 ! nat k = arr ! nat k" by (auto simp: in_range_def)
        with k False high1 [of k] show ?thesis by simp
      qed (use at1 in simp)
    qed
    obtain arr' j' where rest: "partition_loop m lo hi arr1 (i1 + 1) (j1 - 1) = Inr (arr', j')"
      "lo \<le> j'" "j' \<le> hi" "rearranged (lo + 1) hi arr1 arr'"
      "\<forall>k. lo < k \<and> k \<le> j' \<longrightarrow> val arr' k \<le> sint m" "\<forall>k. j' < k \<and> k \<le> hi \<longrightarrow> sint m \<le> val arr' k"
      using 1(1) [OF i1(1) j1(1) False sw(1) n rng1 _ _ _ low2 high2] b by auto
    have "partition_loop m lo hi arr i j = Inr (arr', j')"
      using i1(1) j1(1) False sw(1) n rest(1) by (subst partition_loop.simps) simp
    with rest rearranged_trans [OF sw(2) rest(4)] show ?thesis by blast
  qed
qed

lemma partition_range_spec:
  assumes "in_range arr lo hi" and "lo < hi"
  shows "\<exists>arr' j. partition_range arr lo hi = Inr (arr', j) \<and> lo \<le> j \<and> j \<le> hi \<and> rearranged lo hi arr arr'
    \<and> (\<forall>k. lo \<le> k \<and> k < j \<longrightarrow> val arr' k \<le> val arr' j) \<and> (\<forall>k. j < k \<and> k \<le> hi \<longrightarrow> val arr' j \<le> val arr' k)"
proof -
  have lo: "0 \<le> lo" "hi < int (length arr)" using assms(1) by (auto simp: in_range_def)
  define m where "m = arr ! nat lo"
  have at: "arr_at arr lo = Inr m" "inc32 lo = Inr (lo + 1)"
    using assms by (auto simp: arr_at_def inc32_def in_range_def m_def)
  obtain arr1 j where p: "partition_loop m lo hi arr (lo + 1) hi = Inr (arr1, j)" "lo \<le> j" "j \<le> hi"
    "rearranged (lo + 1) hi arr arr1" "\<forall>k. lo < k \<and> k \<le> j \<longrightarrow> val arr1 k \<le> sint m"
    "\<forall>k. j < k \<and> k \<le> hi \<longrightarrow> sint m \<le> val arr1 k"
    using partition_loop_spec [OF assms(1), of "lo + 1" hi m] assms(2) by auto
  have len: "length arr1 = length arr" by (rule rearranged_length [OF p(4)])
  have pivot: "arr1 ! nat lo = m"
    using rearranged_out [OF p(4), of lo] lo by (simp add: m_def)
  obtain arr' where sw: "arr_swap arr1 lo j = Inr arr'" "rearranged lo hi arr1 arr'"
    "arr' ! nat lo = arr1 ! nat j" "arr' ! nat j = m"
    "\<forall>k. 0 \<le> k \<and> k \<noteq> lo \<and> k \<noteq> j \<longrightarrow> arr' ! nat k = arr1 ! nat k"
    using arr_swap_spec [of lo hi arr1 lo j] lo len p(2,3) assms(2) pivot by auto
  have "partition_range arr lo hi = Inr (arr', j)"
    using at p(1) sw(1) by (simp add: partition_range_def)
  moreover have "rearranged lo hi arr arr'"
    using rearranged_trans [OF rearranged_widen [OF p(4), of lo hi] sw(2)] lo by simp
  moreover have "val arr' k \<le> val arr' j" if "lo \<le> k" "k < j" for k
    using that sw(3-5) p(2,5) lo by (cases "k = lo") auto
  moreover have "val arr' j \<le> val arr' k" if "j < k" "k \<le> hi" for k
    using that sw(4,5) p(2,6) lo by auto
  ultimately show ?thesis using p(2,3) by blast
qed

lemma quickSort_spec:
  assumes "in_range arr lo hi"
  shows "\<exists>arr'. quickSort arr lo hi = Inr arr' \<and> rearranged lo hi arr arr'
    \<and> (\<forall>a b. lo \<le> a \<and> a \<le> b \<and> b \<le> hi \<longrightarrow> val arr' a \<le> val arr' b)"
  using assms
proof (induction arr lo hi rule: quickSort.induct)
  case (1 arr lo hi)
  show ?case
  proof (cases "lo < hi")
    case True
    obtain arr1 j where p: "partition_range arr lo hi = Inr (arr1, j)" "lo \<le> j" "j \<le> hi"
      "rearranged lo hi arr arr1" "\<forall>k. lo \<le> k \<and> k < j \<longrightarrow> val arr1 k \<le> val arr1 j"
      "\<forall>k. j < k \<and> k \<le> hi \<longrightarrow> val arr1 j \<le> val arr1 k"
      using partition_range_spec [OF 1(3) True] by blast
    have lo: "0 \<le> lo" using 1(3) by (simp add: in_range_def)
    have n: "dec32 j = Inr (j - 1)" "inc32 j = Inr (j + 1)"
      using 1(3) p(2,3) by (auto simp: inc32_def dec32_def in_range_def)
    have "in_range arr1 lo (j - 1)"
      using 1(3) p(3) rearranged_length [OF p(4)] by (auto simp: in_range_def)
    from 1(1) [OF True p(1) refl n(1) this] obtain arr2 where
      q: "quickSort arr1 lo (j - 1) = Inr arr2" "rearranged lo (j - 1) arr1 arr2"
      "\<forall>a b. lo \<le> a \<and> a \<le> b \<and> b \<le> j - 1 \<longrightarrow> val arr2 a \<le> val arr2 b" by blast
    have "in_range arr2 (j + 1) hi"
      using 1(3) p(2) rearranged_length [OF p(4)] rearranged_length [OF q(2)] by (auto simp: in_range_def)
    from 1(2) [OF True p(1) refl n(1) q(1) n(2) this] obtain arr3 where
      r: "quickSort arr2 (j + 1) hi = Inr arr3" "rearranged (j + 1) hi arr2 arr3"
      "\<forall>a b. j + 1 \<le> a \<and> a \<le> b \<and> b \<le> hi \<longrightarrow> val arr3 a \<le> val arr3 b" by blast
    have run: "quickSort arr lo hi = Inr arr3"
      using True p(1) n q(1) r(1) by (subst quickSort.simps) simp
    have same2: "arr2 ! nat k = arr1 ! nat k" if "j \<le> k" for k
      using rearranged_out [OF q(2), of k] that p(2) lo by simp
    have same3: "arr3 ! nat k = arr2 ! nat k" if "lo \<le> k" "k \<le> j" for k
      using rearranged_out [OF r(2), of k] that lo by simp
    have mid: "val arr3 j = val arr1 j" using same2 [of j] same3 [of j] p(2) by simp
    have left: "val arr3 k \<le> val arr3 j" if "lo \<le> k" "k < j" for k
      using rearranged_in [OF q(2), of "\<lambda>x. sint x \<le> val arr1 j" k] p(5) that same3 [of k] mid by auto
    have right: "val arr3 j \<le> val arr3 k" if "j < k" "k \<le> hi" for k
      using rearranged_in [OF r(2), of "\<lambda>x. val arr1 j \<le> sint x" k] p(6) that same2 mid by auto
    have "val arr3 a \<le> val arr3 b" if ab: "lo \<le> a" "a \<le> b" "b \<le> hi" for a b
    proof (cases "b < j")
      case True
      with ab q(3) same3 [of a] same3 [of b] show ?thesis by auto
    next
      case False
      show ?thesis
      proof (cases "j < a")
        case True
        with ab r(3) show ?thesis by auto
      next
        case a: False
        have "val arr3 a \<le> val arr3 j" using left [of a] ab a by (cases "a = j") auto
        also have "\<dots> \<le> val arr3 b" using right [of b] ab False by (cases "b = j") auto
        finally show ?thesis .
      qed
    qed
    moreover have "rearranged lo hi arr arr3"
      using rearranged_trans [OF p(4) rearranged_trans [OF
        rearranged_widen [OF q(2), of lo hi] rearranged_widen [OF r(2), of lo hi]]] p(2,3) lo by simp
    ultimately show ?thesis using run by blast
  next
    case False
    then have "quickSort arr lo hi = Inr arr" by (subst quickSort.simps) simp
    with False show ?thesis by (auto intro!: exI [of _ arr] simp: order.order_iff_strict)
  qed
qed

section \<open>Properties\<close>

text \<open>
  C38. Quicksort of a whole vector of fewer than 2^31 elements returns without reading or writing out
  of range and without an index overflowing, and leaves exactly the sorted list of its elements, in
  the order of signed 64-bit integers.
\<close>

theorem quickSort_sorts:
  assumes "length arr \<le> 2147483647"
  shows "\<exists>arr'. quickSort arr 0 (int (length arr) - 1) = Inr arr' \<and> mset arr' = mset arr
    \<and> map sint arr' = sort (map sint arr)"
proof -
  have "in_range arr 0 (int (length arr) - 1)" using assms by (simp add: in_range_def)
  from quickSort_spec [OF this] obtain arr' where run: "quickSort arr 0 (int (length arr) - 1) = Inr arr'"
    and re: "rearranged 0 (int (length arr) - 1) arr arr'"
    and ord: "\<forall>a b. 0 \<le> a \<and> a \<le> b \<and> b \<le> int (length arr) - 1 \<longrightarrow> val arr' a \<le> val arr' b" by blast
  have m: "mset arr' = mset arr" and len: "length arr' = length arr" using re by (simp_all add: rearranged_def)
  have "sorted (map sint arr')"
  proof (rule sorted_iff_nth_mono_less [THEN iffD2], intro allI impI)
    fix a b assume "a < b" "b < length (map sint arr')"
    with ord [rule_format, of "int a" "int b"] len show "map sint arr' ! a \<le> map sint arr' ! b" by simp
  qed
  then have "sort (map sint arr) = map sint arr'"
    by (rule properties_for_sort [rotated]) (simp add: m)
  with run m show ?thesis by simp
qed

theorem quickSort_sorts_witness:
  "\<exists>arr'. quickSort [3, - 1, 2] 0 2 = Inr arr' \<and> map sint arr' = [- 1, 2, 3]"
  using quickSort_sorts [of "[3, - 1, 2]"] by auto

end
