(* ===== verification/Spec2Isabelle.thy ===== *)
theory Spec2Isabelle
  imports WireProps ServiceProps WorkersProps Sessions Handlers ServerMain CurlTool HttpClient CurlPool ClientServer ToolServer
    Conversations AbstractStore UnitTests Kafka HdfsRead Greeter PbTest Quicksort Demos
begin

text \<open>
  A verification development for leon-c. The repository is a small feature server in C++ (proxygen
  HTTP in front, a bounded cache, redis behind) with the HTTP clients that call it, two further HTTP
  servers, and stand-alone programs that try out a library each. Everything is modelled from the C++
  sources under src/; what is not in the repository (proxygen, folly, hiredis and the redis server,
  the protobuf runtime, librdkafka, Arrow, gRPC) is a parameter, and what the code relies on there is a
  locale that states documented behaviour, or a hypothesis. Each such locale has an executable
  instance, on which the witnesses run.

  Conventions. Objects are records with the members of the class, machine integers are words, memory
  errors and uncaught exceptions are values of the type \<open>fault\<close> of \<open>Prelude\<close>, and an operation that may
  fail has a result in \<open>'a res\<close>. Loops are structural recursions or functions with a measure; the
  generated protobuf parser and the polling loop of kafka-test.cpp, which may not end, are partial
  functions into \<open>option\<close>, and that they return is a theorem (\<open>parsers_return\<close>) or decided exactly
  (\<open>poll_loop_first_twenty\<close>). No fuel is used anywhere.

  1. Wire format (feature-server/util/pbdata/serv-msg.pb.cc and .pb.h). \<open>Wire\<close>: the runtime's readers
  and writers as the record \<open>wire_rt\<close> with the locale \<open>wire_runtime\<close>, and the loop every
  \<open>_InternalParse\<close> has. \<open>OneInfo\<close>, \<open>PushMsgs\<close>, \<open>PullMsgs\<close>, \<open>DelCacheMsgs\<close>: the seven messages, with accessors,
  parsing, sizes, serialisation, merge, copy and swap. \<open>WireRef\<close>: a runtime written out, base-128
  varints included. \<open>WireProps\<close>: parsing what was serialised merges the same message; sizes are the
  number of bytes; the look-ahead loop is the plain loop; bad UTF-8 is rejected; every parser returns.

  2. The feature server. \<open>CacheSpace\<close> (cache/Cache) over the locale \<open>evicting_cache\<close>; \<open>RedisDB\<close>
  (db/RedisDB) over the locale \<open>redis_hashes\<close>; \<open>Msg\<close> (service/Msg) over \<open>pb_runtime\<close>; \<open>Http\<close>, what a
  proxygen handler sees, with the contracts \<open>request_handler\<close> and \<open>body_handler\<close>; \<open>Service\<close>
  (service/Service): routing and \<open>FsHandler\<close>, and histories of requests served one after another.
  \<open>ServiceFacts\<close> proves, inside the locale \<open>feature_store\<close> that combines cache and store, the invariant
  of every request, what a pull answers, what a push stores and how connections are used up. Redis may
  fail: any command on any connection may give no reply or an error, and the parameter \<open>failed\<close> of the
  locales tells from the environment whether one has; with \<open>failed\<close> constantly false they describe a
  server that always answers. Values are claimed as long as none has failed; faults, bounds and the
  consistency of the store are claimed with failures. \<open>RedisDB.cpp:50\<close> hands an \<open>fbstring\<close> object to a \<open>%s\<close>
  conversion: what is read there is the parameter \<open>vararg_fbstring\<close>, a function of the content and the environment
  that may also fail; only for at most 23 bytes, which folly keeps inside the object, is it known to be the
  data up to its first NUL (\<open>short_string\<close>), and \<open>reads_as\<close> is the relation for the rest.
  \<open>ServiceProps\<close> states it for every history from process start: a pull answers what the store holds
  whatever is cached; the first value pushed for a key is served ever after and no later push changes
  it; a process ends by the use of a connection that a push has freed, by a null reply, or by a wild read
  of a long string, and by nothing else (\<open>faults_of_a_history\<close>); at most ten pushes are
  served; a push answers twice. Keys are 64-bit words at the interface and 32 bits wide in the store
  (\<open>redis_keys_alias\<close>). \<open>AbstractStore\<close> gives the abstract server, a map that is written once, and
  proves that the service refines it: what is sent over any history is byte for byte what the map says
  (\<open>server_refines_write_once_map\<close>). The theorem of this file composes all of it, from the bytes of a
  request to the bytes of its answer; \<open>ClientServer\<close> (part 5) goes on to the client objects.

  3. Worker threads. \<open>Workers\<close> cuts \<open>FsHandler::onBody\<close> into calls on the cache and on a connection of the
  store, each with a beginning and an end, and lets any number of threads interleave as the inductive
  relation \<open>wstep\<close>. Nothing in the code locks the cache or a connection, so two threads can be inside a
  call on the same object, which the program does not survive in general: \<open>threads_collide\<close> shows such a
  schedule from process start. What a program with such a race does is not modelled; \<open>wrun\<close> is the runs
  in which it does not happen, and \<open>WorkersProps\<close> is about them: in every reachable state the
  cache and the pulls carry only values that are stored for their key, and no stored value is lost
  (\<open>interleavings_keep_values\<close>); when all versions are 0, as the code alone makes them, the sequential
  guarantees survive (\<open>version_zero_coherent\<close>); with other versions a schedule is given after which the cache
  keeps a superseded value (\<open>interleaving_leaves_stale_cache\<close>).

  4. Other servers. \<open>Handlers\<close>: httpserver/service, test-debug/main and test-debug/echo, the last with
  its per-thread counters as a heap of \<open>EchoStats\<close>. \<open>ServerMain\<close>: the four \<open>main\<close> functions, from flags
  and processor count to the server's options.

  \<open>Sessions\<close>: the life of the handlers of all four, which delete themselves. The callbacks of many
  requests interleave, each request in proxygen's order; under the contract \<open>self_deleting\<close>, which the
  four interpret, no callback meets a deleted handler, none is left over, and each completed request
  has one well-formed answer.

  5. HTTP clients. \<open>HttpHeaders\<close>: the header-list parser that all three contain. \<open>Upstream\<close>: the proxygen
  and folly calls they share, the transports, the callbacks of a client and of a pushed transaction, and
  what is logged. \<open>CurlTool\<close> (test-debug/curl): uploads under back pressure, output files, responses,
  pushed transactions; a response is saved whole (\<open>response_is_saved\<close>). \<open>ClientFactory\<close>: the map from
  names to pools as a contract, interpreted by both pooled clients. \<open>HttpClient\<close> (back-code/client) and
  \<open>CurlPool\<close> (back-code/curl): connections, transactions, pools and their \<open>send\<close>, with every callback and
  its log. Asynchronous callbacks are lists of events handed to the model in the order they arrive; the
  contents are arbitrary, and the theorems hold for all. In \<open>CurlPool\<close> each event names the transaction that
  makes it: the one a send opens on a connected client has a local object as its handler, which is gone
  before the sleep (\<open>pw_gone\<close>), so its first callback is a use after free (\<open>pool_send_result\<close>).

  \<open>ClientServer\<close> puts both pooled clients in front of the feature server: the calls on a transaction are
  read as the request on the wire, and the server is \<open>serve\<close> of \<open>Service\<close> after any history. Of the network
  nothing is assumed but that it keeps the order of the bytes. A body reaches the server in any pieces
  (the second component of the argument of \<open>serve_wire\<close>), each of which is one \<open>onBody\<close>; an answer reaches the client cut into
  any parts, of whose callbacks the first \<open>n\<close> come before the client stops waiting (\<open>answer_arrives\<close>). A pull by
  the pooled client ends in one of the ways \<open>pull_over_http\<close> lists, a value pushed over HTTP is read back
  over HTTP (\<open>push_then_pull_over_http\<close>), and on its first send the older client hands its caller all of the
  answer that has come where the newer one hands over the last part (\<open>older_client_gets_whole_answer\<close>).

  \<open>ToolServer\<close> has the command-line client as a whole program against the server, from its flags to what
  it prints (\<open>curl_prints_answers\<close>): its file goes out in parts of 4096 bytes, and the server answers each
  piece in which it arrives as a request of its own.

  \<open>Conversations\<close> follows a caller through many sends on one pool. Each send turns the event loop twice;
  \<open>env_busy\<close> holds the sessions whose one HTTP/1.1 transaction is still open, for which \<open>newTransaction\<close>
  returns a null pointer. The sends are answered one by one until an answer is late, which is decided
  exactly (\<open>pulls_in_step\<close>).

  6. Stand-alone programs. \<open>Kafka\<close> (test-debug/kafka-test): both consumers; \<open>consume\<close> answers the
  callbacks it ran and a message, and the theorem counts over the history of these. The loop's own
  counter bounds it to twelve reads. \<open>HdfsRead\<close> (test-debug/hdfs-test): reading in blocks of 4 MiB.
  \<open>HelloMsgs\<close> and \<open>Greeter\<close> (test-debug/rpc-test and feature-server/service/Grpcser.h): the greeter's
  messages, its generated service and blocking stub, the service and its client over a library call that may
  fail (\<open>greeting_over_the_wire\<close>), and the start of the server, also as feature-server/main.cpp has it.
  \<open>PbTest\<close> (test-debug/pb-test): a message generated for an older protobuf runtime, which reads a coded
  stream up to a tag 0, with its round trip, and the program around it.
  \<open>Quicksort\<close> (test-debug/file-test): the in-place sort sorts, for vectors of fewer than 2^31 elements,
  without leaving the vector or overflowing an index. \<open>Demos\<close>: the programs for cpprest, hiredis and
  MySQL, the two that only print, and feature-server/util/Yaml, each as the calls it makes, what it
  prints and how failures end.

  Not modelled. In the generated code: descriptor tables, reflection, arenas and the
  release/set_allocated accessors; the asynchronous gRPC stubs. The main loops of proxygen and gRPC and of the event
  bases. \<open>alarm\<close> and \<open>print_time\<close> of kafka-test-1.cpp. Several files (client/Httpcli,
  service/Grpcser.cpp, consul-cli.cpp) are empty, test-1/bazel-test/main.cpp declares one name twice and
  does not compile, test-debug/gtest is a sample of its library. \<open>UnitTests\<close> has the unit tests of the feature server and of both
  its clients, with what they print; test_win_rest, two requests of cpprest alone that run concurrently, is
  left out.
\<close>

section \<open>From the client's bytes to the client's bytes\<close>

text \<open>
  End to end: a client serialises a pull request, the handler answers it after any history of
  requests, and the client parses the body it gets. It reads, with error code 0 and nothing left
  over, one datum for each key it asked for, in its order, and each is what the store answers for
  that key, unless a command of redis has failed.
\<close>

theorem end_to_end_pull:
  assumes "feature_store libs look cap ok hash dec failed" and "\<forall>k. versioned dec (hash e k)"
    and "pb_runtime rt varint (lib_pb libs)"
    and "serve_all libs rqs (server_start libs e) = Inr (rs, s)"
    and "PullReq_fits rt a"
    and "FsHandler_onBody libs (PullReq_InternalSerialize rt (snd (PullReq_ByteSizeLong rt a)), rest)
      \<lparr>reqType = Pull\<rparr> s = Inr (r, h, s')"
    and "\<not> failed (env (db s'))"
  shows "\<exists>data rsp. r = [send_body rsp]
    \<and> list_all2 (\<lambda>k x. value_of (to_int64 (lib_host libs)) (hash (env (db s)) (ucast k)) x) (PullReq_keys a) data
    \<and> (fst (PullRsp_ByteSizeLong rt (PullRsp_SharedCtor\<lparr>PullRsp_data := data\<rparr>)) < wire_max \<longrightarrow>
       PullRsp_InternalParse rt PullRsp_SharedCtor rsp
         = Some (PullRsp_SharedCtor\<lparr>PullRsp_data := data\<rparr>, AtLimit))"
proof -
  note fs = assms(1) and pb = assms(3)
  let ?b = "PullReq_InternalSerialize rt (snd (PullReq_ByteSizeLong rt a))"
  let ?m = "InOutMsg_ctor (lib_pb libs) ?b Pull"
  have "PullReq_InternalParse rt PullReq_SharedCtor ?b = Some (PullReq_MergeFrom PullReq_SharedCtor a, AtLimit)"
    by (rule wire_runtime.PullReq_parse_serialized [OF push_runtime.axioms [OF pb_runtime.axioms(1) [OF pb]] assms(5)])
  from pb_runtime.decode_pull [OF pb this] have
    m: "map info_id (msg_infos ?m) = PullReq_keys a" "msg_t ?m = Pull"
    by (simp_all add: PullReq_MergeFrom_default comp_def)
  have inv: "feature_store.inv libs look cap ok hash dec failed s"
    using feature_store.history_keeps [OF fs feature_store.start_inv(1) [OF fs assms(2)] assms(4)]
    by simp
  obtain msg where r: "r = [send_body (InOutMsg_EncodeRsp (lib_pb libs) 0 msg)]"
    and f: "feature_store.filled libs look cap ok hash dec failed 0 (map info_id (msg_infos ?m)) ?m s msg s'"
    using feature_store.handle_pull_answers [OF fs inv, of ?m] assms(6)
    by (auto simp: FsHandler_onBody_def Let_def)
  from feature_store.filled_all [OF fs f, unfolded m] assms(7)
  have "list_all2 (\<lambda>k x. value_of (to_int64 (lib_host libs)) (hash (env (db s)) (ucast k)) x)
      (PullReq_keys a) (map info_d (msg_infos msg))" and "msg_t msg = Pull"
    by simp_all
  with r pb_runtime.encode_pull [OF pb, of msg] show ?thesis
    by (auto simp: pb_runtime.encodable_def [OF pb])
qed

theorem end_to_end_pull_witness:
  "\<exists>data rsp. [send_body (InOutMsg_EncodeRsp ref_pb 0
        \<lparr>msg_infos = [\<lparr>info_id = 300, info_d = [104, 105]\<rparr>], msg_fields = {}, msg_t = Pull\<rparr>)]
      = [send_body rsp]
    \<and> list_all2 (\<lambda>k x. value_of (to_int64 (lib_host ref_libs)) (ref_hash (env (db ex_pushed)) (ucast k)) x)
        (PullReq_keys ex_pull_req) data
    \<and> (fst (PullRsp_ByteSizeLong srv_rt (PullRsp_SharedCtor\<lparr>PullRsp_data := data\<rparr>)) < wire_max \<longrightarrow>
       PullRsp_InternalParse srv_rt PullRsp_SharedCtor rsp
         = Some (PullRsp_SharedCtor\<lparr>PullRsp_data := data\<rparr>, AtLimit))"
proof -
  have pb: "pb_runtime srv_rt varint_ref (lib_pb ref_libs)"
    using ref_msgs_conforms by (simp add: ref_libs_def)
  obtain rs where h: "serve_all ref_libs [ex_push_rq] (server_start ref_libs ex_env) = Inr (rs, ex_pushed)"
    using ex_history by blast
  show ?thesis
    by (rule end_to_end_pull [OF ref_store_conforms ex_env_versioned pb h ex_pull_req_fits])
      (use ex_pull_run in \<open>simp_all add: ex_pull_body_def\<close>)
qed

end
